(* ===== verification/Prelude.thy ===== *)
theory Prelude
  imports Main "HOL-Library.Word" "HOL-Library.Sublist"
begin

text \<open>
  Shared vocabulary of the development: the types every component uses, the collections the
  component proofs draw on, the model of a statement sent to the database, and generic lemmas
  on lists and separators.

  A Go string is a byte sequence; it is a HOL \<^typ>\<open>string\<close>, whose characters are bytes, so
  \<^const>\<open>length\<close> is Go's \<open>len\<close>. A \<open>uuid.UUID\<close> is sixteen bytes: a 128-bit word, whose
  order is the byte-wise order Postgres compares uuid columns by. An instant is a number of
  nanoseconds since the Unix epoch.
\<close>

type_synonym uuid = "128 word"
type_synonym instant = int

abbreviation uuid_nil :: uuid where
  "uuid_nil \<equiv> 0"

named_theorems frame_rules "what a step leaves as it is"
named_theorems no_bar "texts without the separator of signed texts and cursors"

subsection \<open>Statements sent to the database\<close>

text \<open>
  A statement runs on the server's tables and either succeeds with a value or is refused by the
  server (a constraint). Between the service and the server a request can be lost before it is
  applied, or applied with its reply lost; in both cases the client sees an error. Refusals the
  tables do not explain (a closed pool, a cancelled context, a value the server rejects and the
  statement's model does not) are \<open>LostRequest\<close> too: an error with the tables unchanged.
\<close>

datatype fault = NoFault | LostRequest string | LostReply string

fun db_exec :: "fault \<Rightarrow> ('s \<Rightarrow> (string + 'a) \<times> 's) \<Rightarrow> 's \<Rightarrow> (string + 'a) \<times> 's" where
  "db_exec NoFault stmt s = stmt s"
| "db_exec (LostRequest m) stmt s = (Inl m, s)"
| "db_exec (LostReply m) stmt s = (Inl m, snd (stmt s))"

lemma db_exec_InrD:
  "db_exec f stmt s = (Inr a, s') \<Longrightarrow> f = NoFault \<and> stmt s = (Inr a, s')"
  by (cases f) auto

lemma db_exec_state: "snd (db_exec f stmt s) \<in> {s, snd (stmt s)}"
  by (cases f) auto

lemma db_exec_inv:
  assumes "P s" "P (snd (stmt s))"
  shows "P (snd (db_exec f stmt s))"
  using assms by (cases f) auto

text \<open>A parameter of type text that holds a NUL byte is refused by the server when it is bound, before the statement
  runs. (Of texts that \<open>encoding/json\<close> has decoded it refuses nothing else: they are valid UTF-8.)\<close>

definition bindable :: "string list \<Rightarrow> bool" where
  "bindable texts \<longleftrightarrow> list_all (\<lambda>t. CHR 0x00 \<notin> set t) texts"

definition bound :: "string list \<Rightarrow> ('s \<Rightarrow> (string + 'a) \<times> 's) \<Rightarrow> 's \<Rightarrow> (string + 'a) \<times> 's" where
  "bound texts stmt s =
     (if bindable texts then stmt s else (Inl ''invalid byte sequence for encoding UTF8: 0x00'', s))"

lemma bound_state: "snd (bound texts stmt s) \<in> {s, snd (stmt s)}"
  by (simp add: bound_def)

lemma bound_InrD: "bound texts stmt s = (Inr a, s') \<Longrightarrow> bindable texts \<and> stmt s = (Inr a, s')"
  by (simp add: bound_def split: if_splits)

subsection \<open>Lists with a separator\<close>

lemma sep_first_eq:
  assumes "c \<notin> set xs" "c \<notin> set xs'"
  shows "xs @ c # ys = xs' @ c # ys' \<longleftrightarrow> xs = xs' \<and> ys = ys'"
  using assms
proof (induction xs arbitrary: xs')
  case Nil
  then show ?case by (cases xs') auto
next
  case (Cons x xs)
  then show ?case by (cases xs') auto
qed

lemma sep_last_eq:
  assumes "c \<notin> set ys" "c \<notin> set ys'"
  shows "xs @ c # ys = xs' @ c # ys' \<longleftrightarrow> xs = xs' \<and> ys = ys'"
proof -
  have "xs @ c # ys = xs' @ c # ys' \<longleftrightarrow> rev (xs @ c # ys) = rev (xs' @ c # ys')"
    by (simp only: rev_is_rev_conv)
  also have "\<dots> \<longleftrightarrow> rev ys @ c # rev xs = rev ys' @ c # rev xs'" by simp
  also have "\<dots> \<longleftrightarrow> rev ys = rev ys' \<and> rev xs = rev xs'"
    using assms by (intro sep_first_eq) auto
  finally show ?thesis by auto
qed

fun join :: "'a list \<Rightarrow> 'a list list \<Rightarrow> 'a list" where
  "join sep [] = []"
| "join sep [x] = x"
| "join sep (x # y # zs) = x @ sep @ join sep (y # zs)"

lemma join_eq_iff:
  assumes "length xs = length ys" "\<forall>x \<in> set xs. c \<notin> set x" "\<forall>y \<in> set ys. c \<notin> set y"
  shows "join [c] xs = join [c] ys \<longleftrightarrow> xs = ys"
  using assms
proof (induction xs ys rule: list_induct2)
  case Nil
  then show ?case by simp
next
  case (Cons x xs y ys)
  then show ?case
    by (cases xs; cases ys) (auto simp: sep_first_eq)
qed

lemma map_of_unique_update:
  "k \<notin> fst ` set xs \<Longrightarrow> map_of (xs @ [(k, v)]) = (map_of xs)(k \<mapsto> v)"
  by (induction xs) auto

end
