(* ===== verification/Interfaces.thy ===== *)
theory Interfaces
  imports Prelude
begin

text \<open>
  The contracts components rely on, as locales, each with the consequences a client draws from
  it. The theory of the component that provides a contract interprets it on the model's own
  operations.

  \<^item> \<open>claim_once\<close>: an operation that claims a key at most once (the send log's \<open>Reserve\<close>, the
    waitlist's \<open>AddToWaitlist\<close>). Whatever the order of the requests and whichever of them the
    database loses, no key is won twice.
  \<^item> \<open>tenant_store\<close>: operations that act for one owner and leave every other owner's view of
    the store alone (all the operations of the notification store, the consumer's included).
  \<^item> \<open>isolated_store\<close>: where, besides, answers and effects depend on the owner's view only (the
    requests of the inbox API), so that no owner can observe another.
\<close>

subsection \<open>Runs\<close>

fun run_steps :: "('a \<Rightarrow> 's \<Rightarrow> 'r \<times> 's) \<Rightarrow> 'a list \<Rightarrow> 's \<Rightarrow> 'r list \<times> 's" where
  "run_steps f [] s = ([], s)"
| "run_steps f (a # as) s =
     (let (r, s') = f a s; (rs, t) = run_steps f as s' in (r # rs, t))"

lemma run_steps_Cons:
  "run_steps f (a # as) s =
   (fst (f a s) # fst (run_steps f as (snd (f a s))), snd (run_steps f as (snd (f a s))))"
  by (simp add: split_beta Let_def)

lemma run_steps_inv:
  assumes "\<And>a s. P s \<Longrightarrow> P (snd (f a s))" "P s"
  shows "P (snd (run_steps f as s))"
  using assms(2) by (induction as arbitrary: s) (simp_all add: run_steps_Cons assms(1) del: run_steps.simps(2))

lemma length_run_steps [simp]: "length (fst (run_steps f as s)) = length as"
  by (induction as arbitrary: s) (simp_all add: run_steps_Cons del: run_steps.simps(2))

subsection \<open>Claiming a key at most once\<close>

definition wins :: "('a \<Rightarrow> 'k) \<Rightarrow> 'k \<Rightarrow> 'a list \<Rightarrow> bool list \<Rightarrow> nat" where
  "wins key k as bs = length (filter (\<lambda>(a, b). b \<and> key a = k) (zip as bs))"

lemma wins_simps [simp]:
  "wins key k [] bs = 0" "wins key k as [] = 0"
  "wins key k (a # as) (b # bs) = (if b \<and> key a = k then 1 else 0) + wins key k as bs"
  by (simp_all add: wins_def)

locale claim_once =
  fixes claim :: "'a \<Rightarrow> 's \<Rightarrow> bool \<times> 's"
    and key :: "'a \<Rightarrow> 'k"
    and held :: "'s \<Rightarrow> 'k set"
  assumes won_fresh: "claim a s = (True, s') \<Longrightarrow> key a \<notin> held s"
    and won_held: "claim a s = (True, s') \<Longrightarrow> key a \<in> held s'"
    and held_mono: "claim a s = (b, s') \<Longrightarrow> held s \<subseteq> held s'"
begin

lemma held_never_won: "k \<in> held s \<Longrightarrow> wins key k as (fst (run_steps claim as s)) = 0"
proof (induction as arbitrary: s)
  case (Cons a as)
  obtain b s' where c: "claim a s = (b, s')" by (cases "claim a s")
  then have k: "k \<in> held s'" using Cons.prems held_mono by blast
  have "\<not> (b \<and> key a = k)" using c Cons.prems won_fresh by (cases b) auto
  then show ?case using Cons.IH [OF k] c by (auto simp: Let_def split: prod.splits)
qed simp

lemma at_most_one_win: "wins key k as (fst (run_steps claim as s)) \<le> 1"
proof (induction as arbitrary: s)
  case (Cons a as)
  obtain b s' where c: "claim a s = (b, s')" by (cases "claim a s")
  show ?case
  proof (cases "b \<and> key a = k")
    case True
    then have "k \<in> held s'" using c won_held by auto
    then show ?thesis using c held_never_won [of k s' as] True
      by (auto simp: Let_def split: prod.splits)
  next
    case False
    then show ?thesis using c Cons.IH [of s'] by (auto simp: Let_def split: prod.splits)
  qed
qed simp

end

subsection \<open>Operations for one owner\<close>

locale tenant_store =
  fixes step :: "'o \<Rightarrow> 's \<Rightarrow> 'r \<times> 's"
    and owner :: "'o \<Rightarrow> 'u"
    and view :: "'u \<Rightarrow> 's \<Rightarrow> 'v"
  assumes foreign: "owner p \<noteq> u \<Longrightarrow> view u (snd (step p s)) = view u s"
begin

lemma foreign_run:
  "\<forall>p \<in> set ps. owner p \<noteq> u \<Longrightarrow> view u (snd (run_steps step ps s)) = view u s"
  by (induction ps arbitrary: s) (simp_all add: foreign run_steps_Cons del: run_steps.simps(2))

end

text \<open>The answers an owner received, of a run's operations and their results.\<close>

definition answers_to :: "('o \<Rightarrow> 'u) \<Rightarrow> 'u \<Rightarrow> 'o list \<Rightarrow> 'r list \<Rightarrow> 'r list" where
  "answers_to owner u ps rs = map snd (filter (\<lambda>(p, r). owner p = u) (zip ps rs))"

lemma answers_to_simps [simp]:
  "answers_to owner u [] rs = []"
  "answers_to owner u (p # ps) (r # rs) =
     (if owner p = u then r # answers_to owner u ps rs else answers_to owner u ps rs)"
  by (simp_all add: answers_to_def)

text \<open>Where, besides, what an owner sees and is answered depends only on what the owner saw
  before, a run looks to the owner like the run with the others' operations left out: no
  operation of another owner can be observed.\<close>

locale isolated_store = tenant_store +
  assumes own: "view u s = view u t \<Longrightarrow> owner p = u \<Longrightarrow>
    view u (snd (step p s)) = view u (snd (step p t)) \<and> fst (step p s) = fst (step p t)"
begin

lemma noninterference:
  "view u s = view u t \<Longrightarrow>
   view u (snd (run_steps step ps s)) =
     view u (snd (run_steps step (filter (\<lambda>p. owner p = u) ps) t)) \<and>
   answers_to owner u ps (fst (run_steps step ps s)) =
     fst (run_steps step (filter (\<lambda>p. owner p = u) ps) t)"
proof (induction ps arbitrary: s t)
  case (Cons p ps)
  show ?case
  proof (cases "owner p = u")
    case True
    note o = own [OF Cons.prems True]
    then show ?thesis using Cons.IH [OF conjunct1 [OF o]] True
      by (simp add: run_steps_Cons del: run_steps.simps(2))
  next
    case False
    have "view u (snd (step p s)) = view u t" using foreign [OF False] Cons.prems by simp
    then show ?thesis using Cons.IH False by (simp add: run_steps_Cons del: run_steps.simps(2))
  qed
qed simp

end

end
