(* ===== verification/Notification_Store.thy ===== *)
theory Notification_Store
  imports Interfaces
begin

text \<open>
  The notification itself (\<open>internal/domain/notification.go\<close>) and its Postgres store
  (\<open>internal/store/postgres/notification_store.go\<close>, behind the interface of
  \<open>internal/store/store.go\<close>), on the table of \<open>migrations/000001\<close> and \<open>000006\<close>.

  The table is a list of rows in insertion order; a row has the fields of \<open>domain.Notification\<close>,
  one per column. Each method is the statement of its SQL text on that list, sent through
  \<^const>\<open>db_exec\<close>. What Postgres does to values on their way in is a parameter, the record
  \<open>pg\<close>: the resolution of \<open>timestamptz\<close>, the text \<open>jsonb\<close> keeps of a document (and whether it
  accepts it), \<open>lower()\<close> and the cast of a text to \<open>timestamptz\<close>.
\<close>

record pg =
  pg_time :: "instant \<Rightarrow> instant"
  pg_jsonb :: "string \<Rightarrow> string option"
  pg_lower :: "string \<Rightarrow> string"
  pg_cast_time :: "string \<Rightarrow> instant option"

subsection \<open>Notifications\<close>

definition NotificationTypeKYCTierChanged :: string where "NotificationTypeKYCTierChanged = ''KYC_TIER_CHANGED''"
definition NotificationTypeBidReceived :: string where "NotificationTypeBidReceived = ''BID_RECEIVED''"
definition NotificationTypeBidAccepted :: string where "NotificationTypeBidAccepted = ''BID_ACCEPTED''"
definition NotificationTypeMilestoneReached :: string where "NotificationTypeMilestoneReached = ''MILESTONE_REACHED''"
definition NotificationTypeContractSigned :: string where "NotificationTypeContractSigned = ''CONTRACT_SIGNED''"
definition NotificationTypeAccountSuspended :: string where "NotificationTypeAccountSuspended = ''ACCOUNT_SUSPENDED''"
definition NotificationTypeKYCStatusChanged :: string where "NotificationTypeKYCStatusChanged = ''KYC_STATUS_CHANGED''"

lemmas notification_type_defs =
  NotificationTypeKYCTierChanged_def NotificationTypeBidReceived_def
  NotificationTypeBidAccepted_def NotificationTypeMilestoneReached_def
  NotificationTypeContractSigned_def NotificationTypeAccountSuspended_def
  NotificationTypeKYCStatusChanged_def

record notification =
  ID :: uuid
  UserID :: uuid
  Type :: string
  Title :: string
  Body :: string
  Data :: "string option"
  SourceEventID :: "uuid option"
  ReadAt :: "instant option"
  CreatedAt :: instant

text \<open>The CHECK constraint on \<open>type\<close>, as \<open>migrations/000006\<close> leaves it.\<close>

definition notifications_type_check :: "string \<Rightarrow> bool" where
  "notifications_type_check t \<longleftrightarrow> t \<in> set
     [''KYC_TIER_CHANGED'', ''BID_RECEIVED'', ''BID_ACCEPTED'', ''MILESTONE_REACHED'',
      ''CONTRACT_SIGNED'', ''ACCOUNT_SUSPENDED'', ''KYC_STATUS_CHANGED'']"

type_synonym inbox = "notification list"

datatype store_error = NotificationNotFound | StoreFailed string

subsection \<open>The order of the inbox\<close>

text \<open>The keyset \<open>(created_at, id)\<close>, compared as SQL compares rows.\<close>

datatype page_key = Page_Key (key_time: instant) (key_id: uuid)

instantiation page_key :: linorder
begin

definition less_page_key :: "page_key \<Rightarrow> page_key \<Rightarrow> bool" where
  "less_page_key a b \<longleftrightarrow>
     key_time a < key_time b \<or> key_time a = key_time b \<and> key_id a < key_id b"

definition less_eq_page_key :: "page_key \<Rightarrow> page_key \<Rightarrow> bool" where
  "less_eq_page_key a b \<longleftrightarrow>
     key_time a < key_time b \<or> key_time a = key_time b \<and> key_id a \<le> key_id b"

instance
  by standard (auto simp: less_page_key_def less_eq_page_key_def page_key.expand)

end

definition page_key :: "notification \<Rightarrow> page_key" where
  "page_key n = Page_Key (CreatedAt n) (ID n)"

definition newest_first :: "inbox \<Rightarrow> inbox" where
  "newest_first rows = rev (sort_key page_key rows)"

subsection \<open>Operations\<close>

definition lift_db :: "string \<Rightarrow> (string + 'a) \<times> 's \<Rightarrow> (store_error + 'a) \<times> 's" where
  "lift_db what r = (case fst r of Inl m \<Rightarrow> Inl (StoreFailed (what @ '': '' @ m)) | Inr a \<Rightarrow> Inr a, snd r)"

text \<open>\<open>INSERT \<dots> ON CONFLICT (user_id, source_event_id) WHERE source_event_id IS NOT NULL DO
  NOTHING\<close>: the CHECK is evaluated first, a row in conflict on the arbiter index is skipped
  without an error, and any other duplicate (the primary key) is an error.\<close>

definition same_source :: "notification \<Rightarrow> notification \<Rightarrow> bool" where
  "same_source n r \<longleftrightarrow> SourceEventID n \<noteq> None \<and> UserID r = UserID n \<and> SourceEventID r = SourceEventID n"

definition insert_row :: "notification \<Rightarrow> inbox \<Rightarrow> (string + unit) \<times> inbox" where
  "insert_row n rows =
     (if \<not> notifications_type_check (Type n)
      then (Inl ''new row violates check constraint notifications_type_check'', rows)
      else if \<exists>r \<in> set rows. same_source n r then (Inr (), rows)
      else if \<exists>r \<in> set rows. ID r = ID n
      then (Inl ''duplicate key value violates unique constraint notifications_pkey'', rows)
      else (Inr (), rows @ [n]))"

definition insert_stmt :: "pg \<Rightarrow> notification \<Rightarrow> inbox \<Rightarrow> (string + unit) \<times> inbox" where
  "insert_stmt pg n rows =
     (let stored = n\<lparr>CreatedAt := pg_time pg (CreatedAt n), ReadAt := map_option (pg_time pg) (ReadAt n)\<rparr>
      in case Data n of
           None \<Rightarrow> insert_row stored rows
         | Some d \<Rightarrow> (case pg_jsonb pg d of
             None \<Rightarrow> (Inl ''invalid input syntax for type json'', rows)
           | Some d' \<Rightarrow> insert_row (stored\<lparr>Data := Some d'\<rparr>) rows))"

text \<open>\<open>insert_stmt\<close> is the statement on values the server has taken; \<open>Insert\<close> sends them first, and the server
  refuses a NUL in one of the three text columns.\<close>

definition Insert :: "pg \<Rightarrow> fault \<Rightarrow> notification \<Rightarrow> inbox \<Rightarrow> (store_error + unit) \<times> inbox" where
  "Insert pg f n s =
     lift_db ''insert notification'' (db_exec f (bound [Type n, Title n, Body n] (insert_stmt pg n)) s)"

record ListParams =
  LP_UserID :: uuid
  LP_CursorCreatedAt :: "string option"
  LP_CursorID :: "uuid option"
  LP_Limit :: int

definition clamp_limit :: "int \<Rightarrow> int" where
  "clamp_limit l = (if l \<le> 0 \<or> l > 100 then 20 else l)"

definition select_after :: "uuid \<Rightarrow> page_key option \<Rightarrow> nat \<Rightarrow> inbox \<Rightarrow> inbox" where
  "select_after u k limit rows =
     take limit (newest_first (filter (\<lambda>r. UserID r = u \<and>
       (case k of None \<Rightarrow> True | Some c \<Rightarrow> page_key r < c)) rows))"

definition list_stmt :: "pg \<Rightarrow> ListParams \<Rightarrow> inbox \<Rightarrow> (string + inbox) \<times> inbox" where
  "list_stmt pg p s =
     (let limit = nat (clamp_limit (LP_Limit p))
      in case (LP_CursorCreatedAt p, LP_CursorID p) of
           (Some t, Some i) \<Rightarrow> (case pg_cast_time pg t of
               None \<Rightarrow> (Inl ''invalid input syntax for type timestamp with time zone'', s)
             | Some c \<Rightarrow> (Inr (select_after (LP_UserID p) (Some (Page_Key c i)) limit s), s))
         | _ \<Rightarrow> (Inr (select_after (LP_UserID p) None limit s), s))"

text \<open>What goes wrong while the rows are read: the error of \<open>Scan\<close> at each row, and what \<open>rows.Err()\<close> reports
  after the rows that arrived.\<close>

datatype scan_error = ErrNoRows | ScanError string

record reading =
  rd_scan :: "nat \<Rightarrow> scan_error option"
  rd_end :: "string option"

definition clean_reading :: reading where
  "clean_reading = \<lparr>rd_scan = (\<lambda>_. None), rd_end = None\<rparr>"

definition scanNotification :: "scan_error option \<Rightarrow> notification \<Rightarrow> store_error + notification" where
  "scanNotification err row = (case err of
     Some ErrNoRows \<Rightarrow> Inl NotificationNotFound
   | Some (ScanError m) \<Rightarrow> Inl (StoreFailed (''scan notification: '' @ m))
   | None \<Rightarrow> Inr row)"

fun scan_rows :: "(nat \<Rightarrow> scan_error option) \<Rightarrow> nat \<Rightarrow> inbox \<Rightarrow> store_error + inbox" where
  "scan_rows err k [] = Inr []"
| "scan_rows err k (row # rows) =
     (case scanNotification (err k) row of
        Inl e \<Rightarrow> Inl e
      | Inr n \<Rightarrow> (case scan_rows err (Suc k) rows of Inl e \<Rightarrow> Inl e | Inr ns \<Rightarrow> Inr (n # ns)))"

definition read_rows :: "reading \<Rightarrow> inbox \<Rightarrow> store_error + inbox" where
  "read_rows rd rows =
     (case scan_rows (rd_scan rd) 0 rows of
        Inl e \<Rightarrow> Inl e
      | Inr ns \<Rightarrow> (case rd_end rd of
          Some m \<Rightarrow> Inl (StoreFailed (''iterate notifications: '' @ m)) | None \<Rightarrow> Inr ns))"

definition List :: "pg \<Rightarrow> fault \<Rightarrow> reading \<Rightarrow> ListParams \<Rightarrow> inbox \<Rightarrow> (store_error + inbox) \<times> inbox" where
  "List pg f rd p s =
     (case lift_db ''list notifications'' (db_exec f (list_stmt pg p) s) of
        (Inl e, s') \<Rightarrow> (Inl e, s')
      | (Inr rows, s') \<Rightarrow> (read_rows rd rows, s'))"

definition unread :: "uuid \<Rightarrow> notification \<Rightarrow> bool" where
  "unread u r \<longleftrightarrow> UserID r = u \<and> ReadAt r = None"

definition count_stmt :: "uuid \<Rightarrow> inbox \<Rightarrow> (string + int) \<times> inbox" where
  "count_stmt u s = (Inr (int (length (filter (unread u) s))), s)"

definition UnreadCount :: "fault \<Rightarrow> uuid \<Rightarrow> inbox \<Rightarrow> (store_error + int) \<times> inbox" where
  "UnreadCount f u s = lift_db ''unread count'' (db_exec f (count_stmt u) s)"

text \<open>An UPDATE answers with the number of rows it changed.\<close>

definition update_where :: "(notification \<Rightarrow> bool) \<Rightarrow> instant \<Rightarrow> inbox \<Rightarrow> (string + nat) \<times> inbox" where
  "update_where hit at s =
     (Inr (length (filter hit s)), map (\<lambda>r. if hit r then r\<lparr>ReadAt := Some at\<rparr> else r) s)"

definition MarkRead :: "pg \<Rightarrow> fault \<Rightarrow> instant \<Rightarrow> uuid \<Rightarrow> uuid \<Rightarrow> inbox \<Rightarrow> (store_error + unit) \<times> inbox" where
  "MarkRead pg f now i u s =
     (case lift_db ''mark read''
         (db_exec f (update_where (\<lambda>r. ID r = i \<and> UserID r = u \<and> ReadAt r = None) (pg_time pg now)) s) of
        (Inl e, s') \<Rightarrow> (Inl e, s')
      | (Inr n, s') \<Rightarrow> if n = 0 then (Inl NotificationNotFound, s') else (Inr (), s'))"

definition MarkAllRead :: "pg \<Rightarrow> fault \<Rightarrow> instant \<Rightarrow> uuid \<Rightarrow> inbox \<Rightarrow> (store_error + unit) \<times> inbox" where
  "MarkAllRead pg f now u s =
     (case lift_db ''mark all read'' (db_exec f (update_where (unread u) (pg_time pg now)) s) of
        (Inl e, s') \<Rightarrow> (Inl e, s')
      | (Inr n, s') \<Rightarrow> (Inr (), s'))"

text \<open>The methods as one step function, for runs of the store.\<close>

datatype inbox_op =
    OpInsert fault notification
  | OpList fault reading ListParams
  | OpUnreadCount fault uuid
  | OpMarkRead fault instant uuid uuid
  | OpMarkAllRead fault instant uuid

datatype answer = Done "store_error + unit" | Rows "store_error + inbox" | Counted "store_error + int"

fun inbox_step :: "pg \<Rightarrow> inbox_op \<Rightarrow> inbox \<Rightarrow> answer \<times> inbox" where
  "inbox_step pg (OpInsert f n) s = map_prod Done id (Insert pg f n s)"
| "inbox_step pg (OpList f b p) s = map_prod Rows id (List pg f b p s)"
| "inbox_step pg (OpUnreadCount f u) s = map_prod Counted id (UnreadCount f u s)"
| "inbox_step pg (OpMarkRead f now i u) s = map_prod Done id (MarkRead pg f now i u s)"
| "inbox_step pg (OpMarkAllRead f now u) s = map_prod Done id (MarkAllRead pg f now u s)"

fun op_owner :: "inbox_op \<Rightarrow> uuid" where
  "op_owner (OpInsert f n) = UserID n"
| "op_owner (OpList f b p) = LP_UserID p"
| "op_owner (OpUnreadCount f u) = u"
| "op_owner (OpMarkRead f now i u) = u"
| "op_owner (OpMarkAllRead f now u) = u"

definition owned :: "uuid \<Rightarrow> inbox \<Rightarrow> inbox" where
  "owned u s = filter (\<lambda>r. UserID r = u) s"

subsection \<open>What each operation does to the table\<close>

lemma lift_db_simps [simp]:
  "snd (lift_db w r) = snd r" "lift_db w (Inr a, s) = (Inr a, s)"
  "lift_db w (Inl m, s) = (Inl (StoreFailed (w @ '': '' @ m)), s)"
  by (simp_all add: lift_db_def)

lemma lift_db_Inr [simp]: "fst (lift_db w r) = Inr a \<longleftrightarrow> fst r = Inr a"
  by (cases "fst r") (simp_all add: lift_db_def)

lemma insert_row_cases:
  obtains "snd (insert_row n s) = s"
  | "insert_row n s = (Inr (), s @ [n])" "notifications_type_check (Type n)"
    "\<forall>r \<in> set s. \<not> same_source n r" "\<forall>r \<in> set s. ID r \<noteq> ID n"
proof (cases "notifications_type_check (Type n) \<and> (\<forall>r \<in> set s. \<not> same_source n r) \<and> (\<forall>r \<in> set s. ID r \<noteq> ID n)")
  case True
  then have "insert_row n s = (Inr (), s @ [n])" by (auto simp: insert_row_def)
  then show ?thesis using that(2) True by blast
next
  case False
  then have "snd (insert_row n s) = s" by (auto simp: insert_row_def)
  then show ?thesis by (rule that(1))
qed

lemma insert_stmt_cases:
  obtains "snd (insert_stmt pg n s) = s"
  | m where "insert_stmt pg n s = (Inr (), s @ [m])" "notifications_type_check (Type n)"
    "\<forall>r \<in> set s. \<not> same_source n r" "\<forall>r \<in> set s. ID r \<noteq> ID n"
    "ID m = ID n" "UserID m = UserID n" "Type m = Type n" "SourceEventID m = SourceEventID n"
    "Title m = Title n" "Body m = Body n" "ReadAt m = map_option (pg_time pg) (ReadAt n)"
    "CreatedAt m = pg_time pg (CreatedAt n)"
proof -
  let ?st = "n\<lparr>CreatedAt := pg_time pg (CreatedAt n), ReadAt := map_option (pg_time pg) (ReadAt n)\<rparr>"
  consider "snd (insert_stmt pg n s) = s"
    | m where "insert_stmt pg n s = insert_row m s" "m = ?st \<or> (\<exists>d. m = ?st\<lparr>Data := Some d\<rparr>)"
    by (cases "Data n"; cases "pg_jsonb pg (the (Data n))")
      (auto simp: insert_stmt_def)
  then show thesis
  proof cases
    case 1
    then show ?thesis by (rule that(1))
  next
    case (2 m)
    show ?thesis
      by (rule insert_row_cases [of m s]; use 2 that in \<open>auto simp: same_source_def\<close>)
  qed
qed

lemma Insert_state:
  obtains "snd (Insert pg f n s) = s"
  | m where "snd (Insert pg f n s) = s @ [m]" "notifications_type_check (Type n)"
    "\<forall>r \<in> set s. \<not> same_source n r" "\<forall>r \<in> set s. ID r \<noteq> ID n"
    "ID m = ID n" "UserID m = UserID n" "Type m = Type n" "SourceEventID m = SourceEventID n"
    "ReadAt m = map_option (pg_time pg) (ReadAt n)"
proof -
  have st: "snd (Insert pg f n s) \<in> {s, snd (insert_stmt pg n s)}"
    using db_exec_state [of f "bound [Type n, Title n, Body n] (insert_stmt pg n)" s] bound_state [of _ "insert_stmt pg n" s]
    unfolding Insert_def lift_db_simps by (metis insertE insertI1 insertI2 singletonD)
  show thesis
    by (rule insert_stmt_cases [of pg n s]; use st that in auto)
qed

lemma list_stmt_state [simp]: "snd (list_stmt pg p s) = s"
  by (auto simp: list_stmt_def Let_def split: option.splits)

lemma db_exec_read: "snd (stmt s) = s \<Longrightarrow> snd (db_exec f stmt s) = s"
  by (cases f) simp_all

lemma scan_rows_Inr: "scan_rows err k rows = Inr ns \<Longrightarrow> ns = rows"
  by (induction rows arbitrary: k ns) (auto simp: scanNotification_def split: sum.splits option.splits scan_error.splits)

lemma scan_rows_clean: "scan_rows (\<lambda>_. None) k rows = Inr rows"
  by (induction rows arbitrary: k) (simp_all add: scanNotification_def)

lemma read_rows_Inr: "read_rows rd rows = Inr ns \<Longrightarrow> ns = rows"
  by (auto simp: read_rows_def split: sum.splits option.splits dest: scan_rows_Inr)

lemma read_rows_clean [simp]: "read_rows clean_reading rows = Inr rows"
  by (simp add: read_rows_def clean_reading_def scan_rows_clean)

lemma List_state [simp]: "snd (List pg f b p s) = s"
proof -
  have "snd (lift_db ''list notifications'' (db_exec f (list_stmt pg p) s)) = s"
    by (simp add: db_exec_read)
  then show ?thesis
    by (auto simp: List_def case_prod_unfold split: sum.splits option.splits)
qed

lemma UnreadCount_state [simp]: "snd (UnreadCount f u s) = s"
  by (simp add: UnreadCount_def db_exec_read count_stmt_def)

text \<open>Both updates change \<open>ReadAt\<close> and nothing else, on rows of the caller that were unread.\<close>

definition reads_only :: "uuid \<Rightarrow> inbox \<Rightarrow> inbox \<Rightarrow> bool" where
  "reads_only u s s' \<longleftrightarrow>
     (\<exists>hit at. (\<forall>r. hit r \<longrightarrow> unread u r) \<and>
       s' = map (\<lambda>r. if hit r then r\<lparr>ReadAt := Some at\<rparr> else r) s)"

lemma reads_only_refl: "reads_only u s s"
  unfolding reads_only_def by (rule exI [of _ "\<lambda>_. False"]) simp

lemma reads_only_update:
  assumes "\<And>r. hit r \<Longrightarrow> unread u r"
  shows "reads_only u s (snd (db_exec f (update_where hit at) s))"
proof -
  have "reads_only u s (snd (update_where hit at s))"
    unfolding reads_only_def update_where_def using assms by auto
  with db_exec_state [of f "update_where hit at" s] reads_only_refl show ?thesis by auto
qed

lemma MarkRead_state: "reads_only u s (snd (MarkRead pg f now i u s))"
proof -
  have "snd (MarkRead pg f now i u s) =
      snd (db_exec f (update_where (\<lambda>r. ID r = i \<and> UserID r = u \<and> ReadAt r = None) (pg_time pg now)) s)"
    by (auto simp: MarkRead_def case_prod_unfold split: sum.splits)
  then show ?thesis by (simp only:) (rule reads_only_update, simp add: unread_def)
qed

lemma MarkAllRead_state: "reads_only u s (snd (MarkAllRead pg f now u s))"
proof -
  have "snd (MarkAllRead pg f now u s) = snd (db_exec f (update_where (unread u) (pg_time pg now)) s)"
    by (auto simp: MarkAllRead_def case_prod_unfold split: sum.splits)
  then show ?thesis by (simp only:) (rule reads_only_update)
qed

lemma inbox_step_state:
  obtains "snd (inbox_step pg p s) = s"
  | "reads_only (op_owner p) s (snd (inbox_step pg p s))"
  | m f n where "p = OpInsert f n" "snd (inbox_step pg p s) = s @ [m]"
    "notifications_type_check (Type n)" "\<forall>r \<in> set s. \<not> same_source n r"
    "\<forall>r \<in> set s. ID r \<noteq> ID n" "ID m = ID n" "UserID m = UserID n" "Type m = Type n"
    "SourceEventID m = SourceEventID n"
proof (cases p)
  case (OpInsert f n)
  show ?thesis
    by (rule Insert_state [of pg f n s]; use OpInsert that in simp)
qed (use that MarkRead_state MarkAllRead_state in simp_all)

subsection \<open>The invariant of the table\<close>

text \<open>No two rows share an id (the primary key), no two rows of a user share a source event (the
  partial unique index), and every type is one the CHECK constraint lists.\<close>

definition inbox_ok :: "inbox \<Rightarrow> bool" where
  "inbox_ok s \<longleftrightarrow> distinct (map ID s) \<and>
     (\<forall>u e. length (filter (\<lambda>r. UserID r = u \<and> SourceEventID r = Some e) s) \<le> 1) \<and>
     (\<forall>r \<in> set s. notifications_type_check (Type r))"

lemma inbox_ok_Nil [simp]: "inbox_ok []"
  by (simp add: inbox_ok_def)

lemma reads_only_same:
  assumes "reads_only u s s'"
    and F: "\<And>r at. F (r\<lparr>ReadAt := Some at\<rparr>) = F r"
  shows "map F s' = map F s"
proof -
  obtain hit at where "s' = map (\<lambda>r. if hit r then r\<lparr>ReadAt := Some at\<rparr> else r) s"
    using assms(1) by (auto simp: reads_only_def)
  then show ?thesis by (simp add: F o_def if_distrib cong: if_cong)
qed

lemma filter_map_same:
  assumes "map F s' = map F s"
  shows "map F (filter (\<lambda>r. P (F r)) s') = map F (filter (\<lambda>r. P (F r)) s)"
  using assms by (metis (no_types, lifting) filter_map o_def filter_cong)

lemma reads_only_ok:
  assumes "reads_only u s s'" "inbox_ok s"
  shows "inbox_ok s'"
proof -
  have m: "map (\<lambda>r. (ID r, UserID r, SourceEventID r, Type r)) s' =
      map (\<lambda>r. (ID r, UserID r, SourceEventID r, Type r)) s"
    using assms(1) by (rule reads_only_same) simp
  have "map ID s' = map ID s"
    using arg_cong [OF m, of "map fst"] by (simp add: o_def)
  moreover have "length (filter (\<lambda>r. UserID r = v \<and> SourceEventID r = Some e) s') =
      length (filter (\<lambda>r. UserID r = v \<and> SourceEventID r = Some e) s)" for v e
    using arg_cong [OF filter_map_same [OF m, of "\<lambda>(i, w, x, t). w = v \<and> x = Some e"], of length] by simp
  moreover have "Type ` set s' = Type ` set s"
    using arg_cong [OF m, of "\<lambda>l. set (map (snd \<circ> snd \<circ> snd) l)"] by (simp add: image_image)
  ultimately show ?thesis using assms(2)
    by (simp add: inbox_ok_def ball_simps(9) [symmetric] del: ball_simps)
qed

lemma inbox_step_ok:
  assumes "inbox_ok s"
  shows "inbox_ok (snd (inbox_step pg p s))"
proof (rule inbox_step_state [of pg p s])
  fix m f n
  assume a: "snd (inbox_step pg p s) = s @ [m]" "notifications_type_check (Type n)"
    "\<forall>r \<in> set s. \<not> same_source n r" "\<forall>r \<in> set s. ID r \<noteq> ID n"
    "ID m = ID n" "UserID m = UserID n" "Type m = Type n" "SourceEventID m = SourceEventID n"
  have "filter (\<lambda>r. UserID r = u \<and> SourceEventID r = Some e) s = []"
    if "UserID m = u" "SourceEventID m = Some e" for u e
    using a(3,6,8) that by (auto simp: filter_empty_conv same_source_def)
  then show ?thesis using a assms by (auto simp: inbox_ok_def)
qed (use assms reads_only_ok in auto)

text \<open>Whatever requests reach the store of an empty table, in whatever order and whichever
  of them the database loses or answers without the service hearing of it, the table keeps its
  invariant: distinct ids, at most one row per user and source event, listed types only.\<close>

lemma inbox_invariant:
  "inbox_ok (snd (run_steps (inbox_step pg) ops []))"
  by (rule run_steps_inv [where P = inbox_ok]) (simp_all add: inbox_step_ok)

subsection \<open>Replays\<close>

lemma insert_stmt_done:
  assumes "insert_stmt pg n s = (Inr (), s')" "SourceEventID n = Some e"
  shows "(\<exists>r \<in> set s'. UserID r = UserID n \<and> SourceEventID r = Some e) \<and>
    (\<forall>d. Data n = Some d \<longrightarrow> pg_jsonb pg d \<noteq> None)"
  using assms
  by (auto simp: insert_stmt_def insert_row_def same_source_def Let_def split: option.splits if_splits)

text \<open>The server takes the values of the row: no NUL in a text, and \<open>jsonb\<close> accepts the data.\<close>

definition storable :: "pg \<Rightarrow> notification \<Rightarrow> bool" where
  "storable pg n \<longleftrightarrow> bindable [Type n, Title n, Body n] \<and> (\<forall>d. Data n = Some d \<longrightarrow> pg_jsonb pg d \<noteq> None)"

lemma Insert_unstorable:
  assumes "\<not> storable pg n"
  shows "\<exists>e. Insert pg f n s = (Inl e, s)"
  using assms by (cases f) (auto simp: storable_def Insert_def bound_def insert_stmt_def)

lemma Insert_done:
  "fst (Insert pg f n s) = Inr () \<longleftrightarrow>
     f = NoFault \<and> bindable [Type n, Title n, Body n] \<and> fst (insert_stmt pg n s) = Inr ()"
  by (cases f) (auto simp: Insert_def bound_def)

lemma insert_stmt_duplicate:
  assumes "\<exists>r \<in> set s. UserID r = UserID n \<and> SourceEventID r = Some e" "SourceEventID n = Some e"
    and "notifications_type_check (Type n)" "\<forall>d. Data n = Some d \<longrightarrow> pg_jsonb pg d \<noteq> None"
  shows "insert_stmt pg n s = (Inr (), s)"
  using assms by (auto simp: insert_stmt_def insert_row_def same_source_def Let_def split: option.splits)

text \<open>A small table for the witnesses: Postgres keeping values as they come, one unread and one
  read row of user 1.\<close>

definition plain_pg :: pg where
  "plain_pg = \<lparr>pg_time = id, pg_jsonb = Some, pg_lower = id, pg_cast_time = (\<lambda>_. Some 0)\<rparr>"

definition sample_row :: "uuid \<Rightarrow> uuid \<Rightarrow> uuid option \<Rightarrow> notification" where
  "sample_row i u e = \<lparr>ID = i, UserID = u, Type = ''KYC_STATUS_CHANGED'', Title = ''t'', Body = ''b'',
     Data = None, SourceEventID = e, ReadAt = None, CreatedAt = 0\<rparr>"

lemmas sample_defs = plain_pg_def sample_row_def notifications_type_check_def

subsection \<open>Reading and marking\<close>

lemma MarkRead_NoFault:
  "MarkRead pg NoFault now i u s =
     (if \<exists>r \<in> set s. ID r = i \<and> unread u r then Inr () else Inl NotificationNotFound,
      map (\<lambda>r. if ID r = i \<and> unread u r then r\<lparr>ReadAt := Some (pg_time pg now)\<rparr> else r) s)"
proof -
  have "(\<lambda>r. ID r = i \<and> UserID r = u \<and> ReadAt r = None) = (\<lambda>r. ID r = i \<and> unread u r)"
    by (auto simp: unread_def)
  then show ?thesis
    by (auto simp: MarkRead_def update_where_def filter_empty_conv)
qed

text \<open>C3. Marking a notification as read succeeds exactly when the caller owns it and has not read
  it; on success its time of reading is set, the row is otherwise as it was, and so is every other
  row. In every other case, a notification that does not exist, belongs to somebody else or was
  already read, the caller is told the same thing and the table is unchanged.\<close>

theorem mark_read_exact:
  assumes "inbox_ok s"
  shows "(\<exists>xs r ys. s = xs @ r # ys \<and> ID r = i \<and> UserID r = u \<and> ReadAt r = None \<and>
            MarkRead pg NoFault now i u s = (Inr (), xs @ r\<lparr>ReadAt := Some (pg_time pg now)\<rparr> # ys)) \<or>
         (\<forall>r \<in> set s. ID r = i \<longrightarrow> UserID r \<noteq> u \<or> ReadAt r \<noteq> None) \<and>
           MarkRead pg NoFault now i u s = (Inl NotificationNotFound, s)"
proof (cases "\<exists>r \<in> set s. ID r = i \<and> unread u r")
  case True
  then obtain xs r ys where r: "s = xs @ r # ys" "ID r = i" "unread u r"
    by (meson split_list)
  have "map (\<lambda>r. if ID r = i \<and> unread u r then r\<lparr>ReadAt := Some (pg_time pg now)\<rparr> else r) zs = zs"
    if "i \<notin> ID ` set zs" for zs
    using that by (intro map_idI) auto
  then have "MarkRead pg NoFault now i u s = (Inr (), xs @ r\<lparr>ReadAt := Some (pg_time pg now)\<rparr> # ys)"
    using r assms by (auto simp: MarkRead_NoFault inbox_ok_def)
  then show ?thesis using r by (auto simp: unread_def)
next
  case False
  then have "map (\<lambda>r. if ID r = i \<and> unread u r then r\<lparr>ReadAt := Some (pg_time pg now)\<rparr> else r) s = s"
    by (intro map_idI) auto
  then have "MarkRead pg NoFault now i u s = (Inl NotificationNotFound, s)"
    using False by (auto simp: MarkRead_NoFault)
  then show ?thesis using False by (auto simp: unread_def)
qed

lemma mark_read_exact_witness:
  "MarkRead plain_pg NoFault 42 7 1 [sample_row 7 1 None, sample_row 8 1 None] =
     (Inr (), [(sample_row 7 1 None)\<lparr>ReadAt := Some 42\<rparr>, sample_row 8 1 None])"
proof -
  have "inbox_ok [sample_row 7 1 None, sample_row 8 1 None]"
    by (simp add: inbox_ok_def sample_defs)
  from mark_read_exact [OF this, of 7 1 plain_pg 42] show ?thesis
    by (auto simp: Cons_eq_append_conv sample_defs)
qed

definition unread_count :: "uuid \<Rightarrow> inbox \<Rightarrow> nat" where
  "unread_count u s = length (filter (unread u) s)"

lemma unread_other_update:
  assumes "\<And>r. hit r \<Longrightarrow> UserID r \<noteq> u"
  shows "unread_count u (map (\<lambda>r. if hit r then r\<lparr>ReadAt := Some at\<rparr> else r) s) = unread_count u s"
  using assms by (induction s) (auto simp: unread_count_def unread_def)

lemma unread_one_update:
  assumes "distinct (map ID s)"
  shows "unread_count u (map (\<lambda>r. if ID r = i \<and> unread u r then r\<lparr>ReadAt := Some at\<rparr> else r) s) =
    unread_count u s - (if \<exists>r \<in> set s. ID r = i \<and> unread u r then 1 else 0)"
  using assms
proof (induction s)
  case (Cons r s)
  show ?case
  proof (cases "ID r = i \<and> unread u r")
    case True
    have "ID r \<notin> ID ` set s" using Cons.prems by simp
    then have "\<forall>x \<in> set s. \<not> (ID x = i \<and> unread u x)" using True by (metis image_eqI)
    then have "map (\<lambda>r. if ID r = i \<and> unread u r then r\<lparr>ReadAt := Some at\<rparr> else r) s = s"
      by (intro map_idI) auto
    then show ?thesis using True by (simp add: unread_count_def) (simp add: unread_def)
  next
    case False
    have "\<exists>x \<in> set s. ID x = i \<and> unread u x \<Longrightarrow> filter (unread u) s \<noteq> []"
      by (auto simp: filter_empty_conv)
    then show ?thesis using Cons False by (auto simp: unread_count_def Suc_diff_le Suc_leI)
  qed
qed (simp add: unread_count_def)

lemma unread_MarkRead:
  assumes "inbox_ok s"
  shows "unread_count u s = unread_count u (snd (MarkRead pg NoFault now i u s)) +
    (if fst (MarkRead pg NoFault now i u s) = Inr () then 1 else 0)"
proof -
  have "distinct (map ID s)" using assms by (simp add: inbox_ok_def)
  moreover have "\<exists>r \<in> set s. ID r = i \<and> unread u r \<Longrightarrow> 0 < unread_count u s"
    by (auto simp: unread_count_def filter_empty_conv)
  ultimately show ?thesis by (auto simp: MarkRead_NoFault unread_one_update)
qed

lemma unread_MarkAllRead: "unread_count u (snd (MarkAllRead pg NoFault now u s)) = 0"
  by (auto simp: MarkAllRead_def update_where_def unread_count_def filter_empty_conv unread_def)

lemma unread_reads_only: "reads_only u s s' \<Longrightarrow> v \<noteq> u \<Longrightarrow> unread_count v s' = unread_count v s"
  unfolding reads_only_def using unread_other_update by (metis unread_def)

lemma unread_Insert:
  "unread_count v (snd (Insert pg f n s)) =
     unread_count v s + (if snd (Insert pg f n s) \<noteq> s \<and> UserID n = v \<and> ReadAt n = None then 1 else 0)"
  by (rule Insert_state [of pg f n s]) (auto simp: unread_count_def unread_def)

text \<open>C26. The unread count a user is shown is the number of the user's unread rows. An insert that
  stores an unread row raises it by one for its user and for nobody else, a successful \<open>MarkRead\<close>
  lowers it by one, a failed one leaves it, \<open>MarkAllRead\<close> brings it to zero, and neither changes
  another user's count.\<close>

theorem unread_count_effects:
  assumes "inbox_ok s"
  shows "UnreadCount NoFault u s = (Inr (int (unread_count u s)), s) \<and>
    unread_count u s = unread_count u (snd (MarkRead pg NoFault now i u s)) +
      (if fst (MarkRead pg NoFault now i u s) = Inr () then 1 else 0) \<and>
    unread_count u (snd (MarkAllRead pg NoFault now u s)) = 0 \<and>
    (\<forall>v f. v \<noteq> u \<longrightarrow> unread_count v (snd (MarkRead pg f now i u s)) = unread_count v s \<and>
       unread_count v (snd (MarkAllRead pg f now u s)) = unread_count v s) \<and>
    (\<forall>v f n. unread_count v (snd (Insert pg f n s)) = unread_count v s +
       (if snd (Insert pg f n s) \<noteq> s \<and> UserID n = v \<and> ReadAt n = None then 1 else 0))"
proof (intro conjI allI impI)
  show "UnreadCount NoFault u s = (Inr (int (unread_count u s)), s)"
    by (simp add: UnreadCount_def count_stmt_def unread_count_def)
  fix v f
  assume ne: "v \<noteq> u"
  show "unread_count v (snd (MarkRead pg f now i u s)) = unread_count v s"
    "unread_count v (snd (MarkAllRead pg f now u s)) = unread_count v s"
    by (rule unread_reads_only [OF MarkRead_state ne], rule unread_reads_only [OF MarkAllRead_state ne])
qed (rule unread_MarkRead [OF assms], rule unread_MarkAllRead, rule unread_Insert)

lemma unread_count_effects_witness:
  "unread_count 1 (snd (MarkRead plain_pg NoFault 42 7 1 [sample_row 7 1 None, sample_row 8 1 None])) = 1"
proof -
  have "inbox_ok [sample_row 7 1 None, sample_row 8 1 None]"
    by (simp add: inbox_ok_def sample_defs)
  from unread_count_effects [OF this, of 1 plain_pg 42 7] show ?thesis
    by (simp add: MarkRead_NoFault unread_count_def unread_def sample_defs)
qed

subsection \<open>Isolation of the users from each other\<close>

lemma owned_foreign_update:
  assumes "\<And>r. hit r \<Longrightarrow> UserID r \<noteq> v"
  shows "owned v (map (\<lambda>r. if hit r then r\<lparr>ReadAt := Some at\<rparr> else r) s) = owned v s"
  using assms by (induction s) (auto simp: owned_def)

lemma owned_reads_only:
  assumes "reads_only u s s'" "u \<noteq> v"
  shows "owned v s' = owned v s"
proof -
  obtain hit at where h: "\<forall>r. hit r \<longrightarrow> unread u r"
    and s': "s' = map (\<lambda>r. if hit r then r\<lparr>ReadAt := Some at\<rparr> else r) s"
    using assms(1) by (auto simp: reads_only_def)
  show ?thesis unfolding s' by (rule owned_foreign_update) (use h assms(2) in \<open>auto simp: unread_def\<close>)
qed

interpretation inbox: tenant_store "inbox_step pg" op_owner owned for pg
proof
  fix p u s assume ne: "op_owner p \<noteq> u"
  show "owned u (snd (inbox_step pg p s)) = owned u s"
    by (rule inbox_step_state [of pg p s]) (use ne owned_reads_only in \<open>auto simp: owned_def\<close>)
qed

text \<open>The requests of the inbox API: everything but the consumer's inserts, which are refused for
  a duplicate id anywhere in the table.\<close>

datatype request =
    Req_List reading ListParams | Req_UnreadCount uuid
  | Req_MarkRead instant uuid uuid | Req_MarkAllRead instant uuid

fun request_op :: "request \<Rightarrow> fault \<Rightarrow> inbox_op" where
  "request_op (Req_List b p) f = OpList f b p"
| "request_op (Req_UnreadCount u) f = OpUnreadCount f u"
| "request_op (Req_MarkRead now i u) f = OpMarkRead f now i u"
| "request_op (Req_MarkAllRead now u) f = OpMarkAllRead f now u"

definition serve :: "pg \<Rightarrow> request \<times> fault \<Rightarrow> inbox \<Rightarrow> answer \<times> inbox" where
  "serve pg rf = inbox_step pg (request_op (fst rf) (snd rf))"

definition requester :: "request \<times> fault \<Rightarrow> uuid" where
  "requester rf = op_owner (request_op (fst rf) (snd rf))"

lemma select_after_owned: "select_after u k l s = select_after u k l (owned u s)"
  by (simp add: select_after_def owned_def conj_commute)

lemma list_stmt_owned: "fst (list_stmt pg p s) = fst (list_stmt pg p (owned (LP_UserID p) s))"
  using select_after_owned by (auto simp: list_stmt_def Let_def split: option.splits)

lemma db_exec_fst: "fst (stmt s) = fst (stmt t) \<Longrightarrow> fst (db_exec f stmt s) = fst (db_exec f stmt t)"
  by (cases f) simp_all

lemma lift_db_fst: "fst r = fst q \<Longrightarrow> fst (lift_db w r) = fst (lift_db w q)"
  by (simp add: lift_db_def)

lemma List_fst:
  "fst (List pg f b p s) =
     (case fst (lift_db ''list notifications'' (db_exec f (list_stmt pg p) s)) of
        Inl e \<Rightarrow> Inl e
      | Inr rows \<Rightarrow> read_rows b rows)"
  unfolding List_def
  by (cases "lift_db ''list notifications'' (db_exec f (list_stmt pg p) s)")
    (simp split: sum.splits option.splits)

lemma List_owned:
  assumes "owned (LP_UserID p) s = owned (LP_UserID p) t"
  shows "fst (List pg f b p s) = fst (List pg f b p t)"
proof -
  have "fst (lift_db w (db_exec f (list_stmt pg p) s)) = fst (lift_db w (db_exec f (list_stmt pg p) t))" for w
    by (intro lift_db_fst db_exec_fst) (metis list_stmt_owned assms)
  then show ?thesis by (simp only: List_fst)
qed

lemma unread_owned: "filter (unread u) s = filter (unread u) (owned u s)"
  unfolding owned_def filter_filter by (rule filter_cong) (auto simp: unread_def)

lemma owned_update_where:
  assumes "\<And>r. hit r \<Longrightarrow> UserID r = u"
  shows "owned u (snd (update_where hit at s)) = snd (update_where hit at (owned u s))"
    and "fst (update_where hit at s) = fst (update_where hit at (owned u s))"
proof -
  have "filter hit s = filter hit (owned u s)"
    unfolding owned_def filter_filter using assms by (metis (no_types, opaque_lifting))
  then show "fst (update_where hit at s) = fst (update_where hit at (owned u s))"
    by (simp add: update_where_def)
  show "owned u (snd (update_where hit at s)) = snd (update_where hit at (owned u s))"
    by (induction s) (auto simp: update_where_def owned_def)
qed

lemma own_update:
  assumes "\<And>r. hit r \<Longrightarrow> UserID r = u" "owned u s = owned u t"
  shows "fst (db_exec f (update_where hit at) s) = fst (db_exec f (update_where hit at) t)"
    and "owned u (snd (db_exec f (update_where hit at) s)) = owned u (snd (db_exec f (update_where hit at) t))"
proof -
  have eq: "fst (update_where hit at s) = fst (update_where hit at t)"
    "owned u (snd (update_where hit at s)) = owned u (snd (update_where hit at t))"
    using owned_update_where [of hit u at s] owned_update_where [of hit u at t] assms by auto
  then show "fst (db_exec f (update_where hit at) s) = fst (db_exec f (update_where hit at) t)"
    by (intro db_exec_fst)
  show "owned u (snd (db_exec f (update_where hit at) s)) = owned u (snd (db_exec f (update_where hit at) t))"
    using eq(2) assms(2) by (cases f) simp_all
qed

lemma MarkRead_parts:
  fixes pg f now i u s
  defines "r \<equiv> lift_db ''mark read''
    (db_exec f (update_where (\<lambda>r. ID r = i \<and> UserID r = u \<and> ReadAt r = None) (pg_time pg now)) s)"
  shows "MarkRead pg f now i u s =
    (case fst r of Inl e \<Rightarrow> Inl e | Inr n \<Rightarrow> if n = 0 then Inl NotificationNotFound else Inr (), snd r)"
  unfolding MarkRead_def r_def [symmetric] by (cases r) (simp split: sum.splits)

lemma MarkAllRead_parts:
  fixes pg f now u s
  defines "r \<equiv> lift_db ''mark all read'' (db_exec f (update_where (unread u) (pg_time pg now)) s)"
  shows "MarkAllRead pg f now u s = (case fst r of Inl e \<Rightarrow> Inl e | Inr n \<Rightarrow> Inr (), snd r)"
  unfolding MarkAllRead_def r_def [symmetric] by (cases r) (simp split: sum.splits)

lemma serve_own:
  assumes "owned u s = owned u t" "requester p = u"
  shows "owned u (snd (serve pg p s)) = owned u (snd (serve pg p t)) \<and>
    fst (serve pg p s) = fst (serve pg p t)"
proof -
  obtain r f where p: "p = (r, f)" by (cases p)
  show ?thesis
  proof (cases r)
    case (Req_List b q)
    then have "owned (LP_UserID q) s = owned (LP_UserID q) t"
      using assms by (simp add: p requester_def)
    then have "fst (List pg f b q s) = fst (List pg f b q t)" by (rule List_owned)
    then show ?thesis using Req_List assms(1) by (simp add: p serve_def)
  next
    case (Req_UnreadCount v)
    then have "fst (count_stmt u s) = fst (count_stmt u t)"
      using unread_owned [of u s] unread_owned [of u t] assms(1) by (simp add: count_stmt_def)
    then have "fst (UnreadCount f u s) = fst (UnreadCount f u t)"
      unfolding UnreadCount_def by (intro lift_db_fst db_exec_fst)
    then show ?thesis using Req_UnreadCount assms by (simp add: p serve_def requester_def)
  next
    case (Req_MarkRead now i v)
    let ?st = "update_where (\<lambda>r. ID r = i \<and> UserID r = u \<and> ReadAt r = None) (pg_time pg now)"
    have o: "fst (db_exec f ?st s) = fst (db_exec f ?st t)"
      "owned u (snd (db_exec f ?st s)) = owned u (snd (db_exec f ?st t))"
      by (rule own_update [OF _ assms(1)], simp add: unread_def)+
    have "fst (lift_db w (db_exec f ?st s)) = fst (lift_db w (db_exec f ?st t))" for w
      using o(1) by (rule lift_db_fst)
    then show ?thesis using o(2) Req_MarkRead assms by (simp add: p serve_def requester_def MarkRead_parts)
  next
    case (Req_MarkAllRead now v)
    let ?st = "update_where (unread u) (pg_time pg now)"
    have o: "fst (db_exec f ?st s) = fst (db_exec f ?st t)"
      "owned u (snd (db_exec f ?st s)) = owned u (snd (db_exec f ?st t))"
      by (rule own_update [OF _ assms(1)], simp add: unread_def)+
    have "fst (lift_db w (db_exec f ?st s)) = fst (lift_db w (db_exec f ?st t))" for w
      using o(1) by (rule lift_db_fst)
    then show ?thesis using o(2) Req_MarkAllRead assms by (simp add: p serve_def requester_def MarkAllRead_parts)
  qed
qed

interpretation requests: isolated_store "serve pg" requester owned for pg
proof
  fix p u s assume "requester p \<noteq> u"
  then show "owned u (snd (serve pg p s)) = owned u s"
    unfolding serve_def requester_def by (rule inbox.foreign)
next
  fix u s t p assume "owned u s = owned u t" "requester p = u"
  then show "owned u (snd (serve pg p s)) = owned u (snd (serve pg p t)) \<and>
      fst (serve pg p s) = fst (serve pg p t)"
    by (rule serve_own)
qed

text \<open>C20. No user can read, change or even detect another user's notifications. In any sequence of
  inbox requests of any users, with any of them failing in the database, a user's answers and
  the rows the user owns afterwards are those of the sequence with everybody else's requests left
  out and everybody else's rows deleted.\<close>

theorem inbox_isolation:
  "owned u (snd (run_steps (serve pg) rs s)) =
     owned u (snd (run_steps (serve pg) (filter (\<lambda>r. requester r = u) rs) (owned u s))) \<and>
   answers_to requester u rs (fst (run_steps (serve pg) rs s)) =
     fst (run_steps (serve pg) (filter (\<lambda>r. requester r = u) rs) (owned u s))"
  by (rule requests.noninterference) (simp add: owned_def)

subsection \<open>Pages\<close>

lemma newest_first_filter: "newest_first (filter P s) = filter P (newest_first s)"
  by (simp add: newest_first_def filter_sort [symmetric] rev_filter)

lemma set_newest_first [simp]: "set (newest_first s) = set s"
  and length_newest_first [simp]: "length (newest_first s) = length s"
  by (simp_all add: newest_first_def)

lemma newest_first_sorted:
  assumes "distinct (map ID s)"
  shows "sorted_wrt (\<lambda>a b. page_key b < page_key a) (newest_first s)"
proof -
  have "inj_on page_key (set s)"
    using assms by (auto simp: page_key_def inj_on_def distinct_map)
  then have "distinct (map page_key (sort_key page_key s))"
    using assms by (simp add: distinct_map)
  then have "sorted_wrt (<) (map page_key (sort_key page_key s))"
    by (simp add: strict_sorted_iff)
  then show ?thesis by (simp add: newest_first_def sorted_wrt_rev sorted_wrt_map)
qed

lemma sorted_filter_after:
  assumes "sorted_wrt (\<lambda>a b. page_key b < page_key a) xs" "i < length xs"
  shows "filter (\<lambda>r. page_key r < page_key (xs ! i)) xs = drop (Suc i) xs"
proof -
  have ord: "j < k \<Longrightarrow> k < length xs \<Longrightarrow> page_key (xs ! k) < page_key (xs ! j)" for j k
    using assms(1) by (simp add: sorted_wrt_iff_nth_less)
  have "filter (\<lambda>r. page_key r < page_key (xs ! i)) (take (Suc i) xs) = []"
    using ord assms(2) by (fastforce simp: filter_empty_conv in_set_conv_nth less_Suc_eq)
  moreover have "filter (\<lambda>r. page_key r < page_key (xs ! i)) (drop (Suc i) xs) = drop (Suc i) xs"
    using ord assms(2) by (auto simp: filter_id_conv in_set_conv_nth)
  ultimately show ?thesis
    by (metis append_Nil append_take_drop_id filter_append)
qed

text \<open>A user's inbox, and the page that follows its first \<open>i\<close> rows.\<close>

definition whole_inbox :: "uuid \<Rightarrow> inbox \<Rightarrow> inbox" where
  "whole_inbox u s = newest_first (owned u s)"

lemma select_first: "select_after u None limit s = take limit (whole_inbox u s)"
  by (simp add: select_after_def whole_inbox_def owned_def)

lemma select_next:
  assumes "distinct (map ID s)" "i < length (whole_inbox u s)"
  shows "select_after u (Some (page_key (whole_inbox u s ! i))) limit s =
    take limit (drop (Suc i) (whole_inbox u s))"
proof -
  let ?k = "page_key (whole_inbox u s ! i)"
  have "distinct (map ID (owned u s))"
    using assms(1) by (simp add: owned_def distinct_map_filter)
  then have "sorted_wrt (\<lambda>a b. page_key b < page_key a) (whole_inbox u s)"
    unfolding whole_inbox_def by (rule newest_first_sorted)
  then have "filter (\<lambda>r. page_key r < ?k) (whole_inbox u s) = drop (Suc i) (whole_inbox u s)"
    using assms(2) by (rule sorted_filter_after)
  moreover have "newest_first (filter (\<lambda>r. UserID r = u \<and> page_key r < ?k) s) =
      filter (\<lambda>r. page_key r < ?k) (whole_inbox u s)"
    by (simp add: whole_inbox_def owned_def newest_first_filter conj_commute)
  ultimately show ?thesis by (simp add: select_after_def)
qed

end
