(* ===== verification/Http.thy ===== *)
theory Http
  imports Notification_Store
begin

text \<open>
  What a request looks like to the service and how \<open>gin\<close> runs it (\<open>internal/platform/httpx\<close> and
  the calls of \<open>gin.Context\<close> the code makes).

  A \<open>ctx\<close> is \<open>gin.Context\<close>: the request as the code reads it, the keys set on the way
  (\<open>c.Set\<close>/\<open>c.Get\<close>, with the dynamic type of each value), and the response headers so far. A body
  is the bytes that can be read and the error, if any, reading ends with.

  A middleware either calls \<open>c.Next()\<close> with the context it leaves or aborts with a response; a
  handler answers, or panics (\<open>None\<close>). \<open>run_chain\<close> runs the middlewares registered for a route in
  order, then its handler. Responses are the status and the JSON value that is rendered.
\<close>

subsection \<open>Requests and responses\<close>

datatype key_value = V_UUID uuid | V_Int int | V_String string

datatype json_value =
    J_Null | J_Bool bool | J_Int int | J_String string | J_UUID uuid | J_Raw string
  | J_Array "json_value list" | J_Object "(string \<times> json_value) list"

record response =
  rs_status :: nat
  rs_body :: "json_value option"

datatype body = No_Body | Body string "string option"

record ctx =
  Method :: string
  URLPath :: string
  RequestURI :: string
  Header :: "string \<Rightarrow> string"
  Query :: "string \<Rightarrow> string option"
  Param :: "string \<Rightarrow> string"
  ReqBody :: body
  ClientIP :: string
  Keys :: "string \<Rightarrow> key_value option"
  OutHeaders :: "(string \<times> string) list"

definition c_Set :: "string \<Rightarrow> key_value \<Rightarrow> ctx \<Rightarrow> ctx" where
  "c_Set k v c = c\<lparr>Keys := (Keys c)(k \<mapsto> v)\<rparr>"

definition c_Header :: "string \<Rightarrow> string \<Rightarrow> ctx \<Rightarrow> ctx" where
  "c_Header k v c = c\<lparr>OutHeaders := OutHeaders c @ [(k, v)]\<rparr>"

text \<open>\<open>io.ReadAll\<close> of a body behind an \<open>io.LimitReader\<close>, and the body an \<open>http.MaxBytesReader\<close>
  leaves: the first stops quietly at its limit, the second fails beyond it.\<close>

fun read_limited :: "nat \<Rightarrow> body \<Rightarrow> string + string" where
  "read_limited n No_Body = Inr []"
| "read_limited n (Body bs e) =
     (if n \<le> length bs then Inr (take n bs) else case e of Some m \<Rightarrow> Inl m | None \<Rightarrow> Inr bs)"

fun max_bytes :: "nat \<Rightarrow> body \<Rightarrow> body" where
  "max_bytes n No_Body = No_Body"
| "max_bytes n (Body bs e) =
     (if length bs \<le> n then Body bs e else Body (take n bs) (Some ''http: request body too large''))"

subsection \<open>The response helpers\<close>

definition httpx_OK :: "json_value \<Rightarrow> response" where
  "httpx_OK d = \<lparr>rs_status = 200, rs_body = Some (J_Object [(''data'', d)])\<rparr>"

definition NoContent :: response where
  "NoContent = \<lparr>rs_status = 204, rs_body = None\<rparr>"

text \<open>The error envelope; \<open>details\<close> is left out when there are none.\<close>

definition error_body :: "string \<Rightarrow> string \<Rightarrow> json_value option \<Rightarrow> json_value" where
  "error_body code message details = J_Object [(''error'', J_Object
     ([(''code'', J_String code), (''message'', J_String message)] @
      (case details of None \<Rightarrow> [] | Some d \<Rightarrow> [(''details'', d)])))]"

definition ErrCode :: "nat \<Rightarrow> string \<Rightarrow> string \<Rightarrow> json_value option \<Rightarrow> response" where
  "ErrCode status code message details =
     \<lparr>rs_status = status, rs_body = Some (error_body code message details)\<rparr>"

fun translate :: "store_error \<Rightarrow> string \<times> nat \<times> string \<times> json_value option" where
  "translate NotificationNotFound = (''NOTIFICATION_NOT_FOUND'', 404, ''notification not found'', None)"
| "translate (StoreFailed m) = (''INTERNAL_ERROR'', 500, ''internal server error'', None)"

definition Err :: "store_error \<Rightarrow> response" where
  "Err e = (case translate e of (code, status, message, details) \<Rightarrow>
     \<lparr>rs_status = status, rs_body = Some (error_body code message details)\<rparr>)"

subsection \<open>Middleware chains\<close>

datatype verdict = Next ctx | Abort ctx response

type_synonym 's middleware = "ctx \<Rightarrow> 's \<Rightarrow> verdict \<times> 's"
type_synonym 's handler = "ctx \<Rightarrow> 's \<Rightarrow> response option \<times> 's"

fun run_chain :: "'s middleware list \<Rightarrow> 's handler \<Rightarrow> ctx \<Rightarrow> 's \<Rightarrow> ((string \<times> string) list \<times> response option) \<times> 's" where
  "run_chain [] h c s = (case h c s of (r, s') \<Rightarrow> ((OutHeaders c, r), s'))"
| "run_chain (m # ms) h c s =
     (case m c s of
        (Abort c' r, s') \<Rightarrow> ((OutHeaders c', Some r), s')
      | (Next c', s') \<Rightarrow> run_chain ms h c' s')"

text \<open>The middlewares alone: whether the handler is reached, and with which context.\<close>

fun pass :: "'s middleware list \<Rightarrow> ctx \<Rightarrow> 's \<Rightarrow> verdict \<times> 's" where
  "pass [] c s = (Next c, s)"
| "pass (m # ms) c s = (case m c s of (Abort c' r, s') \<Rightarrow> (Abort c' r, s') | (Next c', s') \<Rightarrow> pass ms c' s')"

lemma run_chain_pass:
  "run_chain ms h c s = (case pass ms c s of
     (Abort c' r, s') \<Rightarrow> ((OutHeaders c', Some r), s')
   | (Next c', s') \<Rightarrow> (case h c' s' of (r, s'') \<Rightarrow> ((OutHeaders c', r), s'')))"
  by (induction ms arbitrary: c s) (auto split: prod.splits verdict.splits)

lemma pass_append:
  "pass (ms @ ns) c s = (case pass ms c s of (Abort c' r, s') \<Rightarrow> (Abort c' r, s') | (Next c', s') \<Rightarrow> pass ns c' s')"
  by (induction ms arbitrary: c s) (auto split: prod.splits verdict.splits)

lemma pass_Next_append:
  "pass (ms @ ns) c s = (Next c', s') \<longleftrightarrow>
     (\<exists>c1 s1. pass ms c s = (Next c1, s1) \<and> pass ns c1 s1 = (Next c', s'))"
  by (auto simp: pass_append split: prod.splits verdict.splits)

end
