(* ===== verification/Go_Text.thy ===== *)
theory Go_Text
  imports Prelude
begin

text \<open>
  The part of Go's standard library on strings that the service uses: UTF-8 decoding as
  \<open>for range\<close>, \<open>[]rune\<close> and \<open>utf8\<close> do it, \<open>strings.TrimSpace\<close>, \<open>ToLower\<close>, \<open>ToUpper\<close>,
  \<open>EqualFold\<close>, \<open>Index\<close>, \<open>Split\<close>, \<open>strconv.Itoa\<close>, \<open>Atoi\<close> and \<open>ParseInt\<close>, and
  \<open>encoding/hex\<close>.
\<close>

subsection \<open>UTF-8\<close>

abbreviation byte :: "char \<Rightarrow> nat" where
  "byte c \<equiv> of_char c"

abbreviation rune_error :: nat where
  "rune_error \<equiv> 65533"

lemma byte_less [simp]: "byte c < 256"
  by (cases c) (simp add: char_of_char)

definition cont :: "char \<Rightarrow> bool" where
  "cont c \<longleftrightarrow> 128 \<le> byte c \<and> byte c < 192"

text \<open>
  \<open>utf8.DecodeRuneInString\<close>: the rune and its width. An invalid or truncated sequence is the
  replacement rune with width 1. The second byte's range depends on the first (no overlong
  forms, no surrogates, nothing above U+10FFFF).
\<close>

definition second_ok :: "nat \<Rightarrow> char \<Rightarrow> bool" where
  "second_ok x b \<longleftrightarrow>
     (if x = 224 then 160 \<le> byte b \<and> byte b < 192
      else if x = 237 then 128 \<le> byte b \<and> byte b < 160
      else if x = 240 then 144 \<le> byte b \<and> byte b < 192
      else if x = 244 then 128 \<le> byte b \<and> byte b < 144
      else cont b)"

fun decode2 :: "nat \<Rightarrow> string \<Rightarrow> nat \<times> nat" where
  "decode2 x (b # s) =
     (if second_ok x b then ((x - 192) * 64 + (byte b - 128), 2) else (rune_error, 1))"
| "decode2 x s = (rune_error, 1)"

fun decode3 :: "nat \<Rightarrow> string \<Rightarrow> nat \<times> nat" where
  "decode3 x (b # c # s) =
     (if second_ok x b \<and> cont c
      then ((x - 224) * 4096 + (byte b - 128) * 64 + (byte c - 128), 3) else (rune_error, 1))"
| "decode3 x s = (rune_error, 1)"

fun decode4 :: "nat \<Rightarrow> string \<Rightarrow> nat \<times> nat" where
  "decode4 x (b # c # d # s) =
     (if second_ok x b \<and> cont c \<and> cont d
      then ((x - 240) * 262144 + (byte b - 128) * 4096 + (byte c - 128) * 64 + (byte d - 128), 4)
      else (rune_error, 1))"
| "decode4 x s = (rune_error, 1)"

fun decode_rune :: "string \<Rightarrow> nat \<times> nat" where
  "decode_rune [] = (rune_error, 0)"
| "decode_rune (a # s) =
     (let x = byte a in
      if x < 128 then (x, 1)
      else if x < 194 \<or> 244 < x then (rune_error, 1)
      else if x < 224 then decode2 x s
      else if x < 240 then decode3 x s
      else decode4 x s)"

lemma decode2_width: "snd (decode2 x s) \<in> {1, 2}"
  by (cases "(x, s)" rule: decode2.cases) auto

lemma decode3_width: "snd (decode3 x s) \<in> {1, 3}"
  by (cases "(x, s)" rule: decode3.cases) auto

lemma decode4_width: "snd (decode4 x s) \<in> {1, 4}"
  by (cases "(x, s)" rule: decode4.cases) auto

lemma decode2_pos [simp]: "0 < snd (decode2 x s)"
  using decode2_width [of x s] by auto

lemma decode3_pos [simp]: "0 < snd (decode3 x s)"
  using decode3_width [of x s] by auto

lemma decode4_pos [simp]: "0 < snd (decode4 x s)"
  using decode4_width [of x s] by auto

lemma decode_rune_width: "0 < snd (decode_rune (a # s))"
  by (simp add: Let_def)

text \<open>
  A string as the sequence a \<open>for range\<close> loop visits: each rune with the bytes it was read
  from. The bytes put together are the string again, valid UTF-8 or not.
\<close>

type_synonym chunk = "nat \<times> string"

function chunks :: "string \<Rightarrow> chunk list" where
  "chunks [] = []"
| "chunks (a # s) =
     (let (r, w) = decode_rune (a # s) in (r, take w (a # s)) # chunks (drop w (a # s)))"
  by pat_completeness auto
termination
proof (relation "measure length")
  fix a s and p :: "nat \<times> nat" and r w
  assume "p = decode_rune (a # s)" "(r, w) = p"
  then have "0 < w" using decode_rune_width [of a s] by (metis snd_conv)
  then show "(drop w (a # s), a # s) \<in> measure length" by simp
qed simp

definition raw :: "chunk list \<Rightarrow> string" where
  "raw cs = concat (map snd cs)"

definition runes :: "string \<Rightarrow> nat list" where
  "runes s = map fst (chunks s)"

lemma raw_simps [simp]:
  "raw [] = []" "raw (c # cs) = snd c @ raw cs" "raw (cs @ ds) = raw cs @ raw ds"
  by (simp_all add: raw_def)

declare chunks.simps(2) [simp del]

lemma raw_chunks [simp]: "raw (chunks s) = s"
proof (induction s rule: chunks.induct)
  case (2 a s)
  then show ?case
    by (cases "decode_rune (a # s)") (simp add: chunks.simps(2) del: decode_rune.simps)
qed simp

subsection \<open>ASCII bytes are runes of their own\<close>

lemma chunks_ascii: "byte c < 128 \<Longrightarrow> chunks (c # s) = (byte c, [c]) # chunks s"
  by (subst chunks.simps(2)) simp

lemma decode2_append:
  "byte c < 128 \<Longrightarrow> decode2 x (p @ c # q) = decode2 x p"
  by (cases p) (auto simp: second_ok_def cont_def)

lemma decode3_append:
  assumes "byte c < 128"
  shows "decode3 x (p @ c # q) = decode3 x p"
proof (cases p)
  case Nil
  then show ?thesis using assms by (cases q) (auto simp: second_ok_def cont_def)
next
  case (Cons b p')
  then show ?thesis using assms by (cases p') (auto simp: second_ok_def cont_def)
qed

lemma decode4_append:
  assumes "byte c < 128"
  shows "decode4 x (p @ c # q) = decode4 x p"
proof (cases p)
  case Nil
  show ?thesis
  proof (cases q)
    case (Cons b q')
    then show ?thesis using Nil assms by (cases q') (auto simp: second_ok_def cont_def)
  qed (use Nil in simp)
next
  case (Cons b p')
  show ?thesis
  proof (cases p')
    case Nil
    then show ?thesis using Cons assms by (cases q) (auto simp: second_ok_def cont_def)
  next
    case (Cons b' p'')
    then show ?thesis using \<open>p = b # p'\<close> assms by (cases p'') (auto simp: second_ok_def cont_def)
  qed
qed

lemma decode_rune_append:
  assumes "byte c < 128"
  shows "decode_rune ((a # p) @ c # q) = decode_rune (a # p)"
  using decode2_append [OF assms] decode3_append [OF assms] decode4_append [OF assms]
  by (simp add: Let_def)

lemma decode2_len: "snd (decode2 x s) \<le> Suc (length s)"
  by (cases "(x, s)" rule: decode2.cases) auto

lemma decode3_len: "snd (decode3 x s) \<le> Suc (length s)"
  by (cases "(x, s)" rule: decode3.cases) auto

lemma decode4_len: "snd (decode4 x s) \<le> Suc (length s)"
  by (cases "(x, s)" rule: decode4.cases) auto

lemma decode_rune_len: "snd (decode_rune (a # s)) \<le> Suc (length s)"
  using decode2_len decode3_len decode4_len by (simp add: Let_def)

text \<open>
  The split lemma the redaction proofs rest on: decoding never reads across an ASCII byte, so
  a string can be decoded in pieces cut at one.
\<close>

lemma chunks_split_ascii:
  assumes "byte c < 128"
  shows "chunks (p @ c # q) = chunks p @ (byte c, [c]) # chunks q"
proof (induction p rule: chunks.induct)
  case 1
  then show ?case using assms by (simp add: chunks_ascii)
next
  case (2 a p)
  obtain r w where rw: "decode_rune (a # p) = (r, w)" by (cases "decode_rune (a # p)")
  have rw': "decode_rune ((a # p) @ c # q) = (r, w)"
    using decode_rune_append [OF assms] rw by simp
  have w: "w \<le> length (a # p)" using decode_rune_len [of a p] rw by simp
  have "chunks ((a # p) @ c # q) = (r, take w ((a # p) @ c # q)) # chunks (drop w ((a # p) @ c # q))"
    using rw' by (simp add: chunks.simps(2) del: decode_rune.simps)
  also have "take w ((a # p) @ c # q) = take w (a # p)" using w by (simp only: take_append) simp
  also have "drop w ((a # p) @ c # q) = drop w (a # p) @ c # q" using w by (simp only: drop_append) simp
  also have "chunks (drop w (a # p) @ c # q) = chunks (drop w (a # p)) @ (byte c, [c]) # chunks q"
    using "2.IH" [OF rw [symmetric] refl] .
  finally show ?case
    using rw by (simp add: chunks.simps(2) del: decode_rune.simps)
qed

definition ascii :: "string \<Rightarrow> bool" where
  "ascii s \<longleftrightarrow> (\<forall>c \<in> set s. byte c < 128)"

definition as_chunks :: "string \<Rightarrow> chunk list" where
  "as_chunks s = map (\<lambda>c. (byte c, [c])) s"

lemma ascii_simps [simp]:
  "ascii []" "ascii (c # s) \<longleftrightarrow> byte c < 128 \<and> ascii s" "ascii (s @ t) \<longleftrightarrow> ascii s \<and> ascii t"
  by (auto simp: ascii_def)

lemma raw_as_chunks [simp]: "raw (as_chunks s) = s"
  by (induction s) (auto simp: as_chunks_def)

lemma chunks_ascii_append: "ascii w \<Longrightarrow> chunks (w @ s) = as_chunks w @ chunks s"
  by (induction w) (auto simp: chunks_ascii as_chunks_def)

lemma chunks_ascii_mid:
  assumes "ascii w" "w \<noteq> []"
  shows "chunks (p @ w @ q) = chunks p @ as_chunks w @ chunks q"
proof -
  obtain c w' where w: "w = c # w'" using assms by (cases w) auto
  then have "chunks (p @ w @ q) = chunks (p @ c # (w' @ q))" by simp
  also have "\<dots> = chunks p @ (byte c, [c]) # chunks (w' @ q)"
    using assms w by (intro chunks_split_ascii) simp
  finally show ?thesis using assms w by (simp add: chunks_ascii_append as_chunks_def)
qed

lemma chunks_of_ascii [simp]: "ascii s \<Longrightarrow> chunks s = as_chunks s"
  using chunks_ascii_append [of s "[]"] by simp

end
