(* ===== verification/Go_Conv.thy ===== *)
theory Go_Conv
  imports Go_Text
begin

text \<open>
  Conversions of Go's standard library: UTF-8 encoding, trimming and case mapping
  (\<open>strings\<close>), decimal integers (\<open>strconv\<close>), hexadecimal (\<open>encoding/hex\<close>), and the
  searches and splits the service performs on strings. Each encoding comes with the round trip
  or injectivity fact its clients use.
\<close>

subsection \<open>UTF-8 encoding\<close>

abbreviation chr :: "nat \<Rightarrow> char" where
  "chr n \<equiv> char_of n"

definition scalar :: "nat \<Rightarrow> bool" where
  "scalar r \<longleftrightarrow> r < 55296 \<or> (57344 \<le> r \<and> r < 1114112)"

text \<open>\<open>utf8.AppendRune\<close>, as \<open>strings.Builder.WriteRune\<close> and \<open>string([]rune)\<close> use it.\<close>

definition encode_rune :: "nat \<Rightarrow> string" where
  "encode_rune r0 =
     (let r = (if scalar r0 then r0 else rune_error) in
      if r < 128 then [chr r]
      else if r < 2048 then [chr (192 + r div 64), chr (128 + r mod 64)]
      else if r < 65536
        then [chr (224 + r div 4096), chr (128 + r div 64 mod 64), chr (128 + r mod 64)]
      else [chr (240 + r div 262144), chr (128 + r div 4096 mod 64),
            chr (128 + r div 64 mod 64), chr (128 + r mod 64)])"

definition encode :: "nat list \<Rightarrow> string" where
  "encode rs = concat (map encode_rune rs)"

lemma byte_chr [simp]: "n < 256 \<Longrightarrow> byte (chr n) = n"
  by simp

text \<open>The six-bit digits of a rune of three and of four bytes.\<close>

lemma three_digits:
  fixes r :: nat
  shows "r div 4096 * 4096 + r div 64 mod 64 * 64 + r mod 64 = r"
proof -
  have "r div 4096 * 64 + r div 64 mod 64 = r div 64"
    using div_mult_mod_eq [of "r div 64" 64] by (simp add: div_mult2_eq [symmetric])
  then show ?thesis using div_mult_mod_eq [of r 64] by linarith
qed

lemma four_digits:
  fixes r :: nat
  shows "r div 262144 * 262144 + r div 4096 mod 64 * 4096 + r div 64 mod 64 * 64 + r mod 64 = r"
proof -
  have "r div 262144 * 64 + r div 4096 mod 64 = r div 4096"
    using div_mult_mod_eq [of "r div 4096" 64] by (simp add: div_mult2_eq [symmetric])
  then show ?thesis using three_digits [of r] by linarith
qed

lemma decode_encode_rune:
  assumes "scalar r"
  shows "decode_rune (encode_rune r @ s) = (r, length (encode_rune r))"
proof -
  consider "r < 128" | "128 \<le> r" "r < 2048" | "2048 \<le> r" "r < 65536" | "65536 \<le> r" "r < 1114112"
    using assms unfolding scalar_def by linarith
  then show ?thesis
  proof cases
    case 1
    then show ?thesis using assms by (simp add: encode_rune_def)
  next
    case 2
    define q m where "q = r div 64" and "m = r mod 64"
    then have "q < 32" "\<not> q < 2" "m < 64" "q * 64 + m = r" using 2 by auto
    then show ?thesis using 2 assms
      by (simp add: encode_rune_def second_ok_def cont_def Let_def flip: q_def m_def)
  next
    case 3
    define p q m where "p = r div 4096" and "q = r div 64 mod 64" and "m = r mod 64"
    have b: "p < 16" "q < 64" "m < 64" using 3 by (auto simp: p_def q_def m_def)
    have e: "p * 4096 + q * 64 + m = r" using three_digits [of r] by (simp only: p_def q_def m_def)
    have lo: "p = 0 \<Longrightarrow> 32 \<le> q" using 3 b e by linarith
    have hi: "p = 13 \<Longrightarrow> q < 32" using 3 assms b e unfolding scalar_def by linarith
    have "encode_rune r = [chr (224 + p), chr (128 + q), chr (128 + m)]"
      using 3 assms by (simp add: encode_rune_def p_def q_def m_def)
    then show ?thesis using b lo hi by (auto simp: second_ok_def cont_def Let_def e)
  next
    case 4
    define h p q m where "h = r div 262144" and "p = r div 4096 mod 64"
      and "q = r div 64 mod 64" and "m = r mod 64"
    have b: "h < 5" "p < 64" "q < 64" "m < 64" using 4 by (auto simp: h_def p_def q_def m_def)
    have e: "h * 262144 + p * 4096 + q * 64 + m = r" using four_digits [of r] by (simp only: h_def p_def q_def m_def)
    have lo: "h = 0 \<Longrightarrow> 16 \<le> p" using 4 b e by linarith
    have hi: "h = 4 \<Longrightarrow> p < 16" using 4 b e by linarith
    have "encode_rune r = [chr (240 + h), chr (128 + p), chr (128 + q), chr (128 + m)]"
      using 4 assms by (simp add: encode_rune_def h_def p_def q_def m_def)
    then show ?thesis using b lo hi by (auto simp: second_ok_def cont_def Let_def e)
  qed
qed

lemma encode_rune_nonempty [simp]: "encode_rune r \<noteq> []"
  by (auto simp: encode_rune_def Let_def)

lemma chunks_encode_rune:
  assumes "scalar r"
  shows "chunks (encode_rune r @ s) = (r, encode_rune r) # chunks s"
proof -
  obtain a t where at: "encode_rune r = a # t" by (cases "encode_rune r") auto
  have "chunks (encode_rune r @ s) =
      (let (q, w) = decode_rune (encode_rune r @ s)
       in (q, take w (encode_rune r @ s)) # chunks (drop w (encode_rune r @ s)))"
    by (simp only: at append_Cons chunks.simps(2))
  then show ?thesis using decode_encode_rune [OF assms] by simp
qed

lemma runes_encode: "\<forall>r \<in> set rs. scalar r \<Longrightarrow> runes (encode rs) = rs"
  by (induction rs) (auto simp: runes_def encode_def chunks_encode_rune)

text \<open>Every rune a \<open>for range\<close> loop sees is a Unicode scalar value.\<close>

lemma second_ok_cont: "second_ok x b \<Longrightarrow> cont b"
  by (auto simp: second_ok_def cont_def split: if_splits)

lemma decode2_scalar: "x < 224 \<Longrightarrow> 194 \<le> x \<Longrightarrow> scalar (fst (decode2 x s))"
  by (cases "(x, s)" rule: decode2.cases) (auto simp: scalar_def dest!: second_ok_cont, auto simp: cont_def)

lemma decode3_scalar:
  assumes "x < 240" "224 \<le> x" shows "scalar (fst (decode3 x s))"
proof (cases "(x, s)" rule: decode3.cases)
  case (1 y b c t)
  show ?thesis
  proof (cases "second_ok x b \<and> cont c")
    case True
    then have cc: "128 \<le> byte b" "byte b < 192" "128 \<le> byte c" "byte c < 192"
      by (auto dest!: second_ok_cont simp: cont_def)
    let ?r = "(x - 224) * 4096 + (byte b - 128) * 64 + (byte c - 128)"
    have "x < 237 \<Longrightarrow> ?r < 55296" using cc assms by linarith
    moreover have "x = 237 \<Longrightarrow> byte b < 160" using True by (auto simp: second_ok_def)
    then have "x = 237 \<Longrightarrow> ?r < 55296" using cc by linarith
    moreover have "237 < x \<Longrightarrow> 57344 \<le> ?r" using assms by linarith
    moreover have "?r < 1114112" using cc assms by linarith
    ultimately have "scalar ?r" unfolding scalar_def using linorder_neqE_nat by blast
    then show ?thesis using True 1 by simp
  qed (use 1 in \<open>auto simp: scalar_def\<close>)
qed (auto simp: scalar_def)

lemma decode4_scalar:
  assumes "x \<le> 244" "240 \<le> x" shows "scalar (fst (decode4 x s))"
proof (cases "(x, s)" rule: decode4.cases)
  case (1 y b c d t)
  show ?thesis
  proof (cases "second_ok x b \<and> cont c \<and> cont d")
    case True
    then have cc: "128 \<le> byte b" "byte b < 192" "128 \<le> byte c" "byte c < 192" "128 \<le> byte d" "byte d < 192"
      by (auto dest!: second_ok_cont simp: cont_def)
    let ?r = "(x - 240) * 262144 + (byte b - 128) * 4096 + (byte c - 128) * 64 + (byte d - 128)"
    have "x = 240 \<Longrightarrow> 144 \<le> byte b" "x = 244 \<Longrightarrow> byte b < 144" using True by (auto simp: second_ok_def)
    then have "57344 \<le> ?r \<and> ?r < 1114112" using cc assms by linarith
    then show ?thesis using True 1 by (simp add: scalar_def)
  qed (use 1 in \<open>auto simp: scalar_def\<close>)
qed (auto simp: scalar_def)

lemma decode_rune_scalar: "scalar (fst (decode_rune s))"
proof (cases s)
  case Nil
  then show ?thesis by (simp add: scalar_def)
next
  case (Cons a t)
  have s1: "scalar rune_error" by (simp add: scalar_def)
  have s2: "byte a < 128 \<Longrightarrow> scalar (byte a)" by (simp add: scalar_def)
  show ?thesis using Cons s1 s2
    by (auto simp: Let_def intro!: decode2_scalar decode3_scalar decode4_scalar)
qed

lemma runes_scalar: "r \<in> set (runes s) \<Longrightarrow> scalar r"
proof (induction s rule: chunks.induct)
  case (2 a s)
  obtain q w where rw: "decode_rune (a # s) = (q, w)" by (cases "decode_rune (a # s)")
  have "scalar q" using decode_rune_scalar [of "a # s"] rw by simp
  with 2 rw show ?case
    by (auto simp: runes_def chunks.simps(2) simp del: decode_rune.simps)
qed (simp add: runes_def)

subsection \<open>Trimming and case mapping\<close>

text \<open>\<open>unicode.IsSpace\<close>, and \<open>strings.TrimSpace\<close> as trimming from both ends by rune. (Reading
  the last rune backwards, as the library does, finds the same rune as reading forwards.)\<close>

definition is_space :: "nat \<Rightarrow> bool" where
  "is_space r \<longleftrightarrow>
     (9 \<le> r \<and> r \<le> 13) \<or> r = 32 \<or> r = 133 \<or> r = 160 \<or> r = 5760 \<or> (8192 \<le> r \<and> r \<le> 8202)
     \<or> r = 8232 \<or> r = 8233 \<or> r = 8239 \<or> r = 8287 \<or> r = 12288"

definition trim_chunks :: "chunk list \<Rightarrow> chunk list" where
  "trim_chunks cs =
     rev (dropWhile (\<lambda>c. is_space (fst c)) (rev (dropWhile (\<lambda>c. is_space (fst c)) cs)))"

definition trim_space :: "string \<Rightarrow> string" where
  "trim_space s = raw (trim_chunks (chunks s))"

lemma trim_space_Nil [simp]: "trim_space [] = []"
  by (simp add: trim_space_def trim_chunks_def)

lemma dropWhile_all: "(\<forall>x \<in> set xs. P x) \<Longrightarrow> dropWhile P xs = []"
  by simp

lemma trim_chunks_nonspace:
  "trim_chunks cs \<noteq> [] \<Longrightarrow>
     \<not> is_space (fst (hd (trim_chunks cs))) \<and> \<not> is_space (fst (last (trim_chunks cs)))"
proof -
  let ?p = "\<lambda>c :: chunk. is_space (fst c)"
  let ?d = "dropWhile ?p cs"
  define e where "e = dropWhile ?p (rev ?d)"
  have t: "trim_chunks cs = rev e" by (simp add: trim_chunks_def e_def)
  assume ne: "trim_chunks cs \<noteq> []"
  then have r: "e \<noteq> []" using t by auto
  then have "\<not> ?p (hd e)" unfolding e_def by (rule hd_dropWhile)
  then have l: "\<not> ?p (last (trim_chunks cs))" using r t by (simp add: last_rev)
  have d: "?d \<noteq> []" using r unfolding e_def by (metis dropWhile.simps(1) rev.simps(1))
  then have "\<not> ?p (hd ?d)" by (rule hd_dropWhile)
  moreover have "hd (trim_chunks cs) = hd ?d"
  proof -
    have "?d = trim_chunks cs @ rev (takeWhile ?p (rev ?d))"
      unfolding t e_def by (metis rev_append rev_rev_ident takeWhile_dropWhile_id)
    then show ?thesis using ne by (metis hd_append2)
  qed
  ultimately show ?thesis using l by simp
qed

text \<open>
  \<open>unicode.ToLower\<close> and \<open>ToUpper\<close> on ASCII and on the runes outside ASCII that map into it
  (the dotted capital I and the Kelvin sign below, the dotless i and the long s above). Other
  runes are left as they are: the service only compares the results with ASCII literals, and no
  other rune maps into ASCII.
\<close>

definition lower_rune :: "nat \<Rightarrow> nat" where
  "lower_rune r = (if 65 \<le> r \<and> r \<le> 90 then r + 32 else if r = 304 then 105 else if r = 8490 then 107 else r)"

definition upper_rune :: "nat \<Rightarrow> nat" where
  "upper_rune r = (if 97 \<le> r \<and> r \<le> 122 then r - 32 else if r = 305 then 73 else if r = 383 then 83 else r)"

definition to_lower :: "string \<Rightarrow> string" where
  "to_lower s = encode (map lower_rune (runes s))"

definition to_upper :: "string \<Rightarrow> string" where
  "to_upper s = encode (map upper_rune (runes s))"

text \<open>\<open>strings.EqualFold\<close>: equality up to simple case folding, where the Kelvin sign folds with
  k and the long s with s (the other pairs outside ASCII are left out, as above).\<close>

definition fold_rune :: "nat \<Rightarrow> nat" where
  "fold_rune r = (if 65 \<le> r \<and> r \<le> 90 then r + 32 else if r = 8490 then 107 else if r = 383 then 115 else r)"

definition equal_fold :: "string \<Rightarrow> string \<Rightarrow> bool" where
  "equal_fold s t \<longleftrightarrow> map fold_rune (runes s) = map fold_rune (runes t)"

lemma runes_ascii [simp]: "ascii s \<Longrightarrow> runes s = map byte s"
  by (simp add: runes_def as_chunks_def comp_def)

lemma encode_inj:
  assumes "\<forall>r \<in> set rs. scalar r" "\<forall>r \<in> set qs. scalar r"
  shows "encode rs = encode qs \<longleftrightarrow> rs = qs"
  using runes_encode assms by metis

subsection \<open>Searching and splitting\<close>

text \<open>\<open>strings.Contains s sub\<close> is \<^term>\<open>sublist sub s\<close> of HOL-Library.\<close>

abbreviation contains :: "string \<Rightarrow> string \<Rightarrow> bool" where
  "contains s sub \<equiv> sublist sub s"

text \<open>\<open>strings.Index\<close> with a one-byte argument, as the two halves around the first occurrence.\<close>

fun cut :: "char \<Rightarrow> string \<Rightarrow> (string \<times> string) option" where
  "cut c [] = None"
| "cut c (x # xs) =
     (if x = c then Some ([], xs)
      else case cut c xs of None \<Rightarrow> None | Some (a, b) \<Rightarrow> Some (x # a, b))"

lemma cut_SomeD: "cut c s = Some (a, b) \<Longrightarrow> s = a @ c # b \<and> c \<notin> set a"
proof (induction s arbitrary: a)
  case (Cons x xs)
  show ?case
  proof (cases "x = c")
    case False
    with Cons.prems obtain a' where "cut c xs = Some (a', b)" "a = x # a'"
      by (auto split: option.splits)
    then show ?thesis using Cons.IH False by simp
  qed (use Cons.prems in simp)
qed simp

lemma cut_append: "c \<notin> set a \<Longrightarrow> cut c (a @ c # b) = Some (a, b)"
  by (induction a) auto

lemma cut_Some_iff: "cut c s = Some (a, b) \<longleftrightarrow> s = a @ c # b \<and> c \<notin> set a"
  using cut_SomeD cut_append by metis

lemma cut_None_iff: "cut c s = None \<longleftrightarrow> c \<notin> set s"
  by (induction s) (auto split: option.splits)

text \<open>The last occurrence, as the loop of \<open>parseCursor\<close> and \<open>strings.LastIndex\<close> find it.\<close>

definition cut_last :: "char \<Rightarrow> string \<Rightarrow> (string \<times> string) option" where
  "cut_last c s = map_option (\<lambda>(b, a). (rev a, rev b)) (cut c (rev s))"

lemma cut_last_Some_iff: "cut_last c s = Some (a, b) \<longleftrightarrow> s = a @ c # b \<and> c \<notin> set b"
proof -
  have "cut_last c s = Some (a, b) \<longleftrightarrow> cut c (rev s) = Some (rev b, rev a)"
    by (auto simp: cut_last_def)
  also have "\<dots> \<longleftrightarrow> rev s = rev b @ c # rev a \<and> c \<notin> set b"
    by (simp add: cut_Some_iff)
  also have "rev s = rev b @ c # rev a \<longleftrightarrow> s = a @ c # b"
    by (metis append_Cons append_Nil append_assoc rev.simps(2) rev_append rev_rev_ident)
  finally show ?thesis .
qed

lemma cut_last_None_iff: "cut_last c s = None \<longleftrightarrow> c \<notin> set s"
  by (simp add: cut_last_def cut_None_iff)

text \<open>\<open>strings.Split\<close> with a one-byte separator: never the empty list.\<close>

fun split_on :: "char \<Rightarrow> string \<Rightarrow> string list" where
  "split_on c [] = [[]]"
| "split_on c (x # xs) =
     (if x = c then [] # split_on c xs
      else case split_on c xs of [] \<Rightarrow> [[x]] | y # ys \<Rightarrow> (x # y) # ys)"

lemma split_on_nonempty [simp]: "split_on c s \<noteq> []"
  by (induction s) (auto split: list.splits)

lemma split_on_no_sep: "x \<in> set (split_on c s) \<Longrightarrow> c \<notin> set x"
  by (induction s arbitrary: x) (auto split: if_splits list.splits)

lemma join_Cons_Cons: "join sep ((x # y) # ys) = x # join sep (y # ys)"
  by (cases ys) auto

lemma join_split_on: "join [c] (split_on c s) = s"
proof (induction s)
  case (Cons x xs)
  obtain y ys where "split_on c xs = y # ys"
    by (cases "split_on c xs") auto
  then show ?case using Cons by (auto simp: join_Cons_Cons)
qed simp

lemma split_on_prefix: "c \<notin> set x \<Longrightarrow> split_on c (x @ c # s) = x # split_on c s"
  by (induction x) auto

lemma split_on_single: "c \<notin> set x \<Longrightarrow> split_on c x = [x]"
  by (induction x) auto

lemma split_on_join:
  "xs \<noteq> [] \<Longrightarrow> \<forall>x \<in> set xs. c \<notin> set x \<Longrightarrow> split_on c (join [c] xs) = xs"
  by (induction xs rule: induct_list012) (auto simp: split_on_single split_on_prefix)

subsection \<open>Decimal integers\<close>

definition digit :: "nat \<Rightarrow> char" where
  "digit n = chr (48 + n)"

definition is_digit :: "char \<Rightarrow> bool" where
  "is_digit c \<longleftrightarrow> 48 \<le> byte c \<and> byte c \<le> 57"

definition digit_val :: "char \<Rightarrow> nat" where
  "digit_val c = byte c - 48"

lemma digit_simps [simp]:
  assumes "n < 10"
  shows "is_digit (digit n)" "digit_val (digit n) = n"
  using assms by (simp_all add: digit_def is_digit_def digit_val_def)

fun dec :: "nat \<Rightarrow> string" where
  "dec n = (if n < 10 then [digit n] else dec (n div 10) @ [digit (n mod 10)])"

declare dec.simps [simp del]

definition undec :: "string \<Rightarrow> nat" where
  "undec s = foldl (\<lambda>a c. 10 * a + digit_val c) 0 s"

lemma undec_snoc [simp]: "undec (s @ [c]) = 10 * undec s + digit_val c"
  by (simp add: undec_def)

lemma undec_dec [simp]: "undec (dec n) = n"
proof (induction n rule: dec.induct)
  case (1 n)
  show ?case
  proof (cases "n < 10")
    case True
    then show ?thesis using undec_snoc [of "[]" "digit n"] by (simp add: dec.simps [of n]) (simp add: undec_def)
  next
    case False
    then show ?thesis using 1 by (simp add: dec.simps [of n])
  qed
qed

lemma dec_digits: "c \<in> set (dec n) \<Longrightarrow> is_digit c"
proof (induction n rule: dec.induct)
  case (1 n)
  then show ?case by (cases "n < 10") (auto simp: dec.simps [of n])
qed

lemma dec_nonempty [simp]: "dec n \<noteq> []"
  by (subst dec.simps) simp

text \<open>\<open>strconv.Itoa\<close> (and \<open>%d\<close>).\<close>

definition itoa :: "int \<Rightarrow> string" where
  "itoa i = (if i < 0 then CHR ''-'' # dec (nat (- i)) else dec (nat i))"

text \<open>\<open>strconv.ParseInt s 10 64\<close> and \<open>strconv.Atoi\<close> (64-bit \<open>int\<close>): an optional sign, then at
  least one digit and nothing else, in range; anything else is an error.\<close>

definition int64_range :: "int \<Rightarrow> bool" where
  "int64_range i \<longleftrightarrow> - (2 ^ 63) \<le> i \<and> i < 2 ^ 63"

definition parse_digits :: "string \<Rightarrow> nat option" where
  "parse_digits s = (if s \<noteq> [] \<and> list_all is_digit s then Some (undec s) else None)"

definition check_int64 :: "int \<Rightarrow> int option" where
  "check_int64 i = (if int64_range i then Some i else None)"

definition parse_int64 :: "string \<Rightarrow> int option" where
  "parse_int64 s =
     (case s of
        [] \<Rightarrow> None
      | c # t \<Rightarrow>
          if c = CHR ''-'' then Option.bind (parse_digits t) (\<lambda>n. check_int64 (- int n))
          else if c = CHR ''+'' then Option.bind (parse_digits t) (\<lambda>n. check_int64 (int n))
          else Option.bind (parse_digits s) (\<lambda>n. check_int64 (int n)))"

lemma parse_digits_dec [simp]: "parse_digits (dec n) = Some n"
  by (auto simp: parse_digits_def list_all_iff dec_digits)

lemma dec_hd_digit: "dec n = c # t \<Longrightarrow> is_digit c"
  using dec_digits [of c n] by simp

lemma parse_int64_itoa:
  assumes "int64_range i"
  shows "parse_int64 (itoa i) = Some i"
proof (cases "i < 0")
  case True
  then show ?thesis using assms by (simp add: itoa_def parse_int64_def check_int64_def)
next
  case False
  obtain c t where ct: "dec (nat i) = c # t" by (cases "dec (nat i)") auto
  have p: "parse_digits (c # t) = Some (nat i)" using parse_digits_dec [of "nat i"] ct by simp
  have "is_digit c" by (rule dec_hd_digit [OF ct])
  then have "c \<noteq> CHR ''-''" "c \<noteq> CHR ''+''" by (auto simp: is_digit_def)
  then show ?thesis using False assms p by (simp add: itoa_def ct parse_int64_def check_int64_def)
qed

lemma itoa_chars: "c \<in> set (itoa i) \<Longrightarrow> is_digit c \<or> c = CHR ''-''"
  by (auto simp: itoa_def dec_digits split: if_splits)

lemma itoa_no_bar [simp, no_bar]: "CHR ''|'' \<notin> set (itoa i)"
  using itoa_chars [of "CHR ''|''" i] by (auto simp: is_digit_def)

lemma dec_inj: "dec m = dec n \<longleftrightarrow> m = n"
  by (metis undec_dec)

lemma itoa_inj: "itoa i = itoa j \<longleftrightarrow> i = j"
proof
  assume e: "itoa i = itoa j"
  have d: "dec n \<noteq> CHR ''-'' # s" for n s
    using dec_hd_digit [of n "CHR ''-''" s] by (auto simp: is_digit_def)
  have "dec (nat (- i)) = dec (nat (- j))" if "i < 0" "j < 0" using e that by (simp add: itoa_def)
  moreover have "dec (nat i) = dec (nat j)" if "\<not> i < 0" "\<not> j < 0" using e that by (simp add: itoa_def)
  moreover have "i < 0 \<longleftrightarrow> j < 0" using e d d [symmetric] by (auto simp: itoa_def split: if_splits)
  ultimately show "i = j" by (auto simp: dec_inj)
qed simp

subsection \<open>Hexadecimal\<close>

definition hex_digit :: "nat \<Rightarrow> char" where
  "hex_digit n = (if n < 10 then chr (48 + n) else chr (87 + n))"

definition unhex_digit :: "char \<Rightarrow> nat option" where
  "unhex_digit c =
     (let n = byte c in
      if 48 \<le> n \<and> n \<le> 57 then Some (n - 48)
      else if 97 \<le> n \<and> n \<le> 102 then Some (n - 87)
      else if 65 \<le> n \<and> n \<le> 70 then Some (n - 55)
      else None)"

text \<open>\<open>hex.EncodeToString\<close> and \<open>hex.DecodeString\<close> (either case; an odd length is an error).\<close>

fun hex_encode :: "string \<Rightarrow> string" where
  "hex_encode [] = []"
| "hex_encode (c # s) = hex_digit (byte c div 16) # hex_digit (byte c mod 16) # hex_encode s"

fun hex_decode :: "string \<Rightarrow> string option" where
  "hex_decode [] = Some []"
| "hex_decode [c] = None"
| "hex_decode (a # b # s) =
     (case (unhex_digit a, unhex_digit b, hex_decode s) of
        (Some x, Some y, Some t) \<Rightarrow> Some (chr (16 * x + y) # t)
      | _ \<Rightarrow> None)"

lemma unhex_hex [simp]: "n < 16 \<Longrightarrow> unhex_digit (hex_digit n) = Some n"
  by (simp add: hex_digit_def unhex_digit_def Let_def)

lemma hex_decode_encode [simp]: "hex_decode (hex_encode s) = Some s"
proof (induction s)
  case (Cons c s)
  have "byte c div 16 < 16" by (simp add: div_less_iff_less_mult)
  then show ?case using Cons by simp
qed simp

lemma hex_encode_inj: "hex_encode s = hex_encode t \<longleftrightarrow> s = t"
  by (metis hex_decode_encode option.inject)

lemma length_hex_encode [simp]: "length (hex_encode s) = 2 * length s"
  by (induction s) auto

lemma hex_encode_chars: "c \<in> set (hex_encode s) \<Longrightarrow> is_digit c \<or> (97 \<le> byte c \<and> byte c \<le> 102)"
proof (induction s)
  case (Cons a s)
  have h: "n < 16 \<Longrightarrow> is_digit (hex_digit n) \<or> (97 \<le> byte (hex_digit n) \<and> byte (hex_digit n) \<le> 102)" for n
    by (auto simp: hex_digit_def is_digit_def)
  have "byte a div 16 < 16" by (simp add: div_less_iff_less_mult)
  then show ?case using Cons h [of "byte a div 16"] h [of "byte a mod 16"] by auto
qed simp

text \<open>The text functions on concrete ASCII strings.\<close>

lemmas ascii_eval = trim_space_def trim_chunks_def is_space_def chunks_ascii to_lower_def runes_def
  encode_def encode_rune_def lower_rune_def scalar_def char_of_def bit_0 as_chunks_def

end
