(* ===== verification/Go_Hash.thy ===== *)
theory Go_Hash
  imports Go_Conv
begin

unbundle bit_operations_syntax

text \<open>
  \<open>crypto/sha256\<close> and \<open>crypto/hmac\<close> of Go's standard library: SHA-256 as FIPS 180-4 defines it
  on byte strings, and HMAC-SHA256 as RFC 2104 does. Both are executable. The development uses
  of them that they are functions of their input with a 32-byte result; where a property needs
  more (that two different messages have different codes) its statement says so.
\<close>

type_synonym u32 = "32 word"

definition rotr :: "nat \<Rightarrow> u32 \<Rightarrow> u32" where
  "rotr n x = drop_bit n x OR push_bit (32 - n) x"

definition big_sigma0 :: "u32 \<Rightarrow> u32" where
  "big_sigma0 x = rotr 2 x XOR rotr 13 x XOR rotr 22 x"

definition big_sigma1 :: "u32 \<Rightarrow> u32" where
  "big_sigma1 x = rotr 6 x XOR rotr 11 x XOR rotr 25 x"

definition small_sigma0 :: "u32 \<Rightarrow> u32" where
  "small_sigma0 x = rotr 7 x XOR rotr 18 x XOR drop_bit 3 x"

definition small_sigma1 :: "u32 \<Rightarrow> u32" where
  "small_sigma1 x = rotr 17 x XOR rotr 19 x XOR drop_bit 10 x"

definition choose3 :: "u32 \<Rightarrow> u32 \<Rightarrow> u32 \<Rightarrow> u32" where
  "choose3 x y z = (x AND y) XOR (NOT x AND z)"

definition majority3 :: "u32 \<Rightarrow> u32 \<Rightarrow> u32 \<Rightarrow> u32" where
  "majority3 x y z = (x AND y) XOR (x AND z) XOR (y AND z)"

text \<open>The constants are, as the standard defines them, the first 32 bits of the fractional parts of
  the cube roots of the first 64 primes, and of the square roots of the first eight for the
  initial state. \<open>root_from k n b 0\<close> is the integer \<open>k\<close>-th root of \<open>n\<close>, bit by bit from bit \<open>b - 1\<close>.\<close>

definition small_primes :: "int list" where
  "small_primes = filter (\<lambda>n. list_all (\<lambda>d. n mod d \<noteq> 0) [2..n - 1]) [2..311]"

fun root_from :: "nat \<Rightarrow> int \<Rightarrow> nat \<Rightarrow> int \<Rightarrow> int" where
  "root_from k n 0 r = r"
| "root_from k n (Suc b) r = root_from k n b (if (r + 2 ^ b) ^ k \<le> n then r + 2 ^ b else r)"

definition fractional_root :: "nat \<Rightarrow> int \<Rightarrow> u32" where
  "fractional_root k p = of_int (root_from k (p * 2 ^ (32 * k)) 38 0)"

definition round_constants :: "u32 list" where
  "round_constants = map (fractional_root 3) small_primes"

datatype hash_state = HS u32 u32 u32 u32 u32 u32 u32 u32

definition initial_state :: hash_state where
  "initial_state = (case map (fractional_root 2) (take 8 small_primes) of
     [a, b, c, d, e, f, g, h] \<Rightarrow> HS a b c d e f g h | _ \<Rightarrow> HS 0 0 0 0 0 0 0 0)"

fun add_state :: "hash_state \<Rightarrow> hash_state \<Rightarrow> hash_state" where
  "add_state (HS a b c d e f g h) (HS a' b' c' d' e' f' g' h') =
     HS (a + a') (b + b') (c + c') (d + d') (e + e') (f + f') (g + g') (h + h')"

fun sha_round :: "hash_state \<Rightarrow> u32 \<times> u32 \<Rightarrow> hash_state" where
  "sha_round (HS a b c d e f g h) (k, w) =
     (let t1 = h + big_sigma1 e + choose3 e f g + k + w;
          t2 = big_sigma0 a + majority3 a b c
      in HS (t1 + t2) a b c (d + t1) e f g)"

text \<open>The message schedule, kept newest word first.\<close>

fun schedule :: "nat \<Rightarrow> u32 list \<Rightarrow> u32 list" where
  "schedule 0 ws = ws"
| "schedule (Suc n) ws =
     schedule n ((small_sigma1 (ws ! 1) + ws ! 6 + small_sigma0 (ws ! 14) + ws ! 15) # ws)"

definition word_of_bytes :: "char \<Rightarrow> char \<Rightarrow> char \<Rightarrow> char \<Rightarrow> u32" where
  "word_of_bytes a b c d =
     push_bit 24 (word_of_nat (byte a)) OR push_bit 16 (word_of_nat (byte b))
     OR push_bit 8 (word_of_nat (byte c)) OR word_of_nat (byte d)"

definition bytes_of_word :: "u32 \<Rightarrow> string" where
  "bytes_of_word w = map (\<lambda>i. chr (unat (drop_bit i w AND 255))) [24, 16, 8, 0]"

fun words_of :: "string \<Rightarrow> u32 list" where
  "words_of (a # b # c # d # s) = word_of_bytes a b c d # words_of s"
| "words_of s = []"

definition sha_block :: "hash_state \<Rightarrow> string \<Rightarrow> hash_state" where
  "sha_block st blk =
     add_state st
       (foldl sha_round st (zip round_constants (rev (schedule 48 (rev (words_of blk))))))"

function sha_blocks :: "hash_state \<Rightarrow> string \<Rightarrow> hash_state" where
  "sha_blocks st s = (if s = [] then st else sha_blocks (sha_block st (take 64 s)) (drop 64 s))"
  by pat_completeness auto
termination
  by (relation "measure (\<lambda>(st, s). length s)") auto

declare sha_blocks.simps [simp del]

fun be_bytes :: "nat \<Rightarrow> nat \<Rightarrow> string" where
  "be_bytes 0 n = []"
| "be_bytes (Suc k) n = be_bytes k (n div 256) @ [chr (n mod 256)]"

definition sha_pad :: "string \<Rightarrow> string" where
  "sha_pad s =
     s @ [chr 128] @ replicate ((119 - length s mod 64) mod 64) (chr 0) @ be_bytes 8 (8 * length s)"

fun state_bytes :: "hash_state \<Rightarrow> string" where
  "state_bytes (HS a b c d e f g h) = List.concat (map bytes_of_word [a, b, c, d, e, f, g, h])"

definition sha256 :: "string \<Rightarrow> string" where
  "sha256 s = state_bytes (sha_blocks initial_state (sha_pad s))"

definition xor_pad :: "nat \<Rightarrow> string \<Rightarrow> string" where
  "xor_pad p key = map (\<lambda>c. chr (byte c XOR p)) (key @ replicate (64 - length key) (chr 0))"

definition hmac_sha256 :: "string \<Rightarrow> string \<Rightarrow> string" where
  "hmac_sha256 key0 msg =
     (let key = (if 64 < length key0 then sha256 key0 else key0) in
      sha256 (xor_pad 92 key @ sha256 (xor_pad 54 key @ msg)))"

lemma length_state_bytes [simp]: "length (state_bytes st) = 32"
  by (cases st) (simp add: bytes_of_word_def Let_def)

lemma length_sha256 [simp]: "length (sha256 s) = 32"
  by (simp add: sha256_def)

lemma length_hmac [simp]: "length (hmac_sha256 key msg) = 32"
  by (simp add: hmac_sha256_def Let_def)

lemma hex_hmac_nonempty [simp]: "hex_encode (hmac_sha256 key msg) \<noteq> []"
  using length_hex_encode [of "hmac_sha256 key msg"] by (metis length_0_conv length_hmac numeral_eq_iff mult_zero_right zero_neq_numeral mult_eq_0_iff)

text \<open>A short key is padded with zero bytes: a secret and the same secret with zero bytes
  appended (up to the block size) are one key.\<close>

lemma hmac_zero_padded_key:
  assumes "length key + n \<le> 64"
  shows "hmac_sha256 (key @ replicate n (chr 0)) msg = hmac_sha256 key msg"
proof -
  have "replicate n (chr 0) @ replicate (64 - (length key + n)) (chr 0) = replicate (64 - length key) (chr 0)"
    using assms by (simp flip: replicate_add)
  then have "xor_pad p (key @ replicate n (chr 0)) = xor_pad p key" for p
    using assms by (simp add: xor_pad_def flip: map_append)
  then show ?thesis using assms by (simp add: hmac_sha256_def)
qed

end
