(* ===== verification/Go_Time.thy ===== *)
theory Go_Time
  imports Go_Conv
begin

text \<open>
  Go's \<open>time\<close> package as the service uses it: 64-bit durations (saturating subtraction, wrapping
  negation), \<open>time.Unix\<close>, and the RFC 3339 text of an instant, with its calendar. The text
  determines the instant (\<open>format_inj\<close>), which the signature and cursor proofs rest on.
\<close>

subsection \<open>Durations\<close>

definition second :: int where "second = 1000000000"
definition minute :: int where "minute = 60 * second"

definition wrap64 :: "int \<Rightarrow> int" where
  "wrap64 i = (i + 2 ^ 63) mod 2 ^ 64 - 2 ^ 63"

lemma wrap64_id: "int64_range i \<Longrightarrow> wrap64 i = i"
  by (auto simp: wrap64_def int64_range_def)

text \<open>\<open>Time.Sub\<close>: the difference, or the nearest \<open>Duration\<close> when it does not fit 64 bits.
  Negating a \<open>Duration\<close> wraps: the least one is its own negation.\<close>

definition time_sub :: "instant \<Rightarrow> instant \<Rightarrow> int" where
  "time_sub t u = max (- (2 ^ 63)) (min (2 ^ 63 - 1) (t - u))"

definition neg_duration :: "int \<Rightarrow> int" where
  "neg_duration d = wrap64 (- d)"

text \<open>\<open>time.Unix ts 0\<close>: the seconds are kept as a 64-bit count from year 1, so an extreme
  argument wraps.\<close>

definition unix_to_internal :: int where "unix_to_internal = 62135596800"

definition time_unix :: "int \<Rightarrow> instant" where
  "time_unix ts = (wrap64 (ts + unix_to_internal) - unix_to_internal) * second"

lemma time_unix_simp:
  "int64_range (ts + unix_to_internal) \<Longrightarrow> time_unix ts = ts * second"
  by (simp add: time_unix_def wrap64_id)

subsection \<open>The calendar\<close>

text \<open>
  The proleptic Gregorian date of a day number (day 0 is 1970-01-01). Years are counted from
  1 March, so the leap day is the last of its year: 400-year eras of 146097 days, whole
  centuries of 36524 days, four-year cycles of 1461 days, years of 365 days; the last century
  of an era and the last year of a cycle are one day longer.
\<close>

datatype civil = Civil (cyear: int) (cmonth: int) (cday: int)

definition civil_of_days :: "int \<Rightarrow> civil" where
  "civil_of_days z =
     (let era = (z + 719468) div 146097;
          d400 = (z + 719468) mod 146097;
          n100 = min 3 (d400 div 36524);
          d100 = d400 - 36524 * n100;
          n4 = d100 div 1461;
          d4 = d100 - 1461 * n4;
          n1 = min 3 (d4 div 365);
          doy = d4 - 365 * n1;
          mp = (5 * doy + 2) div 153;
          m = (if mp < 10 then mp + 3 else mp - 9)
      in Civil (400 * era + 100 * n100 + 4 * n4 + n1 + (if m \<le> 2 then 1 else 0)) m
           (doy - (153 * mp + 2) div 5 + 1))"

definition days_of_civil :: "civil \<Rightarrow> int" where
  "days_of_civil c =
     (let m = cmonth c;
          y = cyear c - (if m \<le> 2 then 1 else 0);
          mp = (if 2 < m then m - 3 else m + 9);
          yoe = y mod 400
      in 146097 * (y div 400) + 36524 * (yoe div 100) + 1461 * (yoe mod 100 div 4)
         + 365 * (yoe mod 4) + ((153 * mp + 2) div 5 + cday c - 1) - 719468)"

lemma month_bounds:
  fixes doy :: int
  assumes "0 \<le> doy" "doy \<le> 365"
  defines "mp \<equiv> (5 * doy + 2) div 153"
  shows "0 \<le> mp" "mp \<le> 11" "(153 * mp + 2) div 5 \<le> doy" "doy - (153 * mp + 2) div 5 \<le> 30"
proof -
  have mp: "153 * mp \<le> 5 * doy + 2" "5 * doy + 2 < 153 * mp + 153" unfolding mp_def by linarith+
  show "0 \<le> mp" "mp \<le> 11" using mp assms(1,2) by linarith+
  define q where "q = (153 * mp + 2) div 5"
  have q: "5 * q \<le> 153 * mp + 2" "153 * mp + 2 < 5 * q + 5" unfolding q_def by linarith+
  show "(153 * mp + 2) div 5 \<le> doy" "doy - (153 * mp + 2) div 5 \<le> 30"
    using mp q unfolding q_def [symmetric] by linarith+
qed

lemma civil_split:
  fixes z :: int
  obtains era n100 n4 n1 doy where
    "z + 719468 = 146097 * era + 36524 * n100 + 1461 * n4 + 365 * n1 + doy"
    "0 \<le> n100" "n100 \<le> 3" "0 \<le> n4" "n4 \<le> 24" "0 \<le> n1" "n1 \<le> 3" "0 \<le> doy" "doy \<le> 365"
    "civil_of_days z =
       (let mp = (5 * doy + 2) div 153; m = (if mp < 10 then mp + 3 else mp - 9)
        in Civil (400 * era + 100 * n100 + 4 * n4 + n1 + (if m \<le> 2 then 1 else 0)) m
             (doy - (153 * mp + 2) div 5 + 1))"
proof -
  define era where "era = (z + 719468) div 146097"
  define d400 where "d400 = (z + 719468) mod 146097"
  have d400: "0 \<le> d400" "d400 < 146097" by (simp_all add: d400_def)
  define n100 where "n100 = min 3 (d400 div 36524)"
  define d100 where "d100 = d400 - 36524 * n100"
  have n100: "0 \<le> n100" "n100 \<le> 3" "0 \<le> d100" "d100 \<le> 36524"
    using d400 unfolding n100_def d100_def by (auto simp: min_def)
  define n4 where "n4 = d100 div 1461"
  define d4 where "d4 = d100 - 1461 * n4"
  have n4: "0 \<le> n4" "n4 \<le> 24" "0 \<le> d4" "d4 \<le> 1460"
    using n100 unfolding n4_def d4_def by linarith+
  define n1 where "n1 = min 3 (d4 div 365)"
  define doy where "doy = d4 - 365 * n1"
  have n1: "0 \<le> n1" "n1 \<le> 3" "0 \<le> doy" "doy \<le> 365"
    using n4 unfolding n1_def doy_def by (auto simp: min_def)
  have "z + 719468 = 146097 * era + d400"
    unfolding era_def d400_def by simp
  then have "z + 719468 = 146097 * era + 36524 * n100 + 1461 * n4 + 365 * n1 + doy"
    unfolding doy_def d4_def d100_def by simp
  moreover have "civil_of_days z =
       (let mp = (5 * doy + 2) div 153; m = (if mp < 10 then mp + 3 else mp - 9)
        in Civil (400 * era + 100 * n100 + 4 * n4 + n1 + (if m \<le> 2 then 1 else 0)) m
             (doy - (153 * mp + 2) div 5 + 1))"
    unfolding civil_of_days_def Let_def doy_def n1_def d4_def n4_def d100_def n100_def d400_def era_def ..
  ultimately show thesis using that n100 n4 n1 by blast
qed

lemma civil_bounds:
  "1 \<le> cmonth (civil_of_days z) \<and> cmonth (civil_of_days z) \<le> 12
   \<and> 1 \<le> cday (civil_of_days z) \<and> cday (civil_of_days z) \<le> 31"
proof (rule civil_split [of z])
  fix era n100 n4 n1 doy :: int
  assume d: "0 \<le> doy" "doy \<le> 365"
    and c: "civil_of_days z =
       (let mp = (5 * doy + 2) div 153; m = (if mp < 10 then mp + 3 else mp - 9)
        in Civil (400 * era + 100 * n100 + 4 * n4 + n1 + (if m \<le> 2 then 1 else 0)) m
             (doy - (153 * mp + 2) div 5 + 1))"
  show ?thesis using month_bounds [OF d] unfolding c Let_def by auto
qed

lemma days_civil_roundtrip: "days_of_civil (civil_of_days z) = z"
proof (rule civil_split [of z])
  fix era n100 n4 n1 doy :: int
  assume z: "z + 719468 = 146097 * era + 36524 * n100 + 1461 * n4 + 365 * n1 + doy"
    and b: "0 \<le> n100" "n100 \<le> 3" "0 \<le> n4" "n4 \<le> 24" "0 \<le> n1" "n1 \<le> 3"
    and d: "0 \<le> doy" "doy \<le> 365"
    and c: "civil_of_days z =
       (let mp = (5 * doy + 2) div 153; m = (if mp < 10 then mp + 3 else mp - 9)
        in Civil (400 * era + 100 * n100 + 4 * n4 + n1 + (if m \<le> 2 then 1 else 0)) m
             (doy - (153 * mp + 2) div 5 + 1))"
  define mp where "mp = (5 * doy + 2) div 153"
  have mp: "0 \<le> mp" "mp \<le> 11" using month_bounds [OF d] by (simp_all add: mp_def)
  define y where "y = 400 * era + 100 * n100 + 4 * n4 + n1"
  have y: "y div 400 = era" "y mod 400 div 100 = n100" "y mod 400 mod 100 div 4 = n4"
    "y mod 400 mod 4 = n1"
  proof -
    define r where "r = 100 * n100 + 4 * n4 + n1"
    define s where "s = 4 * n4 + n1"
    have r: "0 \<le> r" "r < 400" "0 \<le> s" "s < 100" using b unfolding r_def s_def by linarith+
    have yr: "y = 400 * era + r" "r = 100 * n100 + s" "s = 4 * n4 + n1"
      unfolding y_def r_def s_def by simp_all
    show "y div 400 = era" using r yr(1) by linarith
    have m: "y mod 400 = r" using r yr(1) by simp
    show "y mod 400 div 100 = n100" using r yr(2) unfolding m by linarith
    have m': "r mod 100 = s" using r yr(2) by simp
    show "y mod 400 mod 100 div 4 = n4" using b yr(3) unfolding m m' by linarith
    have "r = 4 * (25 * n100 + n4) + n1" using yr by simp
    then have "r mod 4 = n1 mod 4" by (simp only: mod_mult_self4)
    then show "y mod 400 mod 4 = n1" using b unfolding m by simp
  qed
  define m where "m = (if mp < 10 then mp + 3 else mp - 9)"
  have cv: "civil_of_days z = Civil (y + (if m \<le> 2 then 1 else 0)) m (doy - (153 * mp + 2) div 5 + 1)"
    unfolding c y_def m_def mp_def Let_def ..
  have mm: "(if 2 < m then m - 3 else m + 9) = mp" unfolding m_def using mp by simp
  have "days_of_civil (civil_of_days z) =
      146097 * era + 36524 * n100 + 1461 * n4 + 365 * n1
      + ((153 * mp + 2) div 5 + (doy - (153 * mp + 2) div 5 + 1) - 1) - 719468"
    unfolding cv days_of_civil_def Let_def civil.sel mm add_diff_cancel_right' y ..
  then show ?thesis using z by linarith
qed

lemma civil_inj: "civil_of_days z = civil_of_days z' \<longleftrightarrow> z = z'"
  by (metis days_civil_roundtrip)

subsection \<open>RFC 3339 text\<close>

definition pad2 :: "nat \<Rightarrow> string" where
  "pad2 n = [digit (n div 10), digit (n mod 10)]"

definition pad :: "nat \<Rightarrow> nat \<Rightarrow> string" where
  "pad k n = replicate (k - length (dec n)) (CHR ''0'') @ dec n"

definition year_text :: "int \<Rightarrow> string" where
  "year_text y = (if y < 0 then CHR ''-'' # pad 4 (nat (- y)) else pad 4 (nat y))"

text \<open>The fraction \<open>.999999999\<close>: nine digits with the trailing zeros dropped, nothing at zero.\<close>

definition drop_zeros :: "string \<Rightarrow> string" where
  "drop_zeros s = rev (dropWhile (\<lambda>c. c = CHR ''0'') (rev s))"

definition frac_text :: "nat \<Rightarrow> string" where
  "frac_text ns = (if ns = 0 then [] else CHR ''.'' # drop_zeros (pad 9 ns))"

definition day_ns :: int where "day_ns = 86400000000000"

definition date_text :: "civil \<Rightarrow> string" where
  "date_text c =
     year_text (cyear c) @ ''-'' @ pad2 (nat (cmonth c)) @ ''-'' @ pad2 (nat (cday c))"

definition clock_text :: "nat \<Rightarrow> string" where
  "clock_text s = pad2 (s div 3600) @ '':'' @ pad2 (s div 60 mod 60) @ '':'' @ pad2 (s mod 60)"

text \<open>\<open>t.UTC().Format(time.RFC3339Nano)\<close>.\<close>

definition format_rfc3339nano :: "instant \<Rightarrow> string" where
  "format_rfc3339nano t =
     (let tod = nat (t mod day_ns)
      in date_text (civil_of_days (t div day_ns)) @ ''T''
         @ clock_text (tod div 1000000000) @ frac_text (tod mod 1000000000) @ ''Z'')"

lemma undec_zeros [simp]: "undec (replicate k (CHR ''0'') @ s) = undec s"
proof (induction s rule: rev_induct)
  case Nil
  then show ?case by (induction k) (auto simp: undec_def digit_val_def)
next
  case (snoc c s)
  then show ?case by (simp flip: append_assoc)
qed

lemma undec_pad [simp]: "undec (pad k n) = n"
  by (simp add: pad_def)

lemma undec_pad2 [simp]: "n < 100 \<Longrightarrow> undec (pad2 n) = n"
  using undec_snoc [of "[digit (n div 10)]" "digit (n mod 10)"] undec_snoc [of "[]" "digit (n div 10)"]
  by (simp add: pad2_def) (simp add: undec_def)

lemma length_pad2 [simp]: "length (pad2 n) = 2"
  by (simp add: pad2_def)

lemma dec_length: "n < 10 ^ k \<Longrightarrow> 0 < k \<Longrightarrow> length (dec n) \<le> k"
proof (induction k arbitrary: n)
  case (Suc k)
  show ?case
  proof (cases "n < 10")
    case True
    then show ?thesis by (simp add: dec.simps [of n])
  next
    case False
    then have "n div 10 < 10 ^ k" "0 < k" using Suc.prems by (auto intro: gr0I)
    then show ?thesis using Suc.IH False by (simp add: dec.simps [of n])
  qed
qed simp

lemma length_pad: "n < 10 ^ k \<Longrightarrow> 0 < k \<Longrightarrow> length (pad k n) = k"
  using dec_length [of n k] by (simp add: pad_def)

lemma pad_chars: "c \<in> set (pad k n) \<Longrightarrow> is_digit c"
proof -
  assume "c \<in> set (pad k n)"
  then have "c = CHR ''0'' \<or> c \<in> set (dec n)" by (auto simp: pad_def)
  then show "is_digit c" using dec_digits by (auto simp: is_digit_def)
qed

lemma pad2_chars: "n < 100 \<Longrightarrow> c \<in> set (pad2 n) \<Longrightarrow> is_digit c"
  by (auto simp: pad2_def)

lemma drop_zeros_restore:
  "drop_zeros s @ replicate (length s - length (drop_zeros s)) (CHR ''0'') = s"
proof -
  define t where "t = takeWhile (\<lambda>c. c = CHR ''0'') (rev s)"
  have "rev s = t @ dropWhile (\<lambda>c. c = CHR ''0'') (rev s)" by (simp add: t_def)
  then have s: "s = drop_zeros s @ rev t"
    unfolding drop_zeros_def by (metis rev_append rev_rev_ident)
  have "t = replicate (length t) (CHR ''0'')"
    by (rule replicate_length_same [symmetric]) (auto simp: t_def dest: set_takeWhileD)
  then have r: "rev t = replicate (length t) (CHR ''0'')" by (metis rev_replicate)
  have "length s = length (drop_zeros s) + length t" using s by (metis length_append length_rev)
  then have e: "length s - length (drop_zeros s) = length t" by linarith
  show ?thesis unfolding e r [symmetric] by (rule s [symmetric])
qed

lemma frac_inj:
  assumes "m < 1000000000" "n < 1000000000" "frac_text m = frac_text n"
  shows "m = n"
proof (cases "m = 0 \<or> n = 0")
  case True
  then show ?thesis using assms(3) by (auto simp: frac_text_def split: if_splits)
next
  case False
  then have "drop_zeros (pad 9 m) = drop_zeros (pad 9 n)" using assms(3) by (simp add: frac_text_def)
  moreover have "length (pad 9 m) = 9" "length (pad 9 n) = 9" using assms by (simp_all add: length_pad)
  ultimately have "pad 9 m = pad 9 n" by (metis drop_zeros_restore)
  then show ?thesis by (metis undec_pad)
qed

lemma year_inj: "year_text x = year_text y \<longleftrightarrow> x = y"
proof
  assume e: "year_text x = year_text y"
  have d: "pad 4 n \<noteq> CHR ''-'' # s" for n s
    using pad_chars [of "CHR ''-''" 4 n] by (auto simp: is_digit_def)
  have "pad 4 (nat (- x)) = pad 4 (nat (- y))" if "x < 0" "y < 0" using e that by (simp add: year_text_def)
  moreover have "pad 4 (nat x) = pad 4 (nat y)" if "\<not> x < 0" "\<not> y < 0" using e that by (simp add: year_text_def)
  moreover have "x < 0 \<longleftrightarrow> y < 0" using e d d [symmetric] by (auto simp: year_text_def split: if_splits)
  ultimately show "x = y" by (metis undec_pad eq_nat_nat_iff int_nat_eq neg_equal_iff_equal not_less neg_0_le_iff_le less_imp_le)
qed simp

lemma pad2_inj: "m < 100 \<Longrightarrow> n < 100 \<Longrightarrow> pad2 m = pad2 n \<longleftrightarrow> m = n"
  by (metis undec_pad2)

lemma clock_inj:
  assumes "s < 86400" "t < 86400" "clock_text s @ u = clock_text t @ v"
  shows "s = t \<and> u = v"
proof -
  have b: "s div 3600 < 100" "t div 3600 < 100" "s div 60 mod 60 < 100" "t div 60 mod 60 < 100"
    "s mod 60 < 100" "t mod 60 < 100" using assms by auto
  have "pad2 (s div 3600) = pad2 (t div 3600) \<and> pad2 (s div 60 mod 60) = pad2 (t div 60 mod 60)
      \<and> pad2 (s mod 60) = pad2 (t mod 60) \<and> u = v"
    using assms(3) by (auto simp: clock_text_def pad2_def)
  then have "s div 3600 = t div 3600" "s div 60 mod 60 = t div 60 mod 60" "s mod 60 = t mod 60" "u = v"
    using b pad2_inj by blast+
  moreover have "x = 3600 * (x div 3600) + 60 * (x div 60 mod 60) + x mod 60" for x :: nat
  proof -
    have "x div 60 = 60 * (x div 3600) + x div 60 mod 60"
      using mult_div_mod_eq [of 60 "x div 60"] by (simp add: div_mult2_eq [symmetric])
    then show ?thesis using mult_div_mod_eq [of 60 x] by linarith
  qed
  ultimately show ?thesis by metis
qed

lemma date_inj: "date_text (civil_of_days z) = date_text (civil_of_days z') \<longleftrightarrow> z = z'"
proof
  assume e: "date_text (civil_of_days z) = date_text (civil_of_days z')"
  let ?c = "civil_of_days z" and ?d = "civil_of_days z'"
  have "year_text (cyear ?c) = year_text (cyear ?d)
     \<and> pad2 (nat (cmonth ?c)) = pad2 (nat (cmonth ?d)) \<and> pad2 (nat (cday ?c)) = pad2 (nat (cday ?d))"
    using e by (simp add: date_text_def pad2_def)
  then have "cyear ?c = cyear ?d" "nat (cmonth ?c) = nat (cmonth ?d)" "nat (cday ?c) = nat (cday ?d)"
    using civil_bounds [of z] civil_bounds [of z'] by (simp_all add: year_inj pad2_inj nat_less_iff)
  then have "?c = ?d"
    using civil_bounds [of z] civil_bounds [of z'] by (intro civil.expand) auto
  then show "z = z'" by (simp add: civil_inj)
qed simp

lemma date_no_T: "CHR ''T'' \<notin> set (date_text (civil_of_days z))"
proof -
  have "nat (cmonth (civil_of_days z)) < 100" "nat (cday (civil_of_days z)) < 100"
    using civil_bounds [of z] by linarith+
  then show ?thesis using pad_chars [of "CHR ''T''"] pad2_chars [of _ "CHR ''T''"]
    by (auto simp: date_text_def year_text_def is_digit_def)
qed

lemma format_inj: "format_rfc3339nano t = format_rfc3339nano u \<longleftrightarrow> t = u"
proof
  assume e: "format_rfc3339nano t = format_rfc3339nano u"
  define m n where "m = nat (t mod day_ns)" and "n = nat (u mod day_ns)"
  have b: "m < 86400000000000" "n < 86400000000000" by (simp_all add: m_def n_def day_ns_def)
  have *: "t div day_ns = u div day_ns"
    "clock_text (m div 1000000000) @ frac_text (m mod 1000000000) @ ''Z''
     = clock_text (n div 1000000000) @ frac_text (n mod 1000000000) @ ''Z''"
    using e sep_first_eq [OF date_no_T [of "t div day_ns"] date_no_T [of "u div day_ns"]]
    by (auto simp: format_rfc3339nano_def Let_def date_inj m_def n_def)
  have "m div 1000000000 = n div 1000000000 \<and>
      frac_text (m mod 1000000000) @ ''Z'' = frac_text (n mod 1000000000) @ ''Z''"
    using * b by (intro clock_inj) auto
  then have "m div 1000000000 = n div 1000000000" "m mod 1000000000 = n mod 1000000000"
    by (auto intro: frac_inj)
  then have "m = n" by (metis div_mult_mod_eq)
  moreover have "0 \<le> t mod day_ns" "0 \<le> u mod day_ns" by (simp_all add: day_ns_def)
  ultimately have "t mod day_ns = u mod day_ns"
    unfolding m_def n_def by (simp only: eq_nat_nat_iff)
  then show "t = u" using * by (metis div_mult_mod_eq)
qed simp

lemma date_no_bar [no_bar]: "CHR ''|'' \<notin> set (date_text (civil_of_days z))"
proof -
  have "nat (cmonth (civil_of_days z)) < 100" "nat (cday (civil_of_days z)) < 100"
    using civil_bounds [of z] by linarith+
  then show ?thesis using pad_chars [of "CHR ''|''"] pad2_chars [of _ "CHR ''|''"]
    by (auto simp: date_text_def year_text_def is_digit_def)
qed

lemma clock_no_bar [no_bar]: "k < 86400 \<Longrightarrow> CHR ''|'' \<notin> set (clock_text k)"
proof -
  assume "k < 86400"
  then have "k div 3600 < 100" "k div 60 mod 60 < 100" "k mod 60 < 100" by auto
  then show ?thesis using pad2_chars [of _ "CHR ''|''"]
    by (auto simp: clock_text_def is_digit_def)
qed

lemma frac_no_bar [no_bar]: "CHR ''|'' \<notin> set (frac_text k)"
proof -
  have "set (drop_zeros (pad 9 k)) \<subseteq> set (pad 9 k)"
    by (auto simp: drop_zeros_def dest: set_dropWhileD)
  then show ?thesis using pad_chars [of "CHR ''|''" 9 k]
    by (auto simp: frac_text_def is_digit_def)
qed

lemma format_no_bar [simp, no_bar]: "CHR ''|'' \<notin> set (format_rfc3339nano t)"
proof -
  define k where "k = nat (t mod day_ns)"
  have "k < 86400000000000" by (simp add: k_def day_ns_def)
  then have "k div 1000000000 < 86400" by (simp add: div_less_iff_less_mult)
  then show ?thesis
    unfolding format_rfc3339nano_def Let_def k_def [symmetric]
    by (simp add: no_bar)
qed

end
