(* ===== verification/Signatures.thy ===== *)
theory Signatures
  imports Go_Hash Go_Time Interfaces
begin

text \<open>
  What the three signature checks of the program share (\<open>VerifyStatusChangedSignature\<close>,
  \<open>VerifySendRequested\<close> and the gateway's \<open>verifyGatewaySignature\<close>): a canonical string joined
  with \<open>|\<close>, its HMAC-SHA256 in lower-case hexadecimal, and a constant-time comparison. The locale
  \<open>signed_message\<close> is the contract of a canonical string: different messages have different
  strings. Its consequence is that a signature seen on one message is valid for another only if
  HMAC-SHA256 itself collides.

  \<open>google/uuid\<close> is a parameter: \<open>str\<close> is \<open>UUID.String\<close> and \<open>parse\<close> is \<open>uuid.Parse\<close>, with the
  documented law that parsing the text of a uuid gives it back and that the text (hexadecimal
  digits and hyphens) has no \<open>|\<close>.
\<close>

definition uuid_codec :: "(uuid \<Rightarrow> string) \<Rightarrow> (string \<Rightarrow> uuid option) \<Rightarrow> bool" where
  "uuid_codec str parse \<longleftrightarrow> (\<forall>u. parse (str u) = Some u \<and> CHR ''|'' \<notin> set (str u))"

lemma uuid_codec_inj: "uuid_codec str parse \<Longrightarrow> str u = str v \<longleftrightarrow> u = v"
  unfolding uuid_codec_def by (metis option.inject)

lemma uuid_codec_no_bar [no_bar]: "uuid_codec str parse \<Longrightarrow> CHR ''|'' \<notin> set (str u)"
  by (simp add: uuid_codec_def)

lemma uuid_codec_parse: "uuid_codec str parse \<Longrightarrow> parse (str u) = Some u"
  by (simp add: uuid_codec_def)

text \<open>A concrete codec for the witnesses: decimal digits.\<close>

definition dec_uuid :: "uuid \<Rightarrow> string" where
  "dec_uuid u = dec (unat u)"

definition undec_uuid :: "string \<Rightarrow> uuid option" where
  "undec_uuid s = Some (of_nat (undec s))"

lemma dec_no_bar [no_bar]: "CHR ''|'' \<notin> set (dec n)"
proof
  assume "CHR ''|'' \<in> set (dec n)"
  from dec_digits [OF this] show False by (simp add: is_digit_def)
qed

lemma dec_uuid_codec: "uuid_codec dec_uuid undec_uuid"
  by (simp add: uuid_codec_def dec_uuid_def undec_uuid_def no_bar)

definition hmac_hex :: "string \<Rightarrow> string \<Rightarrow> string" where
  "hmac_hex secret msg = hex_encode (hmac_sha256 secret msg)"

lemma hmac_hex_nonempty [simp]: "hmac_hex secret msg \<noteq> []" "[] \<noteq> hmac_hex secret msg"
  unfolding hmac_hex_def by (rule hex_hmac_nonempty, rule not_sym [OF hex_hmac_nonempty])

definition hmac_collision :: "string \<Rightarrow> string \<Rightarrow> string \<Rightarrow> bool" where
  "hmac_collision secret a b \<longleftrightarrow> a \<noteq> b \<and> hmac_sha256 secret a = hmac_sha256 secret b"

lemma hmac_hex_eq: "hmac_hex secret a = hmac_hex secret b \<longleftrightarrow> a = b \<or> hmac_collision secret a b"
  by (auto simp: hmac_hex_def hex_encode_inj hmac_collision_def)

locale signed_message =
  fixes canonical :: "'m \<Rightarrow> string"
    and wf :: "'m \<Rightarrow> bool"
  assumes canonical_inj: "wf m \<Longrightarrow> wf n \<Longrightarrow> canonical m = canonical n \<Longrightarrow> m = n"
begin

lemma same_signature:
  assumes "wf m" "wf n" "hmac_hex secret (canonical m) = hmac_hex secret (canonical n)"
  shows "m = n \<or> hmac_collision secret (canonical m) (canonical n)"
  using assms canonical_inj by (auto simp: hmac_hex_eq)

end

text \<open>A string with one free field amid fields without the separator: the fields before it are
  read from the front, those after it from the back.\<close>

lemma free_field_eq:
  assumes "length xs = length xs'" "length ys = length ys'"
    and "\<forall>x \<in> set xs \<union> set xs' \<union> set ys \<union> set ys'. c \<notin> set x"
    and "join [c] (xs @ a # ys) = join [c] (xs' @ a' # ys')"
  shows "xs = xs' \<and> a = a' \<and> ys = ys'"
proof -
  have suffix: "join [c] (a # ys) = join [c] (a' # ys') \<Longrightarrow> a = a' \<and> ys = ys'"
    if "length ys = length ys'" "\<forall>y \<in> set ys \<union> set ys'. c \<notin> set y" for a a' ys ys'
    using that
  proof (induction ys arbitrary: ys' rule: rev_induct)
    case Nil
    then show ?case by simp
  next
    case (snoc y ys)
    obtain zs z where ys': "ys' = zs @ [z]" "length zs = length ys"
      using snoc.prems(2) by (cases ys' rule: rev_cases) auto
    have split: "join [c] (b # ws @ [w]) = join [c] (b # ws) @ c # w" for b ws w
      by (induction ws arbitrary: b) simp_all
    have "join [c] (a # ys) @ c # y = join [c] (a' # zs) @ c # z"
      using snoc.prems(1) ys' split by simp
    then have "join [c] (a # ys) = join [c] (a' # zs) \<and> y = z"
      using snoc.prems(3) ys' by (subst (asm) sep_last_eq) auto
    then show ?case using snoc.IH [of zs] snoc.prems(3) ys' by auto
  qed
  show ?thesis using assms
  proof (induction xs xs' rule: list_induct2)
    case Nil
    then show ?case using suffix [of ys ys' a a'] by auto
  next
    case (Cons x xs x' xs')
    have unfold: "join [c] (y # zs @ b # ws) = y @ c # join [c] (zs @ b # ws)" for y zs b ws
      by (cases "zs @ b # ws") simp_all
    have "x @ c # join [c] (xs @ a # ys) = x' @ c # join [c] (xs' @ a' # ys')"
      using Cons.prems(3) by (simp add: unfold)
    then have "x = x' \<and> join [c] (xs @ a # ys) = join [c] (xs' @ a' # ys')"
      using Cons.prems(2) by (subst (asm) sep_first_eq) auto
    then show ?case using Cons.IH Cons.prems by auto
  qed
qed

end
