(* ===== verification/Middleware.thy ===== *)
theory Middleware
  imports Http Go_Conv Signatures
begin

text \<open>
  The middlewares that keep no state (\<open>internal/platform/middleware\<close>: \<open>requestid.go\<close>,
  \<open>securityheaders.go\<close>, \<open>recover.go\<close>, \<open>identity.go\<close>, \<open>serviceidentity.go\<close>), and who may pass them.
  They work for any state type \<open>'s\<close>. \<open>uuid.Parse\<close> is an argument; a fresh request id is one too.
\<close>

definition stateless :: "(ctx \<Rightarrow> verdict) \<Rightarrow> 's middleware" where
  "stateless m c s = (m c, s)"

subsection \<open>Request ids, security headers, recovery\<close>

definition headerRequestID :: string where "headerRequestID = ''X-Request-ID''"

definition id_char :: "char \<Rightarrow> bool" where
  "id_char c \<longleftrightarrow> byte c \<in> {65..90} \<or> byte c \<in> {97..122} \<or> is_digit c \<or> c = CHR ''_'' \<or> c = CHR ''-''"

definition requestIDPattern :: "string \<Rightarrow> bool" where
  "requestIDPattern s \<longleftrightarrow> list_all id_char s \<and> 1 \<le> length s \<and> length s \<le> 64"

definition RequestID :: "string \<Rightarrow> ctx \<Rightarrow> verdict" where
  "RequestID fresh c =
     (let given = Header c headerRequestID;
          rid = (if given = [] \<or> \<not> requestIDPattern given then fresh else given)
      in Next (c_Header headerRequestID rid (c_Set ''request_id'' (V_String rid) c)))"

definition SecurityHeaders :: "ctx \<Rightarrow> verdict" where
  "SecurityHeaders c = Next
     (c_Header ''Content-Security-Policy'' (''default-src '' @ [CHR 0x27] @ ''none'' @ [CHR 0x27])
     (c_Header ''Referrer-Policy'' ''no-referrer''
     (c_Header ''X-Frame-Options'' ''DENY''
     (c_Header ''X-Content-Type-Options'' ''nosniff''
     (c_Header ''Strict-Transport-Security'' ''max-age=63072000; includeSubDomains; preload'' c)))))"

text \<open>What the rest of the chain answers, or the 500 a panic becomes.\<close>

definition Recover :: "response option \<Rightarrow> response" where
  "Recover r = (case r of Some resp \<Rightarrow> resp
     | None \<Rightarrow> \<lparr>rs_status = 500, rs_body = Some (error_body ''INTERNAL_ERROR'' ''internal server error'' None)\<rparr>)"

subsection \<open>The caller's identity\<close>

definition ctxKeyUserID :: string where "ctxKeyUserID = ''user_id''"
definition ctxKeyKYCTier :: string where "ctxKeyKYCTier = ''kyc_tier''"
definition ctxKeyAccountType :: string where "ctxKeyAccountType = ''account_type''"
definition headerUserID :: string where "headerUserID = ''X-User-Id''"
definition headerKYCTier :: string where "headerKYCTier = ''X-Kyc-Tier''"
definition headerAccountType :: string where "headerAccountType = ''X-Account-Type''"

lemmas identity_keys = ctxKeyUserID_def ctxKeyKYCTier_def ctxKeyAccountType_def
lemmas identity_headers = headerUserID_def headerKYCTier_def headerAccountType_def

record Identity =
  Ident_UserID :: uuid
  Ident_KYCTier :: int
  Ident_AccountType :: string

definition RequireValidIdentity :: "(string \<Rightarrow> uuid option) \<Rightarrow> ctx \<Rightarrow> verdict" where
  "RequireValidIdentity parse c =
     (let rawID = Header c headerUserID in
      if rawID = [] then Abort c (ErrCode 401 ''UNAUTHORIZED'' ''authentication required'' None)
      else (case parse rawID of
          None \<Rightarrow> Abort c (ErrCode 401 ''UNAUTHORIZED'' ''invalid identity header'' None)
        | Some userID \<Rightarrow>
            let rawTier = Header c headerKYCTier;
                tier = (if rawTier \<noteq> [] then (case parse_int64 rawTier of Some t \<Rightarrow> t | None \<Rightarrow> 0) else 0)
            in Next (c_Set ctxKeyAccountType (V_String (Header c headerAccountType))
                 (c_Set ctxKeyKYCTier (V_Int tier) (c_Set ctxKeyUserID (V_UUID userID) c)))))"

definition RequireTier :: "int \<Rightarrow> ctx \<Rightarrow> verdict" where
  "RequireTier minTier c =
     (case Keys c ctxKeyKYCTier of
        Some (V_Int tier) \<Rightarrow>
          if tier < minTier
          then Abort c (ErrCode 403 ''KYC_TIER_REQUIRED'' ''kyc verification required''
            (Some (J_Object [(''requiredTier'', J_Int minTier), (''currentTier'', J_Int tier)])))
          else Next c
      | _ \<Rightarrow> Abort c (ErrCode 401 ''UNAUTHORIZED'' ''authentication required'' None))"

definition IdentityFromCtx :: "ctx \<Rightarrow> Identity option" where
  "IdentityFromCtx c =
     (case Keys c ctxKeyUserID of
        Some (V_UUID userID) \<Rightarrow> Some \<lparr>Ident_UserID = userID,
          Ident_KYCTier = (case Keys c ctxKeyKYCTier of Some (V_Int t) \<Rightarrow> t | _ \<Rightarrow> 0),
          Ident_AccountType = (case Keys c ctxKeyAccountType of Some (V_String a) \<Rightarrow> a | _ \<Rightarrow> [])\<rparr>
      | _ \<Rightarrow> None)"

subsection \<open>The calling service\<close>

definition headerServiceID :: string where "headerServiceID = ''X-Service-Id''"
definition headerServiceToken :: string where "headerServiceToken = ''X-Service-Token''"
definition ctxKeyServiceID :: string where "ctxKeyServiceID = ''service_id''"

definition RequireServiceIdentity :: "(string \<times> string) list \<Rightarrow> ctx \<Rightarrow> verdict" where
  "RequireServiceIdentity tokenMap c =
     (if tokenMap = []
      then Abort c (ErrCode 401 ''UNAUTHORIZED'' ''service authentication unavailable'' None)
      else let serviceID = trim_space (Header c headerServiceID);
               token = Header c headerServiceToken;
               deny = Abort c (ErrCode 401 ''UNAUTHORIZED'' ''service authentication required'' None)
           in if serviceID = [] then deny
              else (case map_of tokenMap serviceID of
                  None \<Rightarrow> deny
                | Some expected \<Rightarrow>
                    if expected = [] then deny
                    else if token \<noteq> expected then deny
                    else Next (c_Set ctxKeyServiceID (V_String serviceID) c)))"

definition ServiceIDFromCtx :: "ctx \<Rightarrow> string" where
  "ServiceIDFromCtx c = (case Keys c ctxKeyServiceID of Some (V_String i) \<Rightarrow> i | _ \<Rightarrow> [])"

subsection \<open>Who passes\<close>

lemma keys_set [simp]: "Keys (c_Set k v c) = (Keys c)(k \<mapsto> v)" "Keys (c_Header k w c) = Keys c"
  by (simp_all add: c_Set_def c_Header_def)

lemma request_kept [simp]:
  "Header (c_Set k v c) = Header c" "Header (c_Header h w c) = Header c"
  "RequestURI (c_Set k v c) = RequestURI c" "RequestURI (c_Header h w c) = RequestURI c"
  "Method (c_Set k v c) = Method c" "Method (c_Header h w c) = Method c"
  "ReqBody (c_Set k v c) = ReqBody c" "ReqBody (c_Header h w c) = ReqBody c"
  "ClientIP (c_Set k v c) = ClientIP c" "ClientIP (c_Header h w c) = ClientIP c"
  "Query (c_Set k v c) = Query c" "Query (c_Header h w c) = Query c"
  "Param (c_Set k v c) = Param c" "Param (c_Header h w c) = Param c"
  by (simp_all add: c_Set_def c_Header_def)

text \<open>The identity a handler reads is the one in the request's header, as parsed.\<close>

lemma identity_passed:
  assumes "RequireValidIdentity parse c = Next c'"
  obtains u where "parse (Header c headerUserID) = Some u" "Header c headerUserID \<noteq> []"
    "Keys c' ctxKeyUserID = Some (V_UUID u)"
    "\<exists>i. IdentityFromCtx c' = Some i \<and> Ident_UserID i = u"
  using assms
  by (auto simp: RequireValidIdentity_def Let_def IdentityFromCtx_def identity_keys split: if_splits option.splits)

lemma identity_same_request:
  assumes "RequireValidIdentity parse c = Next c'"
  shows "Header c' = Header c" "RequestURI c' = RequestURI c" "Method c' = Method c" "ReqBody c' = ReqBody c"
    "Query c' = Query c" "Param c' = Param c" "ClientIP c' = ClientIP c"
  using assms by (auto simp: RequireValidIdentity_def Let_def split: if_splits option.splits)

lemma tier_zero_passes:
  "RequireValidIdentity parse c = Next c' \<Longrightarrow>
   RequireTier 0 c' = Next c' \<or> (case Keys c' ctxKeyKYCTier of Some (V_Int t) \<Rightarrow> t < 0 | _ \<Rightarrow> False)"
  by (auto simp: RequireValidIdentity_def RequireTier_def identity_keys Let_def not_less split: if_splits option.splits)

lemma RequireTier_Next: "RequireTier n c = Next c' \<Longrightarrow> c' = c"
  by (auto simp: RequireTier_def split: option.splits key_value.splits if_splits)

text \<open>The service-to-service guard is deny by default: a request passes exactly when it presents the
  (non-empty) token registered for its service id, trimmed, and then the service id the later steps read is
  that one. With no tokens configured nothing passes, and every refusal is a 401.\<close>

lemma service_guard_exact:
  "(case RequireServiceIdentity tokens c of
      Next c' \<Rightarrow> (\<exists>tok. map_of tokens (trim_space (Header c ''X-Service-Id'')) = Some tok \<and> tok \<noteq> [] \<and>
          Header c ''X-Service-Token'' = tok) \<and> trim_space (Header c ''X-Service-Id'') \<noteq> [] \<and>
        ServiceIDFromCtx c' = trim_space (Header c ''X-Service-Id'')
    | Abort c' r \<Rightarrow> rs_status r = 401 \<and> c' = c \<and>
        \<not> (\<exists>tok. map_of tokens (trim_space (Header c ''X-Service-Id'')) = Some tok \<and> tok \<noteq> [] \<and>
            trim_space (Header c ''X-Service-Id'') \<noteq> [] \<and> Header c ''X-Service-Token'' = tok))"
  by (auto simp: RequireServiceIdentity_def Let_def ServiceIDFromCtx_def headerServiceID_def
      headerServiceToken_def ErrCode_def split: option.splits)

text \<open>The request id that later steps, the response and the log carry is safe text: what the client sent if
  it matches the pattern, a fresh one otherwise.\<close>

lemma request_id_safe:
  assumes "requestIDPattern fresh"
  shows "\<exists>rid c'. RequestID fresh c = Next c' \<and> Keys c' ''request_id'' = Some (V_String rid) \<and>
    last (OutHeaders c') = (''X-Request-ID'', rid) \<and> requestIDPattern rid \<and>
    (requestIDPattern (Header c ''X-Request-ID'') \<longrightarrow> rid = Header c ''X-Request-ID'')"
  using assms by (auto simp: RequestID_def Let_def headerRequestID_def c_Header_def c_Set_def requestIDPattern_def)

end
