(* ===== verification/Redis_Client.thy ===== *)
theory Redis_Client
  imports Prelude
begin

text \<open>
  The two operations the service asks of Redis, as a parameter with a server state \<open>'r\<close>:
  \<open>SET key 1 NX EX ttl\<close>, answering whether the key was set, and the pipeline \<open>INCR key; EXPIRE key
  ttl NX\<close>, answering the counter. Both take the time at which they are executed, and may fail.

  \<open>setnx_law\<close> is the documented behaviour of the first: it sets the key exactly when the key is
  absent or expired, and the key then lives for \<open>ttl\<close>. A failed call may or may not have been
  executed. \<open>expiry\<close> is how a server state records the keys and when they expire.
\<close>

record 'r redis =
  r_SetNX :: "instant \<Rightarrow> string \<Rightarrow> int \<Rightarrow> 'r \<Rightarrow> (string + bool) \<times> 'r"
  r_IncrExpireNX :: "instant \<Rightarrow> string \<Rightarrow> int \<Rightarrow> 'r \<Rightarrow> (string + int) \<times> 'r"

definition key_live :: "('r \<Rightarrow> string \<Rightarrow> instant option) \<Rightarrow> instant \<Rightarrow> string \<Rightarrow> 'r \<Rightarrow> bool" where
  "key_live expiry t k r = (case expiry r k of None \<Rightarrow> False | Some e \<Rightarrow> t < e)"

definition setnx_law :: "'r redis \<Rightarrow> ('r \<Rightarrow> string \<Rightarrow> instant option) \<Rightarrow> bool" where
  "setnx_law rd expiry \<longleftrightarrow> (\<forall>t k ttl r.
     (\<forall>b r'. r_SetNX rd t k ttl r = (Inr b, r') \<longrightarrow> b = (\<not> key_live expiry t k r) \<and>
        expiry r' = (if b then (expiry r)(k \<mapsto> t + ttl) else expiry r)) \<and>
     (\<forall>m r'. r_SetNX rd t k ttl r = (Inl m, r') \<longrightarrow> expiry r' = expiry r \<or>
        \<not> key_live expiry t k r \<and> expiry r' = (expiry r)(k \<mapsto> t + ttl)))"

lemma setnx_set:
  assumes "setnx_law rd expiry" "r_SetNX rd t k ttl r = (Inr True, r')"
  shows "expiry r' k = Some (t + ttl)" "\<not> key_live expiry t k r"
proof -
  have "True = (\<not> key_live expiry t k r) \<and> expiry r' = (expiry r)(k \<mapsto> t + ttl)"
    using assms unfolding setnx_law_def by (metis (full_types))
  then show "expiry r' k = Some (t + ttl)" "\<not> key_live expiry t k r" by simp_all
qed

lemma setnx_expiry:
  assumes "setnx_law rd expiry"
  shows "expiry (snd (r_SetNX rd t k ttl r)) = expiry r \<or>
    \<not> key_live expiry t k r \<and> expiry (snd (r_SetNX rd t k ttl r)) = (expiry r)(k \<mapsto> t + ttl)"
proof (cases "r_SetNX rd t k ttl r")
  case (Pair res r')
  show ?thesis
  proof (cases res)
    case (Inl m)
    then show ?thesis using assms Pair unfolding setnx_law_def by (metis snd_conv)
  next
    case (Inr b)
    then have "b = (\<not> key_live expiry t k r) \<and> expiry r' = (if b then (expiry r)(k \<mapsto> t + ttl) else expiry r)"
      using assms Pair unfolding setnx_law_def by blast
    then show ?thesis using Pair by (auto split: if_splits)
  qed
qed

text \<open>A key that expires at \<open>e\<close> or later still does so after any call: only an expired key is set anew.\<close>

lemma setnx_keeps:
  assumes "setnx_law rd expiry" "0 \<le> ttl" "expiry r k = Some x" "e \<le> x"
  shows "\<exists>y \<ge> e. expiry (snd (r_SetNX rd t k' ttl r)) k = Some y"
  using setnx_expiry [OF assms(1), of t k' ttl r] assms(2-4)
  by (auto simp: key_live_def not_less intro: order_trans)

text \<open>A server that never fails, for the witnesses: the state is the expiry of every key.\<close>

definition plain_redis :: "(string \<Rightarrow> instant option) redis" where
  "plain_redis = \<lparr>r_SetNX = (\<lambda>t k ttl r. let b = (case r k of None \<Rightarrow> True | Some e \<Rightarrow> e \<le> t)
       in (Inr b, if b then r(k \<mapsto> t + ttl) else r)), r_IncrExpireNX = (\<lambda>t k ttl r. (Inr 1, r))\<rparr>"

lemma plain_redis_law: "setnx_law plain_redis id"
  by (auto simp: setnx_law_def plain_redis_def key_live_def Let_def split: option.splits if_splits)

end
