(* ===== verification/Gateway_Signature.thy ===== *)
theory Gateway_Signature
  imports Middleware Redis_Client
begin

text \<open>
  The proof that a request's identity headers come from the gateway
  (\<open>internal/platform/middleware/gateway_signature.go\<close>): the canonical string, its HMAC, the
  freshness of the timestamp and the nonce kept in Redis.

  \<open>clock\<close> is the time at which a request is handled; Redis is taken to run on the same clock.
\<close>

definition headerGatewayTs :: string where "headerGatewayTs = ''X-Gateway-Ts''"
definition headerGatewaySignature :: string where "headerGatewaySignature = ''X-Gateway-Signature''"
definition headerEmailVerified :: string where "headerEmailVerified = ''X-Email-Verified''"

lemmas gateway_headers = headerGatewayTs_def headerGatewaySignature_def headerEmailVerified_def

definition maxGatewaySkew :: int where "maxGatewaySkew = 30 * second"
definition gatewayBodyLimit :: nat where "gatewayBodyLimit = 1048576"
definition replayNoncePrefix :: string where "replayNoncePrefix = ''gw:nonce:''"

definition withinGatewaySkew :: "instant \<Rightarrow> int \<Rightarrow> bool" where
  "withinGatewaySkew clock tsUnix =
     (let delta = time_sub clock (time_unix tsUnix);
          delta = (if delta < 0 then neg_duration delta else delta)
      in delta \<le> maxGatewaySkew)"

text \<open>A field behind its length; the identity tuple comes last, unframed.\<close>

definition framed :: "string \<Rightarrow> string \<Rightarrow> string" where
  "framed x rest = dec (length x) @ CHR 0x0A # x @ CHR 0x0A # rest"

definition gateway_identity :: "ctx \<Rightarrow> string \<Rightarrow> string list" where
  "gateway_identity c ts = [Header c headerUserID, Header c headerKYCTier, Header c headerAccountType,
     Header c headerEmailVerified, Header c headerRequestID, ts]"

definition gateway_canonical :: "ctx \<Rightarrow> string \<Rightarrow> string \<Rightarrow> string" where
  "gateway_canonical c ts bs = framed (Method c) (framed (RequestURI c)
     (framed (hex_encode (sha256 bs)) (join ''|'' (gateway_identity c ts))))"

definition computeGatewaySignature :: "string \<Rightarrow> ctx \<Rightarrow> string \<Rightarrow> string \<Rightarrow> string" where
  "computeGatewaySignature secret c ts bs = hmac_sha256 secret (gateway_canonical c ts bs)"

definition storeNonce :: "'r redis \<Rightarrow> instant \<Rightarrow> string \<Rightarrow> 'r \<Rightarrow> bool \<times> 'r" where
  "storeNonce rd clock requestID r =
     (case r_SetNX rd clock (replayNoncePrefix @ requestID) (maxGatewaySkew + 5 * second) r of
        (Inl m, r') \<Rightarrow> (False, r')
      | (Inr ok, r') \<Rightarrow> (ok, r'))"

definition abortUnauthorized :: "ctx \<Rightarrow> verdict" where
  "abortUnauthorized c = Abort c (ErrCode 401 ''UNAUTHORIZED'' ''authentication required'' None)"

text \<open>The body as buffered for hashing, with the context whose body is restored: an error, too large, or
  both.\<close>

datatype buffered = Unreadable | Too_Large | Buffered string ctx

definition buffer_body :: "ctx \<Rightarrow> buffered" where
  "buffer_body c = (case ReqBody c of
     No_Body \<Rightarrow> Buffered [] c
   | Body bs e \<Rightarrow> (case read_limited (gatewayBodyLimit + 1) (ReqBody c) of
       Inl m \<Rightarrow> Unreadable
     | Inr buf \<Rightarrow> if length buf > gatewayBodyLimit then Too_Large
         else Buffered buf (c\<lparr>ReqBody := Body buf None\<rparr>)))"

definition VerifyGatewaySignature ::
  "string \<Rightarrow> 'r redis option \<Rightarrow> instant \<Rightarrow> ctx \<Rightarrow> 'r \<Rightarrow> verdict \<times> 'r" where
  "VerifyGatewaySignature secret rdb clock c r =
     (if secret = [] then (Next c, r)
      else let sig = Header c headerGatewaySignature; ts = Header c headerGatewayTs in
        if sig = [] \<or> ts = [] then (abortUnauthorized c, r)
        else (case parse_int64 ts of
            None \<Rightarrow> (abortUnauthorized c, r)
          | Some tsInt \<Rightarrow>
              if \<not> withinGatewaySkew clock tsInt then (abortUnauthorized c, r)
              else (case buffer_body c of
                  Unreadable \<Rightarrow> (abortUnauthorized c, r)
                | Too_Large \<Rightarrow> (Abort c (ErrCode 413 ''BODY_TOO_LARGE'' ''request body exceeds limit'' None), r)
                | Buffered buf c' \<Rightarrow>
                    let expected = computeGatewaySignature secret c' ts buf in
                    (case hex_decode sig of
                       None \<Rightarrow> (abortUnauthorized c', r)
                     | Some sigBytes \<Rightarrow>
                         if sigBytes \<noteq> expected then (abortUnauthorized c', r)
                         else (case rdb of
                             None \<Rightarrow> (Next c', r)
                           | Some rd \<Rightarrow>
                               let requestID = Header c' headerRequestID in
                               if requestID = [] then (abortUnauthorized c', r)
                               else (case storeNonce rd clock requestID r of
                                   (ok, r') \<Rightarrow> (if ok then Next c' else abortUnauthorized c', r')))))))"

subsection \<open>What passing means\<close>

text \<open>The request a handler gets behind the check: the same, with its body read into memory.\<close>

definition buffered_as :: "ctx \<Rightarrow> string \<Rightarrow> ctx \<Rightarrow> bool" where
  "buffered_as c bs c' \<longleftrightarrow> (ReqBody c = No_Body \<and> bs = [] \<and> c' = c) \<or>
     (ReqBody c \<noteq> No_Body \<and> length bs \<le> gatewayBodyLimit \<and> c' = c\<lparr>ReqBody := Body bs None\<rparr>)"

lemma buffer_body_iff:
  "buffer_body c = Buffered bs c' \<Longrightarrow> buffered_as c bs c'"
  by (auto simp: buffer_body_def buffered_as_def split: body.splits sum.splits if_splits)

lemma buffered_same [simp]:
  "buffered_as c bs c' \<Longrightarrow> Header c' = Header c" "buffered_as c bs c' \<Longrightarrow> Method c' = Method c"
  "buffered_as c bs c' \<Longrightarrow> RequestURI c' = RequestURI c"
  by (auto simp: buffered_as_def)

lemma canonical_buffered [simp]:
  "buffered_as c bs c' \<Longrightarrow> gateway_canonical c' ts x = gateway_canonical c ts x"
  by (simp add: gateway_canonical_def gateway_identity_def)

lemma gateway_passed:
  assumes "VerifyGatewaySignature secret rdb clock c r = (Next c', r')" "secret \<noteq> []"
  obtains t bs where
    "parse_int64 (Header c headerGatewayTs) = Some t" "withinGatewaySkew clock t" "buffer_body c = Buffered bs c'" "buffered_as c bs c'"
    "hex_decode (Header c headerGatewaySignature) = Some (hmac_sha256 secret (gateway_canonical c (Header c headerGatewayTs) bs))"
    "\<And>rd. rdb = Some rd \<Longrightarrow> Header c headerRequestID \<noteq> [] \<and>
       r_SetNX rd clock (replayNoncePrefix @ Header c headerRequestID) (maxGatewaySkew + 5 * second) r = (Inr True, r')"
    "rdb = None \<Longrightarrow> r' = r"
proof -
  obtain t where t: "parse_int64 (Header c headerGatewayTs) = Some t" "withinGatewaySkew clock t"
    using assms by (auto simp: VerifyGatewaySignature_def abortUnauthorized_def Let_def split: if_splits option.splits)
  obtain bs c1 where b: "buffer_body c = Buffered bs c1"
    using assms t by (cases "buffer_body c")
      (auto simp: VerifyGatewaySignature_def abortUnauthorized_def Let_def split: if_splits)
  note same = buffer_body_iff [OF b]
  have rest: "hex_decode (Header c headerGatewaySignature) =
      Some (hmac_sha256 secret (gateway_canonical c (Header c headerGatewayTs) bs)) \<and> c' = c1 \<and>
    (case rdb of None \<Rightarrow> r' = r | Some rd \<Rightarrow> Header c headerRequestID \<noteq> [] \<and>
       storeNonce rd clock (Header c headerRequestID) r = (True, r'))"
    using assms t b same
    by (auto simp: VerifyGatewaySignature_def abortUnauthorized_def computeGatewaySignature_def Let_def
        split: if_splits option.splits prod.splits)
  show thesis
    using that [of t bs] t b same rest by (auto simp: storeNonce_def split: option.splits prod.splits sum.splits)
qed

subsection \<open>What the signature binds\<close>

lemma dec_no_newline: "CHR 0x0A \<notin> set (dec n)"
  using dec_digits [of "CHR 0x0A" n] by (auto simp: is_digit_def)

lemma framed_inj: "framed x r = framed x' r' \<longleftrightarrow> x = x' \<and> r = r'"
proof
  assume e: "framed x r = framed x' r'"
  then have "dec (length x) = dec (length x') \<and> x @ CHR 0x0A # r = x' @ CHR 0x0A # r'"
    unfolding framed_def by (subst (asm) sep_first_eq) (auto simp: dec_no_newline)
  then have "length x = length x'" "x @ CHR 0x0A # r = x' @ CHR 0x0A # r'" by (simp_all add: dec_inj)
  then show "x = x' \<and> r = r'" by simp
qed simp

definition gateway_frame :: "string \<times> string \<times> string \<times> string \<Rightarrow> string" where
  "gateway_frame = (\<lambda>(m, p, h, i). framed m (framed p (framed h i)))"

interpretation gateway: signed_message gateway_frame "\<lambda>_. True"
  by unfold_locales (auto simp: gateway_frame_def framed_inj)

lemma gateway_canonical_frame:
  "gateway_canonical c ts bs =
     gateway_frame (Method c, RequestURI c, hex_encode (sha256 bs), join ''|'' (gateway_identity c ts))"
  by (simp add: gateway_canonical_def gateway_frame_def)

text \<open>C13. Two requests that pass the check under one secret with the same signature bytes have the same
  method, the same path with its query, the same body and the same identity tuple, unless SHA-256 or
  HMAC-SHA256 collides; field by field so long as no identity field contains the separator. And what the
  handler reads as the body is what was signed.\<close>

theorem gateway_signature_binds:
  assumes "secret \<noteq> []"
    and "VerifyGatewaySignature secret rdb1 clock1 c1 r1 = (Next c1', r1')"
    and "VerifyGatewaySignature secret rdb2 clock2 c2 r2 = (Next c2', r2')"
    and "hex_decode (Header c1 headerGatewaySignature) = hex_decode (Header c2 headerGatewaySignature)"
  shows "\<exists>bs1 bs2. buffered_as c1 bs1 c1' \<and> buffered_as c2 bs2 c2' \<and>
    (Method c1 = Method c2 \<and> RequestURI c1 = RequestURI c2 \<and>
     (bs1 = bs2 \<or> bs1 \<noteq> bs2 \<and> sha256 bs1 = sha256 bs2) \<and>
     join ''|'' (gateway_identity c1 (Header c1 headerGatewayTs)) =
       join ''|'' (gateway_identity c2 (Header c2 headerGatewayTs)) \<and>
     ((\<forall>x \<in> set (gateway_identity c1 (Header c1 headerGatewayTs)) \<union>
            set (gateway_identity c2 (Header c2 headerGatewayTs)). CHR ''|'' \<notin> set x) \<longrightarrow>
       gateway_identity c1 (Header c1 headerGatewayTs) = gateway_identity c2 (Header c2 headerGatewayTs)) \<or>
     hmac_collision secret (gateway_canonical c1 (Header c1 headerGatewayTs) bs1)
       (gateway_canonical c2 (Header c2 headerGatewayTs) bs2))"
proof -
  let ?t1 = "Header c1 headerGatewayTs" and ?t2 = "Header c2 headerGatewayTs"
  obtain bs1 where b1: "buffered_as c1 bs1 c1'"
    "hex_decode (Header c1 headerGatewaySignature) = Some (hmac_sha256 secret (gateway_canonical c1 ?t1 bs1))"
    by (rule gateway_passed [OF assms(2,1)])
  obtain bs2 where b2: "buffered_as c2 bs2 c2'"
    "hex_decode (Header c2 headerGatewaySignature) = Some (hmac_sha256 secret (gateway_canonical c2 ?t2 bs2))"
    by (rule gateway_passed [OF assms(3,1)])
  have "hmac_hex secret (gateway_canonical c1 ?t1 bs1) = hmac_hex secret (gateway_canonical c2 ?t2 bs2)"
    using b1(2) b2(2) assms(4) by (simp add: hmac_hex_def)
  from gateway.same_signature [OF TrueI TrueI this [unfolded gateway_canonical_frame]]
  have sig: "Method c1 = Method c2 \<and> RequestURI c1 = RequestURI c2 \<and> sha256 bs1 = sha256 bs2 \<and>
      join ''|'' (gateway_identity c1 ?t1) = join ''|'' (gateway_identity c2 ?t2) \<or>
    hmac_collision secret (gateway_canonical c1 ?t1 bs1) (gateway_canonical c2 ?t2 bs2)"
    unfolding gateway_canonical_frame by (simp add: hex_encode_inj)
  have fields: "gateway_identity c1 ?t1 = gateway_identity c2 ?t2"
    if "\<forall>x \<in> set (gateway_identity c1 ?t1) \<union> set (gateway_identity c2 ?t2). CHR ''|'' \<notin> set x"
      "join ''|'' (gateway_identity c1 ?t1) = join ''|'' (gateway_identity c2 ?t2)"
    using that join_eq_iff [of "gateway_identity c1 ?t1" "gateway_identity c2 ?t2" "CHR ''|''"]
    by (simp add: gateway_identity_def)
  have h: "bs1 = bs2 \<or> bs1 \<noteq> bs2 \<and> sha256 bs1 = sha256 bs2" if "sha256 bs1 = sha256 bs2"
    using that by simp
  show ?thesis
    by (intro exI [of _ bs1] exI [of _ bs2] conjI b1(1) b2(1)) (use sig fields h in argo)
qed

text \<open>The separator inside a field is not excluded by the framing: two different identities with one
  canonical string.\<close>

lemma identity_tuple_ambiguous:
  fixes c :: ctx
  defines "hdr x y \<equiv> (Header c)(headerUserID := x, headerKYCTier := y)"
  shows "gateway_canonical (c\<lparr>Header := hdr ''a'' ''b|c''\<rparr>) ts bs = gateway_canonical (c\<lparr>Header := hdr ''a|b'' ''c''\<rparr>) ts bs"
    and "gateway_identity (c\<lparr>Header := hdr ''a'' ''b|c''\<rparr>) ts \<noteq> gateway_identity (c\<lparr>Header := hdr ''a|b'' ''c''\<rparr>) ts"
  by (simp_all add: hdr_def gateway_canonical_def gateway_identity_def identity_headers gateway_headers
      headerRequestID_def)

subsection \<open>Freshness\<close>

lemma gateway_skew_iff:
  "withinGatewaySkew clock ts \<longleftrightarrow>
     \<bar>clock - time_unix ts\<bar> \<le> 30 * 1000000000 \<or> clock - time_unix ts \<le> - 9223372036854775808"
  by (auto simp: withinGatewaySkew_def time_sub_def neg_duration_def wrap64_def maxGatewaySkew_def
      second_def Let_def abs_if)

text \<open>C35. The time window is thirty seconds to either side of the clock, except that the saturation of
  \<open>Time.Sub\<close> and the wrap-around of negation open it again at the far end: a timestamp at least \<open>2^63\<close>
  nanoseconds (292 years) ahead of the clock is accepted, for one a timestamp of the year 2511 seen in 2023.\<close>

theorem gateway_skew_exact:
  "(withinGatewaySkew clock ts \<longleftrightarrow>
      \<bar>clock - time_unix ts\<bar> \<le> 30 * 1000000000 \<or> clock - time_unix ts \<le> - 9223372036854775808) \<and>
   withinGatewaySkew (time_unix 1700000000) 17100000000"
proof
  show "withinGatewaySkew (time_unix 1700000000) 17100000000"
    unfolding gateway_skew_iff by (simp add: time_unix_def wrap64_def unix_to_internal_def second_def)
qed (rule gateway_skew_iff)


subsection \<open>Replay\<close>

text \<open>A properly signed and fresh request passes; behind Redis, exactly when its nonce is new.\<close>

lemma gateway_accepts:
  assumes "secret \<noteq> []" "parse_int64 (Header c headerGatewayTs) = Some t" "withinGatewaySkew clock t"
    and "buffer_body c = Buffered bs c'"
    and "hex_decode (Header c headerGatewaySignature) =
      Some (hmac_sha256 secret (gateway_canonical c (Header c headerGatewayTs) bs))"
  shows "VerifyGatewaySignature secret None clock c r = (Next c', r)"
    and "Header c headerRequestID \<noteq> [] \<Longrightarrow> VerifyGatewaySignature secret (Some rd) clock c r =
      (case storeNonce rd clock (Header c headerRequestID) r of
        (ok, r') \<Rightarrow> (if ok then Next c' else abortUnauthorized c', r'))"
proof -
  have "hmac_sha256 secret m \<noteq> []" for m
  proof
    assume "hmac_sha256 secret m = []"
    then show False using length_hmac [of secret m] by simp
  qed
  then have "Header c headerGatewaySignature \<noteq> []" using assms(5) by (metis hex_decode.simps(1) option.inject)
  moreover have "Header c headerGatewayTs \<noteq> []" using assms(2) by (auto simp: parse_int64_def parse_digits_def)
  moreover note buffer_body_iff [OF assms(4)]
  ultimately show "VerifyGatewaySignature secret None clock c r = (Next c', r)"
    "Header c headerRequestID \<noteq> [] \<Longrightarrow> VerifyGatewaySignature secret (Some rd) clock c r =
      (case storeNonce rd clock (Header c headerRequestID) r of
        (ok, r') \<Rightarrow> (if ok then Next c' else abortUnauthorized c', r'))"
    using assms by (simp_all add: VerifyGatewaySignature_def computeGatewaySignature_def Let_def)
qed

definition gateway_step :: "string \<Rightarrow> 'r redis \<Rightarrow> instant \<times> ctx \<Rightarrow> 'r \<Rightarrow> verdict \<times> 'r" where
  "gateway_step secret rd a = VerifyGatewaySignature secret (Some rd) (fst a) (snd a)"

lemma gateway_step_state:
  "snd (gateway_step secret rd a r) \<in>
     {r, snd (r_SetNX rd (fst a) (replayNoncePrefix @ Header (snd a) headerRequestID) (maxGatewaySkew + 5 * second) r)}"
proof -
  have "snd (storeNonce rd t q r) = snd (r_SetNX rd t (replayNoncePrefix @ q) (maxGatewaySkew + 5 * second) r)" for t q
    by (auto simp: storeNonce_def split: prod.splits sum.splits)
  then show ?thesis using buffer_body_iff [of "snd a"]
    by (auto simp: gateway_step_def VerifyGatewaySignature_def Let_def case_prod_unfold
        split: option.splits buffered.splits)
qed

lemma nonce_kept:
  assumes "setnx_law rd expiry" "expiry r k = Some x" "e \<le> x"
  shows "\<exists>y \<ge> e. expiry (snd (run_steps (gateway_step secret rd) as r)) k = Some y"
proof -
  have "\<exists>y \<ge> e. expiry (snd (gateway_step secret rd a s)) k = Some y" if ex: "\<exists>y \<ge> e. expiry s k = Some y" for a s
  proof -
    obtain y where "expiry s k = Some y" "e \<le> y" using ex by blast
    then show ?thesis
      using gateway_step_state [of secret rd a s] setnx_keeps [OF assms(1), of "maxGatewaySkew + 5 * second"]
      by (force simp: maxGatewaySkew_def second_def)
  qed
  then show ?thesis
    using run_steps_inv [of "\<lambda>s. \<exists>y \<ge> e. expiry s k = Some y" "gateway_step secret rd" r as] assms(2,3) by blast
qed

text \<open>C7. With Redis, a captured request is worthless: once a request has passed, no request with the same
  timestamp and request id passes again, at any later time and whatever arrives in between, provided its
  timestamp was less than five seconds ahead of the clock when it was accepted.\<close>

theorem replay_refused:
  assumes "setnx_law rd expiry" "secret \<noteq> []"
    and "VerifyGatewaySignature secret (Some rd) clock c r = (Next c', r')"
    and "parse_int64 (Header c headerGatewayTs) = Some t" "time_unix t < clock + 5 * 1000000000"
    and "clock \<le> clock2" "Header c2 headerGatewayTs = Header c headerGatewayTs"
      "Header c2 headerRequestID = Header c headerRequestID"
  shows "\<exists>c'' resp s. VerifyGatewaySignature secret (Some rd) clock2 c2
      (snd (run_steps (gateway_step secret rd) as r')) = (Abort c'' resp, s)"
proof (rule ccontr)
  let ?k = "replayNoncePrefix @ Header c headerRequestID" and ?ttl = "maxGatewaySkew + 5 * second"
  let ?r = "snd (run_steps (gateway_step secret rd) as r')"
  assume "\<not> ?thesis"
  then obtain c3 r3 where v: "VerifyGatewaySignature secret (Some rd) clock2 c2 ?r = (Next c3, r3)"
    by (metis prod.exhaust verdict.exhaust)
  have "r_SetNX rd clock ?k ?ttl r = (Inr True, r')"
    by (rule gateway_passed [OF assms(3,2)]) simp
  then have first: "expiry r' ?k = Some (clock + ?ttl)" by (rule setnx_set(1) [OF assms(1)])
  obtain y where y: "clock + ?ttl \<le> y" "expiry ?r ?k = Some y"
    using nonce_kept [OF assms(1) first order_refl] by blast
  have again: "withinGatewaySkew clock2 t \<and> r_SetNX rd clock2 ?k ?ttl ?r = (Inr True, r3)"
    by (rule gateway_passed [OF v assms(2)]) (use assms(4,7,8) in simp)
  then have "\<not> key_live expiry clock2 ?k ?r" using setnx_set(2) [OF assms(1)] by blast
  moreover have "clock2 \<le> time_unix t + 30 * 1000000000"
    using again assms(5,6) withinGatewaySkew_def
    by (auto simp: withinGatewaySkew_def time_sub_def neg_duration_def wrap64_def maxGatewaySkew_def second_def
        Let_def split: if_splits)
  ultimately show False using y assms(5) by (auto simp: key_live_def maxGatewaySkew_def second_def)
qed

text \<open>The nonce does not outlive the time window when the timestamp is ahead of the clock: a request
  accepted with a timestamp between five and thirty seconds ahead passes again, unchanged, thirty-five seconds
  later.\<close>

theorem future_dated_request_replayed:
  assumes "setnx_law rd expiry" "secret \<noteq> []"
    and "\<And>t' k ttl s. \<exists>b s'. r_SetNX rd t' k ttl s = (Inr b, s')"
    and "VerifyGatewaySignature secret (Some rd) clock c r = (Next c', r')"
    and "parse_int64 (Header c headerGatewayTs) = Some t"
    and "clock + 5 * 1000000000 \<le> time_unix t" "time_unix t \<le> clock + 30 * 1000000000"
  shows "\<exists>r''. VerifyGatewaySignature secret (Some rd) (clock + 35 * 1000000000) c r' = (Next c', r'')"
proof -
  let ?k = "replayNoncePrefix @ Header c headerRequestID" and ?ttl = "maxGatewaySkew + 5 * second"
  let ?later = "clock + 35 * 1000000000"
  have ne: "Header c headerRequestID \<noteq> []" and "r_SetNX rd clock ?k ?ttl r = (Inr True, r')"
    by (rule gateway_passed [OF assms(4,2)], simp)+
  then have "expiry r' ?k = Some (clock + ?ttl)" by (intro setnx_set(1) [OF assms(1)])
  then have dead: "\<not> key_live expiry ?later ?k r'" by (simp add: key_live_def maxGatewaySkew_def second_def)
  obtain b s where s: "r_SetNX rd ?later ?k ?ttl r' = (Inr b, s)" using assms(3) by blast
  then have b: "b" using dead assms(1) unfolding setnx_law_def by blast
  obtain bs where bs: "buffer_body c = Buffered bs c'" "hex_decode (Header c headerGatewaySignature) =
      Some (hmac_sha256 secret (gateway_canonical c (Header c headerGatewayTs) bs))"
    by (rule gateway_passed [OF assms(4,2)])
  have skew: "withinGatewaySkew ?later t"
    using assms(6,7) by (auto simp: withinGatewaySkew_def time_sub_def neg_duration_def wrap64_def
        maxGatewaySkew_def second_def Let_def)
  show ?thesis using gateway_accepts(2) [OF assms(2,5) skew bs ne, of rd r'] s b by (simp add: storeNonce_def)
qed


subsection \<open>A signed request\<close>

definition plain_ctx :: ctx where
  "plain_ctx = \<lparr>Method = ''GET'', URLPath = ''/v1/me/notifications'', RequestURI = ''/v1/me/notifications'',
     Header = (\<lambda>_. []), Query = (\<lambda>_. None), Param = (\<lambda>_. []), ReqBody = No_Body, ClientIP = ''1.1.1.1'',
     Keys = (\<lambda>_. None), OutHeaders = []\<rparr>"

definition sign_ctx :: "string \<Rightarrow> string \<Rightarrow> ctx \<Rightarrow> ctx" where
  "sign_ctx secret ts c = (let h = (Header c)(headerGatewayTs := ts) in
     c\<lparr>Header := h(headerGatewaySignature := hex_encode (hmac_sha256 secret (gateway_canonical (c\<lparr>Header := h\<rparr>) ts [])))\<rparr>)"

definition sample_headers :: "string \<Rightarrow> string" where
  "sample_headers = (\<lambda>_. [])(headerUserID := ''7'', headerRequestID := ''r1'')"

text \<open>A request for user 7 with the request id \<open>r1\<close>, signed for the given second.\<close>

definition sample_ctx :: "string \<Rightarrow> ctx" where
  "sample_ctx ts = sign_ctx ''k'' ts (plain_ctx\<lparr>Header := sample_headers\<rparr>)"

lemma sample_ctx_parts:
  "Header (sample_ctx ts) headerGatewayTs = ts" "Header (sample_ctx ts) headerRequestID = ''r1''"
  "Header (sample_ctx ts) headerUserID = ''7''" "buffer_body (sample_ctx ts) = Buffered [] (sample_ctx ts)"
  "hex_decode (Header (sample_ctx ts) headerGatewaySignature) =
     Some (hmac_sha256 ''k'' (gateway_canonical (sample_ctx ts) (Header (sample_ctx ts) headerGatewayTs) []))"
  by (simp_all add: sample_ctx_def sign_ctx_def Let_def plain_ctx_def buffer_body_def gateway_headers
      headerRequestID_def identity_headers sample_headers_def gateway_canonical_def gateway_identity_def)

lemma sample_ts: "parse_int64 ''0'' = Some 0" "time_unix 0 = 0" "parse_int64 ''9'' = Some 9" "time_unix 9 = 9 * 1000000000"
  by (code_simp, simp add: time_unix_def wrap64_def unix_to_internal_def, code_simp,
      simp add: time_unix_def wrap64_def unix_to_internal_def second_def)

lemma sample_passes:
  assumes "parse_int64 ts = Some t" "withinGatewaySkew clock t"
  shows "VerifyGatewaySignature ''k'' None clock (sample_ctx ts) r = (Next (sample_ctx ts), r)"
  using gateway_accepts(1) [of "''k''" "sample_ctx ts" t clock "[]" "sample_ctx ts" r] assms
  by (simp add: sample_ctx_parts)

lemma sample_passes_redis:
  assumes "parse_int64 ts = Some t" "withinGatewaySkew clock t" "r (replayNoncePrefix @ ''r1'') = None"
  shows "VerifyGatewaySignature ''k'' (Some plain_redis) clock (sample_ctx ts) r =
    (Next (sample_ctx ts), r(replayNoncePrefix @ ''r1'' \<mapsto> clock + (maxGatewaySkew + 5 * second)))"
  using gateway_accepts(2) [of "''k''" "sample_ctx ts" t clock "[]" "sample_ctx ts" plain_redis r] assms
  by (simp add: sample_ctx_parts storeNonce_def) (simp add: plain_redis_def)

lemma gateway_signature_binds_witness:
  "VerifyGatewaySignature ''k'' None 0 (sample_ctx ''0'') () = (Next (sample_ctx ''0''), ()) \<and>
   RequestURI (sample_ctx ''0'') = ''/v1/me/notifications'' \<and> buffered_as (sample_ctx ''0'') [] (sample_ctx ''0'')"
proof -
  have p: "VerifyGatewaySignature ''k'' None 0 (sample_ctx ''0'') () = (Next (sample_ctx ''0''), ())"
    by (rule sample_passes [OF sample_ts(1)]) (simp add: gateway_skew_iff sample_ts)
  have u: "RequestURI (sample_ctx ''0'') = ''/v1/me/notifications''" "ReqBody (sample_ctx ''0'') = No_Body"
    by (simp_all add: sample_ctx_def sign_ctx_def Let_def plain_ctx_def)
  obtain bs where "buffered_as (sample_ctx ''0'') bs (sample_ctx ''0'')"
    using gateway_signature_binds [OF _ p p refl] by blast
  then have "buffered_as (sample_ctx ''0'') [] (sample_ctx ''0'')" using u(2) unfolding buffered_as_def by blast
  then show ?thesis using p u(1) by blast
qed

lemma replay_refused_witness:
  "\<exists>r. VerifyGatewaySignature ''k'' (Some plain_redis) 0 (sample_ctx ''0'') Map.empty = (Next (sample_ctx ''0''), r) \<and>
     (\<exists>c resp s. VerifyGatewaySignature ''k'' (Some plain_redis) 30000000000 (sample_ctx ''0'') r = (Abort c resp, s))"
proof -
  have s: "withinGatewaySkew 0 0" by (simp add: gateway_skew_iff sample_ts)
  note p = sample_passes_redis [OF sample_ts(1) s, of Map.empty, OF refl]
  have "snd (run_steps (gateway_step ''k'' plain_redis) [] r) = r" for r by simp
  with replay_refused [OF plain_redis_law _ p, of 0 30000000000 "sample_ctx ''0''" "[]"] p show ?thesis
    by (auto simp: sample_ctx_parts sample_ts)
qed

lemma future_dated_request_replayed_witness:
  "\<exists>r r'. VerifyGatewaySignature ''k'' (Some plain_redis) 0 (sample_ctx ''9'') Map.empty = (Next (sample_ctx ''9''), r) \<and>
     VerifyGatewaySignature ''k'' (Some plain_redis) 35000000000 (sample_ctx ''9'') r = (Next (sample_ctx ''9''), r')"
proof -
  have s: "withinGatewaySkew 0 9" by (simp add: gateway_skew_iff sample_ts)
  note p = sample_passes_redis [OF sample_ts(3) s, of Map.empty, OF refl]
  have w: "\<exists>b s'. r_SetNX plain_redis t k ttl s = (Inr b, s')" for t k ttl s
    by (simp add: plain_redis_def Let_def)
  from future_dated_request_replayed [OF plain_redis_law _ w p, of 9] p show ?thesis
    by (auto simp: sample_ctx_parts sample_ts)
qed

end
