(* ===== verification/Rate_Limit.thy ===== *)
theory Rate_Limit
  imports Middleware Redis_Client Go_Time
begin

text \<open>
  The rate limiters (\<open>internal/platform/middleware/ratelimit.go\<close>): the fixed window counted in
  Redis, the in-process token buckets it falls back to, and the per-user limiter.

  The bucket (\<open>golang.org/x/time/rate\<close>) and the bounded cache (\<open>golang-lru\<close>) are the record
  \<open>limiter_lib\<close>. The cache maps keys to pointers, so the buckets live in an explicit heap and a
  pointer is an index into it: a bucket taken from the cache is updated in place. A rate is kept as
  the limit and the window it is the quotient of.
\<close>

definition fallbackBurst :: int where "fallbackBurst = 10"

type_synonym rate = "int \<times> int"

record ('c, 'b) limiter_lib =
  lru_Get :: "string \<Rightarrow> 'c \<Rightarrow> nat option \<times> 'c"
  lru_Add :: "string \<Rightarrow> nat \<Rightarrow> 'c \<Rightarrow> 'c"
  lru_New :: "'c"
  new_limiter :: "rate \<Rightarrow> int \<Rightarrow> 'b"
  limiter_Allow :: "instant \<Rightarrow> 'b \<Rightarrow> bool \<times> 'b"

record ('c, 'b) buckets =
  b_cache :: "'c"
  b_heap :: "'b list"
  b_rate :: rate
  b_burst :: int

definition newFallbackLimiter :: "('c, 'b) limiter_lib \<Rightarrow> rate \<Rightarrow> int \<Rightarrow> ('c, 'b) buckets" where
  "newFallbackLimiter lib r burst = \<lparr>b_cache = lru_New lib, b_heap = [], b_rate = r, b_burst = burst\<rparr>"

definition allow :: "('c, 'b) limiter_lib \<Rightarrow> instant \<Rightarrow> string \<Rightarrow> ('c, 'b) buckets \<Rightarrow> bool \<times> ('c, 'b) buckets" where
  "allow lib clock key f =
     (case lru_Get lib key (b_cache f) of
        (Some a, cache) \<Rightarrow>
          (case limiter_Allow lib clock (b_heap f ! a) of
             (ok, b) \<Rightarrow> (ok, f\<lparr>b_cache := cache, b_heap := (b_heap f)[a := b]\<rparr>))
      | (None, cache) \<Rightarrow>
          let a = length (b_heap f); lim = new_limiter lib (b_rate f) (b_burst f) in
          (case limiter_Allow lib clock lim of
             (ok, b) \<Rightarrow> (ok, f\<lparr>b_cache := lru_Add lib key a cache, b_heap := b_heap f @ [b]\<rparr>)))"

subsection \<open>The fixed window\<close>

record rate_limiter =
  rl_limit :: int
  rl_window :: int
  keyFunc :: "ctx \<Rightarrow> string"

definition NewIPRateLimiterWithPrefix ::
  "('c, 'b) limiter_lib \<Rightarrow> int \<Rightarrow> int \<Rightarrow> string \<Rightarrow> rate_limiter \<times> ('c, 'b) buckets" where
  "NewIPRateLimiterWithPrefix lib limit window keyPrefix =
     (\<lparr>rl_limit = limit, rl_window = window, keyFunc = (\<lambda>c. keyPrefix @ '':'' @ ClientIP c)\<rparr>,
      newFallbackLimiter lib (limit, window) fallbackBurst)"

definition NewIPRateLimiter :: "('c, 'b) limiter_lib \<Rightarrow> int \<Rightarrow> int \<Rightarrow> rate_limiter \<times> ('c, 'b) buckets" where
  "NewIPRateLimiter lib limit window = NewIPRateLimiterWithPrefix lib limit window ''notification:rl:ip''"

definition NewServiceRateLimiter :: "('c, 'b) limiter_lib \<Rightarrow> int \<Rightarrow> int \<Rightarrow> rate_limiter \<times> ('c, 'b) buckets" where
  "NewServiceRateLimiter lib limit window =
     (\<lparr>rl_limit = limit, rl_window = window,
       keyFunc = (\<lambda>c. let sid = ServiceIDFromCtx c in
         if sid \<noteq> [] then ''notification:rl:svc:'' @ sid else ''notification:rl:svc-ip:'' @ ClientIP c)\<rparr>,
      newFallbackLimiter lib (limit, window) fallbackBurst)"

definition increment :: "'r redis \<Rightarrow> instant \<Rightarrow> rate_limiter \<Rightarrow> string \<Rightarrow> 'r \<Rightarrow> (string + int) \<times> 'r" where
  "increment rd clock rl key r = r_IncrExpireNX rd clock key (rl_window rl) r"

definition rate_limited :: response where
  "rate_limited = ErrCode 429 ''RATE_LIMITED'' ''too many requests, please try again later'' None"

definition RateLimiter_Handler ::
  "('c, 'b) limiter_lib \<Rightarrow> 'r redis option \<Rightarrow> rate_limiter \<Rightarrow> instant \<Rightarrow> ctx \<Rightarrow> 'r \<times> ('c, 'b) buckets \<Rightarrow>
   verdict \<times> 'r \<times> ('c, 'b) buckets" where
  "RateLimiter_Handler lib rdb rl clock c = (\<lambda>(r, f).
     let key = keyFunc rl c in
     case rdb of
       None \<Rightarrow> (case allow lib clock key f of
           (ok, f') \<Rightarrow> (if \<not> ok then Abort c rate_limited else Next c, r, f'))
     | Some rd \<Rightarrow> (case increment rd clock rl key r of
           (Inl e, r') \<Rightarrow> (case allow lib clock key f of
               (ok, f') \<Rightarrow> (if \<not> ok then Abort c rate_limited else Next c, r', f'))
         | (Inr count, r') \<Rightarrow> (if count > rl_limit rl then Abort c rate_limited else Next c, r', f)))"

subsection \<open>The per-user limiter\<close>

record ('c, 'b) user_limiter =
  ul_buckets :: "('c, 'b) buckets"
  limitPerMin :: int

definition NewUserRateLimiter :: "('c, 'b) limiter_lib \<Rightarrow> int \<Rightarrow> int \<Rightarrow> ('c, 'b) user_limiter" where
  "NewUserRateLimiter lib perMin burst = \<lparr>ul_buckets = \<lparr>b_cache = lru_New lib, b_heap = [],
     b_rate = (perMin, minute), b_burst = burst\<rparr>, limitPerMin = perMin\<rparr>"

definition user_allow ::
  "('c, 'b) limiter_lib \<Rightarrow> instant \<Rightarrow> string \<Rightarrow> ('c, 'b) user_limiter \<Rightarrow> bool \<times> ('c, 'b) user_limiter" where
  "user_allow lib clock key l = (case allow lib clock key (ul_buckets l) of
     (ok, f) \<Rightarrow> (ok, l\<lparr>ul_buckets := f\<rparr>))"

text \<open>Sixty seconds over the limit, rounded up, and at least one.\<close>

definition retryAfter :: "int \<Rightarrow> string" where
  "retryAfter perMin = itoa (max 1 (- ((- 60) div perMin)))"

definition UserRateLimiter_Handler ::
  "('c, 'b) limiter_lib \<Rightarrow> (uuid \<Rightarrow> string) \<Rightarrow> instant \<Rightarrow> ctx \<Rightarrow> ('c, 'b) user_limiter \<Rightarrow>
   verdict \<times> ('c, 'b) user_limiter" where
  "UserRateLimiter_Handler lib str clock c l =
     (case IdentityFromCtx c of
        None \<Rightarrow> (Next c, l)
      | Some identity \<Rightarrow>
          if Ident_UserID identity = uuid_nil then (Next c, l)
          else (case user_allow lib clock (''notification:rl:user:'' @ str (Ident_UserID identity)) l of
              (ok, l') \<Rightarrow> (if \<not> ok then Abort (c_Header ''Retry-After'' (retryAfter (limitPerMin l)) c) rate_limited
                 else Next c, l')))"

subsection \<open>The budget of a window\<close>

text \<open>The documented behaviour of \<open>INCR\<close> with \<open>EXPIRE NX\<close>: a live counter goes up by one and keeps its
  expiry (or gets one, if it had none), a dead one starts at one. \<open>counter\<close> reads a server state; a call
  that fails may have been carried out wholly, in its first half, or not at all.\<close>

definition counter_next :: "instant \<Rightarrow> int \<Rightarrow> (int \<times> instant option) option \<Rightarrow> int \<times> instant option" where
  "counter_next t ttl x = (case x of
     Some (n, Some e) \<Rightarrow> if t < e then (n + 1, Some e) else (1, Some (t + ttl))
   | Some (n, None) \<Rightarrow> (n + 1, Some (t + ttl))
   | None \<Rightarrow> (1, Some (t + ttl)))"

definition incr_law :: "'r redis \<Rightarrow> ('r \<Rightarrow> string \<Rightarrow> (int \<times> instant option) option) \<Rightarrow> bool" where
  "incr_law rd counter \<longleftrightarrow> (\<forall>t k ttl r.
     (\<forall>n r'. r_IncrExpireNX rd t k ttl r = (Inr n, r') \<longrightarrow>
        n = fst (counter_next t ttl (counter r k)) \<and>
        counter r' = (counter r)(k \<mapsto> counter_next t ttl (counter r k))) \<and>
     (\<forall>m r'. r_IncrExpireNX rd t k ttl r = (Inl m, r') \<longrightarrow>
        counter r' \<in> {counter r, (counter r)(k \<mapsto> counter_next t ttl (counter r k)),
          (counter r)(k \<mapsto> (fst (counter_next t ttl (counter r k)), None))}))"

definition limiter_step ::
  "('c, 'b) limiter_lib \<Rightarrow> 'r redis \<Rightarrow> rate_limiter \<Rightarrow> instant \<times> ctx \<Rightarrow> 'r \<times> ('c, 'b) buckets \<Rightarrow>
   bool \<times> 'r \<times> ('c, 'b) buckets" where
  "limiter_step lib rd rl a s = (case RateLimiter_Handler lib (Some rd) rl (fst a) (snd a) s of
     (v, s') \<Rightarrow> (case v of Next c \<Rightarrow> True | Abort c r \<Rightarrow> False, s'))"

lemma limiter_step_counts:
  assumes "incr_law rd counter" "\<And>t k ttl r. \<exists>n r'. r_IncrExpireNX rd t k ttl r = (Inr n, r')"
  obtains r' where "limiter_step lib rd rl (t, c) (r, f) =
      (fst (counter_next t (rl_window rl) (counter r (keyFunc rl c))) \<le> rl_limit rl, r', f)"
    "counter r' = (counter r)(keyFunc rl c \<mapsto> counter_next t (rl_window rl) (counter r (keyFunc rl c)))"
proof -
  obtain n r' where i: "r_IncrExpireNX rd t (keyFunc rl c) (rl_window rl) r = (Inr n, r')" using assms(2) by blast
  then have "n = fst (counter_next t (rl_window rl) (counter r (keyFunc rl c)))"
    "counter r' = (counter r)(keyFunc rl c \<mapsto> counter_next t (rl_window rl) (counter r (keyFunc rl c)))"
    using assms(1) unfolding incr_law_def by blast+
  then show thesis using that [of r'] i
    by (simp add: limiter_step_def RateLimiter_Handler_def increment_def Let_def)
qed

lemma window_counts_up:
  assumes "incr_law rd counter" "\<And>t k ttl r. \<exists>n r'. r_IncrExpireNX rd t k ttl r = (Inr n, r')"
    and "counter r k = Some (n, Some e)" "\<forall>(t, c) \<in> set as. keyFunc rl c = k \<and> t < e" "0 \<le> n"
  shows "fst (run_steps (limiter_step lib rd rl) as (r, f)) =
    map (\<lambda>i. n + 1 + int i \<le> rl_limit rl) [0..<length as]"
  using assms(3-5)
proof (induction as arbitrary: r f n)
  case (Cons a as)
  obtain t c where a: "a = (t, c)" by (cases a)
  obtain r' where s: "limiter_step lib rd rl (t, c) (r, f) =
      (fst (counter_next t (rl_window rl) (counter r (keyFunc rl c))) \<le> rl_limit rl, r', f)"
    "counter r' = (counter r)(keyFunc rl c \<mapsto> counter_next t (rl_window rl) (counter r (keyFunc rl c)))"
    by (rule limiter_step_counts [OF assms(1,2)])
  have c: "counter_next t (rl_window rl) (counter r (keyFunc rl c)) = (n + 1, Some e)" "keyFunc rl c = k"
    using Cons.prems a by (auto simp: counter_next_def)
  have "fst (run_steps (limiter_step lib rd rl) as (r', f)) =
      map (\<lambda>i. n + 1 + 1 + int i \<le> rl_limit rl) [0..<length as]"
    by (rule Cons.IH) (use s(2) c Cons.prems in auto)
  moreover have "[0..<length (a # as)] = 0 # map Suc [0..<length as]"
    by (simp add: map_Suc_upt upt_conv_Cons del: upt_Suc)
  ultimately show ?case using s(1) c
    by (simp add: a run_steps_Cons add.assoc del: run_steps.simps(2) upt_Suc)
qed simp


text \<open>C25. The limit is exact: while Redis answers, of the requests of one client in a window that opens with
  the first of them, exactly the first \<open>limit\<close> pass and all others are refused, in whatever order they come
  and whatever the in-process buckets hold.\<close>

theorem fixed_window_exact:
  assumes "incr_law rd counter" "\<And>t k ttl r. \<exists>n r'. r_IncrExpireNX rd t k ttl r = (Inr n, r')"
    and "\<forall>(t, c) \<in> set ((t0, c0) # as). keyFunc rl c = k \<and> t < t0 + rl_window rl"
    and "counter r k = None" "0 \<le> rl_limit rl"
  shows "fst (run_steps (limiter_step lib rd rl) ((t0, c0) # as) (r, f)) =
    map (\<lambda>i. i < nat (rl_limit rl)) [0..<Suc (length as)]"
proof -
  obtain r' where s: "limiter_step lib rd rl (t0, c0) (r, f) =
      (fst (counter_next t0 (rl_window rl) (counter r (keyFunc rl c0))) \<le> rl_limit rl, r', f)"
    "counter r' = (counter r)(keyFunc rl c0 \<mapsto> counter_next t0 (rl_window rl) (counter r (keyFunc rl c0)))"
    by (rule limiter_step_counts [OF assms(1,2)])
  have c: "counter_next t0 (rl_window rl) (counter r (keyFunc rl c0)) = (1, Some (t0 + rl_window rl))" "keyFunc rl c0 = k"
    using assms(3,4) by (auto simp: counter_next_def)
  have "fst (run_steps (limiter_step lib rd rl) as (r', f)) = map (\<lambda>i. 1 + 1 + int i \<le> rl_limit rl) [0..<length as]"
    by (rule window_counts_up [OF assms(1,2)]) (use s(2) c assms(3) in auto)
  moreover have "[0..<Suc (length as)] = 0 # map Suc [0..<length as]"
    by (simp add: map_Suc_upt upt_conv_Cons del: upt_Suc)
  ultimately show ?thesis using s(1) c assms(5)
    by (simp add: run_steps_Cons zless_nat_eq_int_zless del: run_steps.simps(2) upt_Suc) auto
qed

text \<open>The limiters' budgets are separate: no two of them, nor the replay nonces, ever use the same key.\<close>

lemma budget_keys_disjoint:
  "keyFunc (fst (NewIPRateLimiter lib l1 w1)) c1 \<noteq>
     keyFunc (fst (NewIPRateLimiterWithPrefix lib l2 w2 ''notification:rl:waitlist:ip'')) c2"
  "keyFunc (fst (NewIPRateLimiter lib l1 w1)) c1 \<noteq> keyFunc (fst (NewServiceRateLimiter lib l2 w2)) c2"
  "keyFunc (fst (NewIPRateLimiterWithPrefix lib l1 w1 ''notification:rl:waitlist:ip'')) c1 \<noteq>
     keyFunc (fst (NewServiceRateLimiter lib l2 w2)) c2"
  by (simp_all add: NewIPRateLimiter_def NewIPRateLimiterWithPrefix_def NewServiceRateLimiter_def Let_def)

text \<open>A Redis that only counts.\<close>

definition counting_redis :: "(string \<Rightarrow> (int \<times> instant option) option) redis" where
  "counting_redis = \<lparr>r_SetNX = (\<lambda>t k ttl r. (Inr True, r)),
     r_IncrExpireNX = (\<lambda>t k ttl r. (Inr (fst (counter_next t ttl (r k))), r(k \<mapsto> counter_next t ttl (r k))))\<rparr>"

lemma counting_redis_law: "incr_law counting_redis id"
  by (simp add: incr_law_def counting_redis_def)

definition no_buckets :: "(unit, unit) limiter_lib" where
  "no_buckets = \<lparr>lru_Get = (\<lambda>k c. (None, c)), lru_Add = (\<lambda>k a c. c), lru_New = (), new_limiter = (\<lambda>r b. ()),
     limiter_Allow = (\<lambda>t b. (True, b))\<rparr>"

definition any_ctx :: ctx where
  "any_ctx = \<lparr>Method = [], URLPath = [], RequestURI = [], Header = (\<lambda>_. []), Query = (\<lambda>_. None),
     Param = (\<lambda>_. []), ReqBody = No_Body, ClientIP = ''1.1.1.1'', Keys = (\<lambda>_. None), OutHeaders = []\<rparr>"

lemma fixed_window_exact_witness:
  "fst (run_steps (limiter_step no_buckets counting_redis
     (fst (NewIPRateLimiterWithPrefix no_buckets 2 minute ''notification:rl:waitlist:ip'')))
     [(5, any_ctx), (9, any_ctx), (10, any_ctx)]
     (Map.empty, snd (NewIPRateLimiterWithPrefix no_buckets 2 minute ''notification:rl:waitlist:ip''))) =
   [True, True, False]"
proof -
  define rl where "rl = fst (NewIPRateLimiterWithPrefix no_buckets 2 minute ''notification:rl:waitlist:ip'')"
  define f where "f = snd (NewIPRateLimiterWithPrefix no_buckets 2 minute ''notification:rl:waitlist:ip'')"
  have w: "\<exists>n r'. r_IncrExpireNX counting_redis t k ttl r = (Inr n, r')" for t k ttl r
    by (simp add: counting_redis_def)
  have rl: "rl_limit rl = 2" "rl_window rl = 60000000000"
    by (simp_all add: rl_def NewIPRateLimiterWithPrefix_def minute_def second_def)
  have "fst (run_steps (limiter_step no_buckets counting_redis rl)
      ((5, any_ctx) # [(9, any_ctx), (10, any_ctx)]) (Map.empty, f)) =
    map (\<lambda>i. i < nat (rl_limit rl)) [0..<Suc (length [(9::instant, any_ctx), (10, any_ctx)])]"
    by (rule fixed_window_exact [OF counting_redis_law w, where k = "keyFunc rl any_ctx"]) (simp_all add: rl)
  then show ?thesis unfolding rl_def [symmetric] f_def [symmetric]
    by (simp add: rl upt_rec del: run_steps.simps(2))
qed

text \<open>A refused user is told to come back after at least a second; nobody without an identity is limited.\<close>

lemma user_limiter_answers:
  assumes "UserRateLimiter_Handler lib str clock c l = (v, l')"
  shows "(v = Next c) \<or> (\<exists>i. IdentityFromCtx c = Some i \<and> Ident_UserID i \<noteq> uuid_nil \<and>
    v = Abort (c_Header ''Retry-After'' (itoa (max 1 (- ((- 60) div limitPerMin l)))) c) rate_limited)"
  using assms by (auto simp: UserRateLimiter_Handler_def retryAfter_def split: option.splits if_splits prod.splits)

end
