(* ===== verification/Waitlist.thy ===== *)
theory Waitlist
  imports Http Go_Conv Interfaces
begin

text \<open>
  The public waitlist (\<open>internal/domain/waitlist.go\<close>, \<open>internal/store/postgres/waitlist_store.go\<close>
  on \<open>migrations/000007\<close>, \<open>internal/handler/waitlist_handler.go\<close>): validation of a submission, the
  insert that ignores an address already listed, and the handler that must not tell the two apart.

  Binding the JSON body is an argument of the handler; \<open>lower()\<close> of the database is a field of
  \<open>pg\<close>. \<open>uuid.New()\<close> and \<open>time.Now()\<close> are arguments.
\<close>

subsection \<open>Submissions\<close>

datatype waitlist_error = ErrWaitlistInvalidEmail | ErrWaitlistInvalidInput

record waitlist_entry =
  W_ID :: uuid
  W_Email :: string
  W_Company :: "string option"
  W_InterestedIn :: "string option"
  W_Source :: "string option"
  W_CreatedAt :: instant

definition maxEmailLen :: nat where "maxEmailLen = 320"
definition maxFieldLen :: nat where "maxFieldLen = 200"

definition controlCharCheck :: "string \<Rightarrow> bool" where
  "controlCharCheck s \<longleftrightarrow>
     list_ex (\<lambda>r. r = 13 \<or> r = 10 \<or> r = 0 \<or> (r < 32 \<and> r \<noteq> 9) \<or> r = 127) (runes s)"

definition containsAt :: "string \<Rightarrow> bool" where
  "containsAt s = (case cut CHR ''@'' s of
     None \<Rightarrow> False
   | Some (local, domain) \<Rightarrow>
       if local = [] then False
       else if CHR ''@'' \<in> set domain then False
       else domain \<noteq> [] \<and> CHR ''.'' \<in> set domain)"

definition validateTextField :: "string \<Rightarrow> waitlist_error + string option" where
  "validateTextField given =
     (let v = trim_space given in
      if v = [] then Inr None
      else if controlCharCheck v then Inl ErrWaitlistInvalidInput
      else if length (runes v) > maxFieldLen then Inl ErrWaitlistInvalidInput
      else Inr (Some v))"

definition NewWaitlistEntry ::
  "uuid \<Rightarrow> instant \<Rightarrow> string \<Rightarrow> string \<Rightarrow> string \<Rightarrow> string \<Rightarrow> waitlist_error + waitlist_entry" where
  "NewWaitlistEntry fresh clock rawEmail rawCompany rawInterestedIn source =
     (let email = trim_space rawEmail in
      if email = [] then Inl ErrWaitlistInvalidEmail
      else if length email > maxEmailLen then Inl ErrWaitlistInvalidEmail
      else if controlCharCheck email then Inl ErrWaitlistInvalidInput
      else if \<not> containsAt email then Inl ErrWaitlistInvalidEmail
      else (case validateTextField rawCompany of
          Inl e \<Rightarrow> Inl e
        | Inr company \<Rightarrow> (case validateTextField rawInterestedIn of
            Inl e \<Rightarrow> Inl e
          | Inr interested \<Rightarrow> (case validateTextField source of
              Inl e \<Rightarrow> Inl e
            | Inr src \<Rightarrow> Inr \<lparr>W_ID = fresh, W_Email = email, W_Company = company,
                W_InterestedIn = interested, W_Source = src, W_CreatedAt = clock\<rparr>))))"

subsection \<open>The table\<close>

definition waitlist_stmt :: "pg \<Rightarrow> waitlist_entry \<Rightarrow> waitlist_entry list \<Rightarrow> (string + nat) \<times> waitlist_entry list" where
  "waitlist_stmt pg e s =
     (if \<exists>x \<in> set s. pg_lower pg (W_Email x) = pg_lower pg (W_Email e) then (Inr 0, s)
      else if \<exists>x \<in> set s. W_ID x = W_ID e
      then (Inl ''duplicate key value violates unique constraint waitlist_pkey'', s)
      else (Inr 1, s @ [e\<lparr>W_CreatedAt := pg_time pg (W_CreatedAt e)\<rparr>]))"

definition AddToWaitlist ::
  "pg \<Rightarrow> fault \<Rightarrow> waitlist_entry \<Rightarrow> waitlist_entry list \<Rightarrow> (string + bool) \<times> waitlist_entry list" where
  "AddToWaitlist pg f e s = (case db_exec f (waitlist_stmt pg e) s of
     (Inl m, s') \<Rightarrow> (Inl (''add to waitlist: '' @ m), s')
   | (Inr n, s') \<Rightarrow> (Inr (n = 1), s'))"

subsection \<open>The handler\<close>

definition maxWaitlistBody :: nat where "maxWaitlistBody = 8192"

record captureRequest =
  cap_email :: string
  cap_company :: string
  cap_interestedIn :: string

text \<open>What the environment contributes to one submission.\<close>

record capture_env =
  ce_id :: uuid
  ce_now :: instant
  ce_fault :: fault

definition Capture ::
  "(body \<Rightarrow> string + captureRequest) \<Rightarrow> pg \<Rightarrow> capture_env \<Rightarrow> ctx \<Rightarrow> waitlist_entry list \<Rightarrow>
   response \<times> waitlist_entry list" where
  "Capture bind pg env c s =
     (case bind (max_bytes maxWaitlistBody (ReqBody c)) of
        Inl e \<Rightarrow> (ErrCode 400 ''VALIDATION_ERROR'' ''invalid request body'' None, s)
      | Inr body \<Rightarrow>
          (case NewWaitlistEntry (ce_id env) (ce_now env) (cap_email body) (cap_company body)
              (cap_interestedIn body) ''web-form'' of
             Inl ErrWaitlistInvalidEmail \<Rightarrow> (ErrCode 400 ''VALIDATION_ERROR'' ''invalid email address'' None, s)
           | Inl ErrWaitlistInvalidInput \<Rightarrow> (ErrCode 400 ''VALIDATION_ERROR''
               ''input contains disallowed characters or exceeds length limit'' None, s)
           | Inr entry \<Rightarrow> (case AddToWaitlist pg (ce_fault env) entry s of
               (Inl e, s') \<Rightarrow> (ErrCode 500 ''INTERNAL_ERROR'' ''internal server error'' None, s')
             | (Inr created, s') \<Rightarrow>
                 (\<lparr>rs_status = 202, rs_body = Some (J_Object [(''data'', J_Object [(''ok'', J_Bool True)])])\<rparr>, s'))))"

subsection \<open>What is stored\<close>

definition clean_text :: "string \<Rightarrow> bool" where
  "clean_text s \<longleftrightarrow> (\<forall>r \<in> set (runes s). (32 \<le> r \<or> r = 9) \<and> r \<noteq> 127)"

definition email_shape :: "string \<Rightarrow> bool" where
  "email_shape s \<longleftrightarrow> (\<exists>local domain. s = local @ CHR ''@'' # domain \<and> local \<noteq> [] \<and>
     CHR ''@'' \<notin> set local \<union> set domain \<and> CHR ''.'' \<in> set domain)"

definition field_ok :: "string option \<Rightarrow> bool" where
  "field_ok t \<longleftrightarrow> (case t of None \<Rightarrow> True | Some x \<Rightarrow> x \<noteq> [] \<and> clean_text x \<and> length (runes x) \<le> 200)"

definition entry_ok :: "waitlist_entry \<Rightarrow> bool" where
  "entry_ok w \<longleftrightarrow> email_shape (W_Email w) \<and> length (W_Email w) \<le> 320 \<and> clean_text (W_Email w) \<and>
     field_ok (W_Company w) \<and> field_ok (W_InterestedIn w) \<and> field_ok (W_Source w)"

lemma clean_check: "controlCharCheck s \<longleftrightarrow> \<not> clean_text s"
proof -
  have "(r = 13 \<or> r = 10 \<or> r = 0 \<or> (r < 32 \<and> r \<noteq> 9) \<or> r = 127) = (\<not> ((32 \<le> r \<or> r = 9) \<and> r \<noteq> 127))" for r :: nat
    by auto
  then show ?thesis unfolding controlCharCheck_def clean_text_def list_ex_iff by blast
qed

lemma containsAt_iff: "containsAt s \<longleftrightarrow> email_shape s"
proof (cases "cut CHR ''@'' s")
  case None
  then have "CHR ''@'' \<notin> set s" by (simp add: cut_None_iff)
  then show ?thesis using None by (auto simp: containsAt_def email_shape_def)
next
  case (Some ab)
  obtain a b where ab: "ab = (a, b)" by (cases ab)
  have s: "s = a @ CHR ''@'' # b" "CHR ''@'' \<notin> set a" using Some ab cut_Some_iff by auto
  have "email_shape s \<longleftrightarrow> a \<noteq> [] \<and> CHR ''@'' \<notin> set b \<and> CHR ''.'' \<in> set b"
    using sep_first_eq [OF s(2)] s by (auto simp: email_shape_def)
  then show ?thesis using Some ab by (auto simp: containsAt_def)
qed

lemma validateTextField_ok: "validateTextField given = Inr t \<Longrightarrow> field_ok t"
  by (auto simp: validateTextField_def field_ok_def Let_def maxFieldLen_def clean_check split: if_splits)

lemma new_entry_ok:
  "NewWaitlistEntry i t em co ii src = Inr w \<Longrightarrow>
     entry_ok w \<and> W_ID w = i \<and> W_Email w = trim_space em \<and> W_CreatedAt w = t"
  by (auto simp: NewWaitlistEntry_def Let_def entry_ok_def containsAt_iff clean_check maxEmailLen_def
      split: if_splits sum.splits dest!: validateTextField_ok)

text \<open>Every refusal has its reason.\<close>

lemma new_entry_refused:
  "NewWaitlistEntry i t em co ii src = Inl e \<Longrightarrow>
     (e = ErrWaitlistInvalidEmail \<and>
       \<not> (email_shape (trim_space em) \<and> length (trim_space em) \<le> 320)) \<or>
     (e = ErrWaitlistInvalidInput \<and> (\<not> clean_text (trim_space em) \<or>
       (\<exists>f \<in> {co, ii, src}. \<not> clean_text (trim_space f) \<or> length (runes (trim_space f)) > 200)))"
  by (auto simp: NewWaitlistEntry_def validateTextField_def Let_def containsAt_iff clean_check maxEmailLen_def
      maxFieldLen_def email_shape_def split: if_splits sum.splits)

subsection \<open>One row per address\<close>

definition listed :: "pg \<Rightarrow> waitlist_entry list \<Rightarrow> string set" where
  "listed pg s = (\<lambda>x. pg_lower pg (W_Email x)) ` set s"

definition add_step :: "pg \<Rightarrow> fault \<times> waitlist_entry \<Rightarrow> waitlist_entry list \<Rightarrow> bool \<times> waitlist_entry list" where
  "add_step pg a s = (case AddToWaitlist pg (fst a) (snd a) s of (r, s') \<Rightarrow> (r = Inr True, s'))"

lemma add_state: "snd (AddToWaitlist pg f e s) = snd (db_exec f (waitlist_stmt pg e) s)"
  by (auto simp: AddToWaitlist_def split: prod.splits sum.splits)

lemma waitlist_stmt_cases:
  "snd (waitlist_stmt pg e s) = s \<or>
   pg_lower pg (W_Email e) \<notin> listed pg s \<and> W_ID e \<notin> W_ID ` set s \<and>
   waitlist_stmt pg e s = (Inr 1, s @ [e\<lparr>W_CreatedAt := pg_time pg (W_CreatedAt e)\<rparr>])"
  by (auto simp: waitlist_stmt_def listed_def image_iff)

lemma add_cases:
  "snd (AddToWaitlist pg f e s) = s \<or>
   pg_lower pg (W_Email e) \<notin> listed pg s \<and> W_ID e \<notin> W_ID ` set s \<and>
   snd (AddToWaitlist pg f e s) = s @ [e\<lparr>W_CreatedAt := pg_time pg (W_CreatedAt e)\<rparr>]"
  using waitlist_stmt_cases [of pg e s] by (cases f) (auto simp: add_state)

lemma add_won:
  assumes "AddToWaitlist pg f e s = (Inr True, s')"
  shows "pg_lower pg (W_Email e) \<notin> listed pg s" "s' = s @ [e\<lparr>W_CreatedAt := pg_time pg (W_CreatedAt e)\<rparr>]"
  using assms
  by (auto simp: AddToWaitlist_def waitlist_stmt_def listed_def image_iff split: sum.splits prod.splits if_splits
      dest!: db_exec_InrD)

interpretation waitlist_claims: claim_once "add_step pg" "\<lambda>a. pg_lower pg (W_Email (snd a))" "listed pg" for pg
proof
  fix a s s' assume "add_step pg a s = (True, s')"
  then have "AddToWaitlist pg (fst a) (snd a) s = (Inr True, s')"
    by (auto simp: add_step_def split: prod.splits)
  note w = add_won [OF this]
  show "pg_lower pg (W_Email (snd a)) \<notin> listed pg s" by (rule w(1))
  show "pg_lower pg (W_Email (snd a)) \<in> listed pg s'" using w(2) by (simp add: listed_def)
next
  fix a s b s' assume "add_step pg a s = (b, s')"
  then have "s' = snd (AddToWaitlist pg (fst a) (snd a) s)" by (auto simp: add_step_def split: prod.splits)
  then show "listed pg s \<subseteq> listed pg s'" using add_cases [of pg "fst a" "snd a" s] by (auto simp: listed_def)
qed

text \<open>A sequence of requests to the endpoint.\<close>

definition capture_step ::
  "(body \<Rightarrow> string + captureRequest) \<Rightarrow> pg \<Rightarrow> capture_env \<times> ctx \<Rightarrow> waitlist_entry list \<Rightarrow> response \<times> waitlist_entry list" where
  "capture_step bind pg a = Capture bind pg (fst a) (snd a)"

definition waitlist_ok :: "pg \<Rightarrow> waitlist_entry list \<Rightarrow> bool" where
  "waitlist_ok pg s \<longleftrightarrow> distinct (map (\<lambda>x. pg_lower pg (W_Email x)) s) \<and> distinct (map W_ID s) \<and> list_all entry_ok s"

lemma capture_state:
  "snd (Capture bind pg env c s) = s \<or>
   (\<exists>w. entry_ok w \<and> pg_lower pg (W_Email w) \<notin> listed pg s \<and> W_ID w \<notin> W_ID ` set s \<and>
      snd (Capture bind pg env c s) = s @ [w])"
proof -
  have keep: "entry_ok e \<Longrightarrow> entry_ok (e\<lparr>W_CreatedAt := x\<rparr>)" for e x
    by (simp add: entry_ok_def)
  have "snd (AddToWaitlist pg f e s) = s \<or> (\<exists>w. entry_ok w \<and> pg_lower pg (W_Email w) \<notin> listed pg s \<and>
      W_ID w \<notin> W_ID ` set s \<and> snd (AddToWaitlist pg f e s) = s @ [w])" if "entry_ok e" for f e
    using add_cases [of pg f e s] keep [OF that] by fastforce
  then show ?thesis
    by (auto simp: Capture_def split: sum.splits waitlist_error.splits prod.splits dest!: new_entry_ok)
      (metis snd_conv)+
qed

text \<open>C14. Whatever is submitted and whatever the database does, the waitlist only grows, by rows with a
  well-formed address, clean text of bounded length, ids of their own, and no two addresses that differ only
  in case; the row first accepted for an address stays as it is.\<close>

theorem waitlist_invariant:
  assumes "waitlist_ok pg s"
  shows "waitlist_ok pg (snd (run_steps (capture_step bind pg) as s)) \<and>
    (\<exists>ys. snd (run_steps (capture_step bind pg) as s) = s @ ys)"
proof -
  let ?P = "\<lambda>t. waitlist_ok pg t \<and> (\<exists>ys. t = s @ ys)"
  have "?P (snd (capture_step bind pg a t))" if "?P t" for a t
    using that capture_state [of bind pg "fst a" "snd a" t]
    by (auto simp: waitlist_ok_def capture_step_def listed_def)
  then show ?thesis using run_steps_inv [of ?P "capture_step bind pg" s as] assms by simp
qed

text \<open>C36. Nobody can find out who is on the list: the response to a submission does not depend on what the
  table holds. With a fresh row id (and the same fate of the statement), any two tables give the same
  response, in particular one that lists the address and one that does not.\<close>

theorem waitlist_no_enumeration:
  assumes "ce_id env \<notin> W_ID ` set s" "ce_id env \<notin> W_ID ` set t"
  shows "fst (Capture bind pg env c s) = fst (Capture bind pg env c t)"
proof -
  have res: "\<exists>n. fst (waitlist_stmt pg e u) = Inr n" if "W_ID e \<notin> W_ID ` set u" for e u
    using that by (auto simp: waitlist_stmt_def image_iff)
  have "(\<exists>m. fst (AddToWaitlist pg f e s) = Inl m \<and> fst (AddToWaitlist pg f e t) = Inl m) \<or>
      (\<exists>b b'. fst (AddToWaitlist pg f e s) = Inr b \<and> fst (AddToWaitlist pg f e t) = Inr b')"
    if "W_ID e = ce_id env" for f e
    using res [of e s] res [of e t] assms that
    by (cases f) (auto simp: AddToWaitlist_def split: prod.splits)
  note same = this
  show ?thesis
  proof (cases "bind (max_bytes maxWaitlistBody (ReqBody c))")
    case (Inr b)
    let ?new = "NewWaitlistEntry (ce_id env) (ce_now env) (cap_email b) (cap_company b) (cap_interestedIn b) ''web-form''"
    show ?thesis
    proof (cases ?new)
      case (Inl e)
      then show ?thesis using \<open>bind _ = Inr b\<close> by (cases e) (simp_all add: Capture_def)
    next
      case new: (Inr w)
      obtain x s' y t' where "AddToWaitlist pg (ce_fault env) w s = (x, s')" "AddToWaitlist pg (ce_fault env) w t = (y, t')"
        by force
      then show ?thesis using same [of w "ce_fault env"] new_entry_ok [OF new] new Inr
        by (auto simp: Capture_def)
    qed
  qed (simp add: Capture_def)
qed

definition sample_bind :: "body \<Rightarrow> string + captureRequest" where
  "sample_bind b = Inr \<lparr>cap_email = ''a@b.c'', cap_company = [], cap_interestedIn = []\<rparr>"

definition sample_capture :: "uuid \<Rightarrow> capture_env" where
  "sample_capture i = \<lparr>ce_id = i, ce_now = 5, ce_fault = NoFault\<rparr>"

definition web_ctx :: ctx where
  "web_ctx = \<lparr>Method = ''POST'', URLPath = ''/v1/waitlist'', RequestURI = ''/v1/waitlist'', Header = (\<lambda>_. []),
     Query = (\<lambda>_. None), Param = (\<lambda>_. []), ReqBody = No_Body, ClientIP = ''1.1.1.1'', Keys = (\<lambda>_. None),
     OutHeaders = []\<rparr>"

definition sample_entry :: "uuid \<Rightarrow> waitlist_entry" where
  "sample_entry i = \<lparr>W_ID = i, W_Email = ''a@b.c'', W_Company = None, W_InterestedIn = None,
     W_Source = Some ''web-form'', W_CreatedAt = 5\<rparr>"

lemma sample_entry_new: "NewWaitlistEntry i 5 ''a@b.c'' [] [] ''web-form'' = Inr (sample_entry i)"
proof -
  have t: "trim_space ''a@b.c'' = ''a@b.c''" "trim_space ''web-form'' = ''web-form''"
    by (simp_all add: ascii_eval)
  have "\<not> controlCharCheck ''a@b.c''" "\<not> controlCharCheck ''web-form''"
    by (simp_all add: controlCharCheck_def ascii_eval)
  moreover have "containsAt ''a@b.c''" by (simp add: containsAt_def)
  moreover have "length (runes ''web-form'') = 8" by (simp add: ascii_eval)
  ultimately show ?thesis
    by (simp add: NewWaitlistEntry_def validateTextField_def t sample_entry_def maxEmailLen_def maxFieldLen_def)
qed

lemma waitlist_invariant_witness:
  "waitlist_ok plain_pg (snd (run_steps (capture_step sample_bind plain_pg)
     [(sample_capture 1, web_ctx), (sample_capture 2, web_ctx)] [sample_entry 9]))"
proof -
  have "entry_ok (sample_entry 9)" using new_entry_ok [OF sample_entry_new] by simp
  then have "waitlist_ok plain_pg [sample_entry 9]" by (simp add: waitlist_ok_def)
  from waitlist_invariant [OF this] show ?thesis by blast
qed

lemma waitlist_no_enumeration_witness:
  "\<exists>r. fst (Capture sample_bind plain_pg (sample_capture 1) web_ctx []) = r \<and>
     fst (Capture sample_bind plain_pg (sample_capture 1) web_ctx [sample_entry 9]) = r \<and> rs_status r = 202"
proof -
  have "rs_status (fst (Capture sample_bind plain_pg (sample_capture 1) web_ctx [])) = 202"
    by (simp add: Capture_def sample_bind_def sample_capture_def sample_entry_new AddToWaitlist_def waitlist_stmt_def)
  then show ?thesis
    using waitlist_no_enumeration [of "sample_capture 1" "[]" "[sample_entry 9]" sample_bind plain_pg web_ctx]
    by (simp add: sample_capture_def sample_entry_def)
qed

end
