(* ===== verification/Go_Time_Parse.thy ===== *)
theory Go_Time_Parse
  imports Go_Time "HOL-Library.Monad_Syntax"
begin

text \<open>
  What \<open>time.Parse(time.RFC3339Nano, s)\<close> accepts: four digits of year, two of month and day, one or
  two of hour, two of minute and second, an optional fraction behind a point or a comma, and \<open>Z\<close> or an
  offset, each in its range (a day must exist in its month; an offset may be a full 24:60). Only whether
  parsing succeeds matters to the service. The text of every instant with a four-digit year is accepted.

  And what an RFC 3339 text in UTC says: the instant it denotes, whoever reads it.
\<close>

definition getnum :: "bool \<Rightarrow> string \<Rightarrow> (nat \<times> string) option" where
  "getnum fixed s = (case s of
     [] \<Rightarrow> None
   | c # r \<Rightarrow>
       if \<not> is_digit c then None
       else (case r of
           d # r' \<Rightarrow> if is_digit d then Some (10 * digit_val c + digit_val d, r')
             else if fixed then None else Some (digit_val c, r)
         | [] \<Rightarrow> if fixed then None else Some (digit_val c, r)))"

definition skip_char :: "char \<Rightarrow> string \<Rightarrow> string option" where
  "skip_char c s = (case s of [] \<Rightarrow> None | x # r \<Rightarrow> if x = c then Some r else None)"

definition guard :: "bool \<Rightarrow> unit option" where
  "guard b = (if b then Some () else None)"

text \<open>Of the nine digits of a fraction the missing ones are zeros.\<close>

definition read_fraction :: "string \<Rightarrow> (nat \<times> string) option" where
  "read_fraction s = (case s of
     p # r \<Rightarrow> (if p \<noteq> CHR ''.'' then Some (0, s)
       else let digits = takeWhile is_digit r in
         if digits = [] \<or> 9 < length digits then None
         else Some (undec (digits @ replicate (9 - length digits) (CHR ''0'')), dropWhile is_digit r))
   | [] \<Rightarrow> Some (0, s))"

definition skip_fraction :: "string \<Rightarrow> string" where
  "skip_fraction s = (case s of
     p # d # r \<Rightarrow> if (p = CHR ''.'' \<or> p = CHR '','') \<and> is_digit d then dropWhile is_digit r else s
   | _ \<Rightarrow> s)"

definition parse_zone :: "string \<Rightarrow> unit option" where
  "parse_zone s = (if s = ''Z'' then Some ()
     else do {
       guard (length s = 6 \<and> (hd s = CHR ''+'' \<or> hd s = CHR ''-'') \<and> s ! 3 = CHR '':'');
       (hh, _) \<leftarrow> getnum True (take 2 (drop 1 s));
       (mm, _) \<leftarrow> getnum True (drop 4 s);
       guard (hh \<le> 24 \<and> mm \<le> 60)
     })"

text \<open>A day exists in its month when the calendar gives it back.\<close>

definition valid_date :: "int \<Rightarrow> int \<Rightarrow> int \<Rightarrow> bool" where
  "valid_date y m d \<longleftrightarrow> 1 \<le> m \<and> m \<le> 12 \<and> civil_of_days (days_of_civil (Civil y m d)) = Civil y m d"

definition rfc3339nano_valid :: "string \<Rightarrow> bool" where
  "rfc3339nano_valid s = (do {
     guard (4 \<le> length s \<and> list_all is_digit (take 4 s));
     let y = undec (take 4 s);
     s \<leftarrow> skip_char CHR ''-'' (drop 4 s);
     (m, s) \<leftarrow> getnum True s;
     s \<leftarrow> skip_char CHR ''-'' s;
     (d, s) \<leftarrow> getnum True s;
     s \<leftarrow> skip_char CHR ''T'' s;
     (hh, s) \<leftarrow> getnum False s;
     guard (hh < 24);
     s \<leftarrow> skip_char CHR '':'' s;
     (mi, s) \<leftarrow> getnum True s;
     guard (mi < 60);
     s \<leftarrow> skip_char CHR '':'' s;
     (ss, s) \<leftarrow> getnum True s;
     guard (ss < 60);
     parse_zone (skip_fraction s);
     guard (valid_date (int y) (int m) (int d))
   } = Some ())"

lemma guard_True [simp]: "guard b = Some () \<longleftrightarrow> b" "guard True = Some ()" "guard False = None"
  by (simp_all add: guard_def)

lemma skip_char_Cons [simp]: "skip_char c (c # r) = Some r"
  by (simp add: skip_char_def)

lemma getnum_pad2 [simp]: "n < 100 \<Longrightarrow> getnum fixed (pad2 n @ r) = Some (n, r)"
  by (simp add: getnum_def pad2_def)

lemma skip_fraction_text:
  assumes "ns < 10 ^ 9"
  shows "skip_fraction (frac_text ns @ ''Z'') = ''Z''"
proof (cases "ns = 0")
  case True
  then show ?thesis by (simp add: frac_text_def skip_fraction_def)
next
  case False
  let ?d = "drop_zeros (pad 9 ns)"
  have dig: "list_all is_digit ?d"
    using pad_chars [of _ 9 ns] by (auto simp: drop_zeros_def list_all_iff dest: set_dropWhileD)
  have "?d \<noteq> []"
  proof
    assume "?d = []"
    then have "\<forall>c \<in> set (pad 9 ns). c = CHR ''0''" by (auto simp: drop_zeros_def)
    then have "pad 9 ns = replicate (length (pad 9 ns)) (CHR ''0'')" by (simp add: replicate_length_same)
    then have "undec (pad 9 ns) = undec (replicate (length (pad 9 ns)) (CHR ''0'') @ [])" by simp
    then have "ns = undec []" by (simp only: undec_pad undec_zeros)
    then show False using False by (simp add: undec_def)
  qed
  then obtain c r where c: "?d = c # r" by (cases ?d) auto
  then have "is_digit c" "dropWhile is_digit (r @ ''Z'') = ''Z''"
    using dig by (auto simp: list_all_iff dropWhile_append2 is_digit_def)
  then show ?thesis using False c by (simp add: frac_text_def skip_fraction_def)
qed

lemma format_valid:
  assumes "0 \<le> cyear (civil_of_days (t div day_ns))" "cyear (civil_of_days (t div day_ns)) \<le> 9999"
  shows "rfc3339nano_valid (format_rfc3339nano t)"
proof -
  let ?c = "civil_of_days (t div day_ns)"
  define k where "k = nat (t mod day_ns)"
  have k: "k < 86400000000000" by (simp add: k_def day_ns_def)
  then have clock: "k div 1000000000 div 3600 < 24" "k div 1000000000 div 60 mod 60 < 60" "k div 1000000000 mod 60 < 60"
    by auto
  define y where "y = nat (cyear ?c)"
  have y: "cyear ?c = int y" "y < 10000" using assms by (simp_all add: y_def nat_less_iff)
  have yt: "year_text (cyear ?c) = pad 4 y" by (simp add: y(1) year_text_def)
  have len: "length (pad 4 y) = 4" using y(2) by (intro length_pad) simp_all
  have dig: "list_all is_digit (pad 4 y)" using pad_chars by (auto simp: list_all_iff)
  have b: "1 \<le> cmonth ?c" "cmonth ?c \<le> 12" "1 \<le> cday ?c" "cday ?c \<le> 31" using civil_bounds [of "t div day_ns"] by auto
  have date: "valid_date (int y) (cmonth ?c) (cday ?c)"
    using b days_civil_roundtrip [of "t div day_ns"] by (simp add: valid_date_def y(1) [symmetric])
  have shape: "format_rfc3339nano t = pad 4 y @ CHR ''-'' # pad2 (nat (cmonth ?c)) @ CHR ''-'' # pad2 (nat (cday ?c)) @
      CHR ''T'' # pad2 (k div 1000000000 div 3600) @ CHR '':'' # pad2 (k div 1000000000 div 60 mod 60) @ CHR '':'' #
      pad2 (k div 1000000000 mod 60) @ frac_text (k mod 1000000000) @ ''Z''"
    by (simp add: format_rfc3339nano_def date_text_def clock_text_def yt k_def Let_def)
  have "nat (cmonth ?c) < 100" "nat (cday ?c) < 100" using b by linarith+
  then show ?thesis unfolding shape rfc3339nano_valid_def using len dig clock date b
    by (simp add: undec_pad skip_fraction_text parse_zone_def Let_def)
qed

subsection \<open>The instant a text denotes\<close>

text \<open>Years 1 to 9999, two digits for the rest, up to nine of a fraction, and \<open>Z\<close>.\<close>

definition rfc3339_instant :: "string \<Rightarrow> instant option" where
  "rfc3339_instant s = do {
     guard (4 \<le> length s \<and> list_all is_digit (take 4 s));
     let y = undec (take 4 s);
     s \<leftarrow> skip_char CHR ''-'' (drop 4 s);
     (m, s) \<leftarrow> getnum True s;
     s \<leftarrow> skip_char CHR ''-'' s;
     (d, s) \<leftarrow> getnum True s;
     s \<leftarrow> skip_char CHR ''T'' s;
     (hh, s) \<leftarrow> getnum True s;
     s \<leftarrow> skip_char CHR '':'' s;
     (mi, s) \<leftarrow> getnum True s;
     s \<leftarrow> skip_char CHR '':'' s;
     (ss, s) \<leftarrow> getnum True s;
     (ns, s) \<leftarrow> read_fraction s;
     guard (s = ''Z'' \<and> 1 \<le> y \<and> hh < 24 \<and> mi < 60 \<and> ss < 60 \<and> valid_date (int y) (int m) (int d));
     Some (days_of_civil (Civil (int y) (int m) (int d)) * day_ns + int ((hh * 3600 + mi * 60 + ss) * 1000000000 + ns))
   }"

lemma read_fraction_text:
  assumes "ns < 10 ^ 9"
  shows "read_fraction (frac_text ns @ ''Z'') = Some (ns, ''Z'')"
proof (cases "ns = 0")
  case True
  then show ?thesis by (simp add: frac_text_def read_fraction_def)
next
  case False
  let ?d = "drop_zeros (pad 9 ns)"
  have len: "length (pad 9 ns) = 9" using assms by (intro length_pad) simp_all
  have restore: "?d @ replicate (9 - length ?d) (CHR ''0'') = pad 9 ns"
    using drop_zeros_restore [of "pad 9 ns"] len by simp
  have dig: "list_all is_digit ?d"
    using pad_chars [of _ 9 ns] by (auto simp: drop_zeros_def list_all_iff dest: set_dropWhileD)
  then have "takeWhile is_digit (?d @ ''Z'') = ?d" "dropWhile is_digit (?d @ ''Z'') = ''Z''"
    by (auto simp: list_all_iff takeWhile_append2 dropWhile_append2 is_digit_def)
  moreover have "?d \<noteq> []"
  proof
    assume "?d = []"
    then have "pad 9 ns = replicate 9 (CHR ''0'') @ []" using restore by simp
    then have "ns = undec []" by (metis undec_pad undec_zeros)
    then show False using False by (simp add: undec_def)
  qed
  moreover have "length ?d \<le> 9" using restore len by (metis length_append le_add1)
  ultimately show ?thesis using False restore by (simp add: frac_text_def read_fraction_def Let_def)
qed

lemma instant_format:
  assumes "1 \<le> cyear (civil_of_days (t div day_ns))" "cyear (civil_of_days (t div day_ns)) \<le> 9999"
  shows "rfc3339_instant (format_rfc3339nano t) = Some t"
proof -
  let ?c = "civil_of_days (t div day_ns)"
  define k where "k = nat (t mod day_ns)"
  define hh mi ss ns where parts: "hh = k div 1000000000 div 3600" "mi = k div 1000000000 div 60 mod 60"
    "ss = k div 1000000000 mod 60" "ns = k mod 1000000000"
  have k: "k < 86400000000000" "int k = t mod day_ns" by (simp_all add: k_def day_ns_def)
  then have clock: "hh < 24" "mi < 60" "ss < 60" "ns < 10 ^ 9" by (auto simp: parts)
  have sum: "(hh * 3600 + mi * 60 + ss) * 1000000000 + ns = k"
  proof -
    define x where "x = k div 1000000000"
    have "x div 60 = 60 * (x div 3600) + x div 60 mod 60"
      using mult_div_mod_eq [of 60 "x div 60"] by (simp add: div_mult2_eq [symmetric])
    then have "hh * 3600 + mi * 60 + ss = x" using mult_div_mod_eq [of 60 x] unfolding parts x_def [symmetric] by linarith
    then show ?thesis by (simp add: x_def parts(4))
  qed
  define y where "y = nat (cyear ?c)"
  have y: "cyear ?c = int y" "1 \<le> y" "y < 10000" using assms by (simp_all add: y_def nat_less_iff)
  have yt: "year_text (cyear ?c) = pad 4 y" by (simp add: y(1) year_text_def)
  have len: "length (pad 4 y) = 4" using y(3) by (intro length_pad) simp_all
  have dig: "list_all is_digit (pad 4 y)" using pad_chars by (auto simp: list_all_iff)
  have b: "1 \<le> cmonth ?c" "cmonth ?c \<le> 12" "1 \<le> cday ?c" "cday ?c \<le> 31" using civil_bounds [of "t div day_ns"] by auto
  have civil: "Civil (int y) (cmonth ?c) (cday ?c) = ?c" by (simp add: y(1) [symmetric])
  have date: "valid_date (int y) (cmonth ?c) (cday ?c)"
    using b days_civil_roundtrip [of "t div day_ns"] by (simp add: valid_date_def civil)
  have shape: "format_rfc3339nano t = pad 4 y @ CHR ''-'' # pad2 (nat (cmonth ?c)) @ CHR ''-'' # pad2 (nat (cday ?c)) @
      CHR ''T'' # pad2 hh @ CHR '':'' # pad2 mi @ CHR '':'' # pad2 ss @ frac_text ns @ ''Z''"
    by (simp add: format_rfc3339nano_def date_text_def clock_text_def yt k_def parts Let_def)
  have small: "nat (cmonth ?c) < 100" "nat (cday ?c) < 100" "hh < 100" "mi < 100" "ss < 100" using b clock by linarith+
  have "rfc3339_instant (format_rfc3339nano t) =
      Some (days_of_civil ?c * day_ns + int ((hh * 3600 + mi * 60 + ss) * 1000000000 + ns))"
    unfolding shape rfc3339_instant_def using len dig clock(1-3) date b small y(2) read_fraction_text [OF clock(4)]
    by (simp add: undec_pad Let_def civil del: of_nat_add of_nat_mult)
  then show ?thesis unfolding sum by (simp add: days_civil_roundtrip k(2))
qed

end
