(* ===== verification/Inbox_Handler.thy ===== *)
theory Inbox_Handler
  imports Middleware Go_Time_Parse
begin

text \<open>
  The inbox API (\<open>internal/handler/notification_handler.go\<close>): the JSON shape of a notification, the
  pages with their cursors, and the four handlers, over the store of \<open>Notification_Store\<close>.

  \<open>zone\<close> is the offset of the process's time zone at an instant: times scanned from the database are
  in it, and the handler's layout prints the zone's clock with a literal \<open>Z\<close>. \<open>UUID.String\<close> and
  \<open>uuid.Parse\<close> are \<open>str\<close> and \<open>parse\<close>.
\<close>

subsection \<open>Responses and cursors\<close>

definition layout_text :: "(instant \<Rightarrow> int) \<Rightarrow> instant \<Rightarrow> string" where
  "layout_text zone t = format_rfc3339nano (t + zone t)"

text \<open>Fields marked \<open>omitempty\<close> are left out when empty; \<open>readAt\<close> is null instead.\<close>

definition toResponse :: "(instant \<Rightarrow> int) \<Rightarrow> notification \<Rightarrow> json_value" where
  "toResponse zone n = J_Object
     ([(''id'', J_UUID (ID n)), (''type'', J_String (Type n)), (''title'', J_String (Title n)), (''body'', J_String (notification.Body n))] @
      (case Data n of None \<Rightarrow> [] | Some d \<Rightarrow> if d = [] then [] else [(''data'', J_Raw d)]) @
      (case SourceEventID n of None \<Rightarrow> [] | Some e \<Rightarrow> [(''sourceEventId'', J_UUID e)]) @
      [(''readAt'', case ReadAt n of None \<Rightarrow> J_Null | Some t \<Rightarrow> J_String (layout_text zone t)),
       (''createdAt'', J_String (layout_text zone (CreatedAt n)))])"

definition parseCursor :: "(string \<Rightarrow> uuid option) \<Rightarrow> string \<Rightarrow> (string \<times> uuid) option" where
  "parseCursor parse cursor =
     (case cut_last CHR ''|'' cursor of
        None \<Rightarrow> None
      | Some (createdAt, idStr) \<Rightarrow>
          if \<not> rfc3339nano_valid createdAt then None
          else (case parse idStr of None \<Rightarrow> None | Some i \<Rightarrow> Some (createdAt, i)))"

definition buildCursor :: "(uuid \<Rightarrow> string) \<Rightarrow> string \<Rightarrow> uuid \<Rightarrow> string" where
  "buildCursor str createdAt i = createdAt @ ''|'' @ str i"

record page =
  pg_items :: "json_value list"
  pg_next :: string

definition page_json :: "page \<Rightarrow> json_value" where
  "page_json p = J_Object ((''items'', J_Array (pg_items p)) #
     (if pg_next p = [] then [] else [(''nextCursor'', J_String (pg_next p))]))"

subsection \<open>The handlers\<close>

definition unauthenticated :: response where
  "unauthenticated = ErrCode 401 ''UNAUTHORIZED'' ''authentication required'' None"

definition internal_error :: response where
  "internal_error = ErrCode 500 ''INTERNAL_ERROR'' ''internal server error'' None"

definition page_limit :: "ctx \<Rightarrow> int" where
  "page_limit c =
     (case parse_int64 (case Query c ''limit'' of None \<Rightarrow> ''20'' | Some s \<Rightarrow> s) of
        None \<Rightarrow> 20
      | Some l \<Rightarrow> if l \<le> 0 \<or> l > 100 then 20 else l)"

definition make_page :: "(uuid \<Rightarrow> string) \<Rightarrow> (instant \<Rightarrow> int) \<Rightarrow> int \<Rightarrow> notification list \<Rightarrow> page" where
  "make_page str zone limit rows = \<lparr>pg_items = map (toResponse zone) rows,
     pg_next = (if int (length rows) = limit
       then buildCursor str (layout_text zone (CreatedAt (last rows))) (ID (last rows)) else [])\<rparr>"

record inbox_env =
  ie_str :: "uuid \<Rightarrow> string"
  ie_parse :: "string \<Rightarrow> uuid option"
  ie_zone :: "instant \<Rightarrow> int"
  ie_fault :: fault
  ie_reading :: reading
  ie_now :: instant

definition List_Handler :: "pg \<Rightarrow> inbox_env \<Rightarrow> ctx \<Rightarrow> inbox \<Rightarrow> response \<times> inbox" where
  "List_Handler pg env c s =
     (case IdentityFromCtx c of
        None \<Rightarrow> (unauthenticated, s)
      | Some identity \<Rightarrow>
          let limit = page_limit c;
              params = \<lparr>LP_UserID = Ident_UserID identity, LP_CursorCreatedAt = None, LP_CursorID = None, LP_Limit = limit\<rparr>;
              cursor = (case Query c ''cursor'' of None \<Rightarrow> [] | Some s \<Rightarrow> s)
          in case (if cursor \<noteq> [] then map_option Some (parseCursor (ie_parse env) cursor) else Some None) of
               None \<Rightarrow> (ErrCode 400 ''VALIDATION_ERROR'' ''invalid cursor'' None, s)
             | Some given \<Rightarrow>
                 let params = (case given of None \<Rightarrow> params
                       | Some (createdAt, i) \<Rightarrow> params\<lparr>LP_CursorCreatedAt := Some createdAt, LP_CursorID := Some i\<rparr>)
                 in case List pg (ie_fault env) (ie_reading env) params s of
                      (Inl e, s') \<Rightarrow> (internal_error, s')
                    | (Inr rows, s') \<Rightarrow> (httpx_OK (page_json (make_page (ie_str env) (ie_zone env) limit rows)), s'))"

definition UnreadCount_Handler :: "inbox_env \<Rightarrow> ctx \<Rightarrow> inbox \<Rightarrow> response \<times> inbox" where
  "UnreadCount_Handler env c s =
     (case IdentityFromCtx c of
        None \<Rightarrow> (unauthenticated, s)
      | Some identity \<Rightarrow> (case UnreadCount (ie_fault env) (Ident_UserID identity) s of
          (Inl e, s') \<Rightarrow> (internal_error, s')
        | (Inr n, s') \<Rightarrow> (httpx_OK (J_Object [(''count'', J_Int n)]), s')))"

definition MarkRead_Handler :: "pg \<Rightarrow> inbox_env \<Rightarrow> ctx \<Rightarrow> inbox \<Rightarrow> response \<times> inbox" where
  "MarkRead_Handler pg env c s =
     (case IdentityFromCtx c of
        None \<Rightarrow> (unauthenticated, s)
      | Some identity \<Rightarrow> (case ie_parse env (Param c ''id'') of
          None \<Rightarrow> (ErrCode 400 ''VALIDATION_ERROR'' ''invalid notification id'' None, s)
        | Some i \<Rightarrow> (case MarkRead pg (ie_fault env) (ie_now env) i (Ident_UserID identity) s of
            (Inl e, s') \<Rightarrow> (Err e, s')
          | (Inr u, s') \<Rightarrow> (NoContent, s'))))"

definition MarkAllRead_Handler :: "pg \<Rightarrow> inbox_env \<Rightarrow> ctx \<Rightarrow> inbox \<Rightarrow> response \<times> inbox" where
  "MarkAllRead_Handler pg env c s =
     (case IdentityFromCtx c of
        None \<Rightarrow> (unauthenticated, s)
      | Some identity \<Rightarrow> (case MarkAllRead pg (ie_fault env) (ie_now env) (Ident_UserID identity) s of
          (Inl e, s') \<Rightarrow> (internal_error, s')
        | (Inr u, s') \<Rightarrow> (NoContent, s')))"

subsection \<open>Cursors round trip\<close>

definition plain_year :: "instant \<Rightarrow> bool" where
  "plain_year t \<longleftrightarrow> cyear (civil_of_days (t div day_ns)) \<in> {0..9999}"

lemma parse_buildCursor:
  assumes "uuid_codec str parse" "plain_year (t + zone t)"
  shows "parseCursor parse (buildCursor str (layout_text zone t) i) = Some (layout_text zone t, i)"
proof -
  have "cut_last CHR ''|'' (layout_text zone t @ CHR ''|'' # str i) = Some (layout_text zone t, str i)"
    using assms(1) by (simp add: cut_last_Some_iff no_bar)
  then show ?thesis using format_valid [of "t + zone t"] assms uuid_codec_parse [OF assms(1)]
    by (simp add: parseCursor_def buildCursor_def layout_text_def plain_year_def)
qed

lemma buildCursor_nonempty [simp]: "buildCursor str t i \<noteq> []"
  by (simp add: buildCursor_def)

subsection \<open>Walking the pages\<close>

text \<open>A client that asks for \<open>n\<close> at a time, from the start and then at each cursor it is given.\<close>

definition list_ctx :: "string option \<Rightarrow> string \<Rightarrow> ctx \<Rightarrow> ctx" where
  "list_ctx cursor limit c = c\<lparr>Query := (Query c)(''limit'' \<mapsto> limit, ''cursor'' := cursor)\<rparr>"

definition page_of :: "response \<Rightarrow> page option" where
  "page_of r = (case rs_body r of
     Some (J_Object [(d, J_Object ((i, J_Array xs) # rest))]) \<Rightarrow> Some \<lparr>pg_items = xs,
       pg_next = (case rest of [(k, J_String s)] \<Rightarrow> s | _ \<Rightarrow> [])\<rparr>
   | _ \<Rightarrow> None)"

lemma page_of_OK: "page_of (httpx_OK (page_json p)) = Some p"
  by (simp add: page_of_def httpx_OK_def page_json_def)

fun walk :: "nat \<Rightarrow> pg \<Rightarrow> inbox_env \<Rightarrow> string \<Rightarrow> ctx \<Rightarrow> inbox \<Rightarrow> string option \<Rightarrow> json_value list option" where
  "walk 0 pg env limit c s cursor = None"
| "walk (Suc n) pg env limit c s cursor =
     (case page_of (fst (List_Handler pg env (list_ctx cursor limit c) s)) of
        None \<Rightarrow> None
      | Some p \<Rightarrow> if pg_next p = [] then Some (pg_items p)
          else map_option (\<lambda>xs. pg_items p @ xs) (walk n pg env limit c s (Some (pg_next p))))"

lemma list_ctx_identity [simp]: "IdentityFromCtx (list_ctx cursor limit c) = IdentityFromCtx c"
proof -
  have "Keys (list_ctx cursor limit c) = Keys c" by (simp add: list_ctx_def)
  then show ?thesis by (simp only: IdentityFromCtx_def)
qed

definition cursor_at :: "inbox_env \<Rightarrow> inbox \<Rightarrow> nat \<Rightarrow> string option" where
  "cursor_at env w k = (if k = 0 then None
     else Some (buildCursor (ie_str env) (layout_text (ie_zone env) (CreatedAt (w ! (k - 1)))) (ID (w ! (k - 1)))))"

text \<open>What the walk needs of its surroundings. Postgres casts an RFC 3339 text to the instant it denotes, rounded to
  the resolution of \<open>timestamptz\<close>; the times in the table have that resolution, as any stored time has, and years
  from 1 to 9999; and the process runs in UTC.\<close>

definition casts_rfc3339 :: "pg \<Rightarrow> bool" where
  "casts_rfc3339 pg \<longleftrightarrow> (\<forall>text t. rfc3339_instant text = Some t \<longrightarrow> pg_cast_time pg text = Some (pg_time pg t))"

definition common_year :: "instant \<Rightarrow> bool" where
  "common_year t \<longleftrightarrow> 1 \<le> cyear (civil_of_days (t div day_ns)) \<and> cyear (civil_of_days (t div day_ns)) \<le> 9999"

definition stored_times :: "pg \<Rightarrow> inbox \<Rightarrow> bool" where
  "stored_times pg s \<longleftrightarrow> list_all (\<lambda>n. pg_time pg (CreatedAt n) = CreatedAt n \<and> common_year (CreatedAt n)) s"

lemma cursor_cast:
  assumes "casts_rfc3339 pg" "stored_times pg s" "n \<in> set s" "zone (CreatedAt n) = 0"
  shows "plain_year (CreatedAt n + zone (CreatedAt n))" "pg_cast_time pg (layout_text zone (CreatedAt n)) = Some (CreatedAt n)"
proof -
  have t: "pg_time pg (CreatedAt n) = CreatedAt n" "common_year (CreatedAt n)"
    using assms(2,3) by (simp_all add: stored_times_def list_all_iff)
  then show "plain_year (CreatedAt n + zone (CreatedAt n))" using assms(4) by (simp add: plain_year_def common_year_def)
  have "rfc3339_instant (layout_text zone (CreatedAt n)) = Some (CreatedAt n)"
    using instant_format [of "CreatedAt n"] t(2) assms(4) by (simp add: layout_text_def common_year_def)
  then show "pg_cast_time pg (layout_text zone (CreatedAt n)) = Some (CreatedAt n)"
    using assms(1) t(1) by (simp add: casts_rfc3339_def)
qed

lemma set_whole_inbox: "n \<in> set (whole_inbox u s) \<Longrightarrow> n \<in> set s"
  by (simp add: whole_inbox_def owned_def)

lemma List_Handler_start:
  assumes "IdentityFromCtx c = Some i" "page_limit c = l" "1 \<le> l" "l \<le> 100" "Query c ''cursor'' = None"
    and "ie_fault env = NoFault" "ie_reading env = clean_reading"
  shows "List_Handler pg env c s = (httpx_OK (page_json (make_page (ie_str env) (ie_zone env) l
    (select_after (Ident_UserID i) None (nat l) s))), s)"
  using assms by (simp add: List_Handler_def List_def list_stmt_def clamp_limit_def)

lemma List_Handler_after:
  assumes "IdentityFromCtx c = Some i" "page_limit c = l" "1 \<le> l" "l \<le> 100"
    and "Query c ''cursor'' = Some cur" "cur \<noteq> []" "parseCursor (ie_parse env) cur = Some (t, u)"
    and "pg_cast_time pg t = Some x" "ie_fault env = NoFault" "ie_reading env = clean_reading"
  shows "List_Handler pg env c s = (httpx_OK (page_json (make_page (ie_str env) (ie_zone env) l
    (select_after (Ident_UserID i) (Some (Page_Key x u)) (nat l) s))), s)"
  using assms by (simp add: List_Handler_def List_def list_stmt_def clamp_limit_def)

lemma list_page:
  assumes "IdentityFromCtx c = Some i" "parse_int64 limit = Some l" "1 \<le> l" "l \<le> 100"
    and "ie_fault env = NoFault" "ie_reading env = clean_reading" "uuid_codec (ie_str env) (ie_parse env)"
    and "inbox_ok s" "casts_rfc3339 pg" "stored_times pg s" "ie_zone env = (\<lambda>_. 0)"
    and "k \<le> length (whole_inbox (Ident_UserID i) s)"
  shows "page_of (fst (List_Handler pg env (list_ctx (cursor_at env (whole_inbox (Ident_UserID i) s) k) limit c) s)) =
    Some (make_page (ie_str env) (ie_zone env) l (take (nat l) (drop k (whole_inbox (Ident_UserID i) s))))"
proof (cases k)
  case 0
  have lim: "page_limit (list_ctx cursor limit c) = l" for cursor using assms(2-4) by (simp add: page_limit_def list_ctx_def)
  have "Query (list_ctx None limit c) ''cursor'' = None" by (simp add: list_ctx_def)
  then show ?thesis
    using List_Handler_start [OF _ lim assms(3,4) _ assms(5,6), of None i pg s] assms(1) 0
    by (simp add: cursor_at_def page_of_OK select_first)
next
  case (Suc j)
  let ?w = "whole_inbox (Ident_UserID i) s"
  let ?t = "layout_text (ie_zone env) (CreatedAt (?w ! j))"
  have lim: "page_limit (list_ctx cursor limit c) = l" for cursor using assms(2-4) by (simp add: page_limit_def list_ctx_def)
  have j: "j < length ?w" using Suc assms(12) by simp
  then have "?w ! j \<in> set s" by (rule set_whole_inbox [OF nth_mem])
  then have r: "plain_year (CreatedAt (?w ! j) + ie_zone env (CreatedAt (?w ! j)))"
      "pg_cast_time pg ?t = Some (CreatedAt (?w ! j))"
    using cursor_cast [OF assms(9,10), of _ "ie_zone env"] assms(11) by simp_all
  have q: "Query (list_ctx (cursor_at env ?w k) limit c) ''cursor'' = Some (buildCursor (ie_str env) ?t (ID (?w ! j)))"
    by (simp add: list_ctx_def cursor_at_def Suc)
  have pc: "parseCursor (ie_parse env) (buildCursor (ie_str env) ?t (ID (?w ! j))) = Some (?t, ID (?w ! j))"
    by (rule parse_buildCursor) (use assms(7) r(1) in simp_all)
  have "distinct (map ID s)" using assms(8) by (simp add: inbox_ok_def)
  then have sel: "select_after (Ident_UserID i) (Some (Page_Key (CreatedAt (?w ! j)) (ID (?w ! j)))) m s = take m (drop k ?w)" for m
    using select_next [OF _ j, of m] by (simp add: page_key_def Suc)
  have "List_Handler pg env (list_ctx (cursor_at env ?w k) limit c) s =
      (httpx_OK (page_json (make_page (ie_str env) (ie_zone env) l
        (select_after (Ident_UserID i) (Some (Page_Key (CreatedAt (?w ! j)) (ID (?w ! j)))) (nat l) s))), s)"
    by (rule List_Handler_after [OF _ lim assms(3,4) q _ pc r(2) assms(5,6)]) (simp_all add: assms(1))
  then show ?thesis by (simp only: sel fst_conv page_of_OK)
qed

lemma next_cursor:
  assumes "1 \<le> l" "k \<le> length w"
  shows "pg_next (make_page str zone l (take (nat l) (drop k w))) =
    (if int (length w - k) < l then [] else
       buildCursor str (layout_text zone (CreatedAt (w ! (k + nat l - 1)))) (ID (w ! (k + nat l - 1))))"
proof -
  have "last (take (nat l) (drop k w)) = w ! (k + nat l - 1)" if "\<not> int (length w - k) < l"
  proof -
    have "take (nat l) (drop k w) \<noteq> []" using assms that by auto
    moreover have "nat l \<le> length w - k" using that assms by linarith
    ultimately show ?thesis using assms by (simp add: last_conv_nth min_absorb2)
  qed
  then show ?thesis using assms by (auto simp: make_page_def min_def)
qed

lemma walk_from:
  assumes "IdentityFromCtx c = Some i" "parse_int64 limit = Some l" "1 \<le> l" "l \<le> 100"
    and "ie_fault env = NoFault" "ie_reading env = clean_reading" "uuid_codec (ie_str env) (ie_parse env)"
    and "inbox_ok s" "casts_rfc3339 pg" "stored_times pg s" "ie_zone env = (\<lambda>_. 0)"
    and "k \<le> length (whole_inbox (Ident_UserID i) s)"
    and "length (whole_inbox (Ident_UserID i) s) - k < n * nat l"
  shows "walk n pg env limit c s (cursor_at env (whole_inbox (Ident_UserID i) s) k) =
    Some (map (toResponse (ie_zone env)) (drop k (whole_inbox (Ident_UserID i) s)))"
  using assms(12,13)
proof (induction n arbitrary: k)
  case (Suc n)
  let ?w = "whole_inbox (Ident_UserID i) s"
  note page = list_page [OF assms(1-11) Suc.prems(1)]
  show ?case
  proof (cases "int (length ?w - k) < l")
    case True
    then have "pg_next (make_page (ie_str env) (ie_zone env) l (take (nat l) (drop k ?w))) = []"
      using next_cursor [OF assms(3) Suc.prems(1)] by simp
    then show ?thesis using page True by (simp add: make_page_def)
  next
    case False
    let ?k = "k + nat l"
    have k: "?k \<le> length ?w" "length ?w - ?k < n * nat l" "?k \<noteq> 0"
      using False Suc.prems assms(3) by auto
    have "pg_next (make_page (ie_str env) (ie_zone env) l (take (nat l) (drop k ?w))) = the (cursor_at env ?w ?k)"
      using next_cursor [OF assms(3) Suc.prems(1)] False k(3) by (simp only: cursor_at_def if_False option.sel)
    moreover have "cursor_at env ?w ?k \<noteq> None" "the (cursor_at env ?w ?k) \<noteq> []"
      using k(3) by (simp_all only: cursor_at_def if_False option.sel buildCursor_nonempty) simp_all
    moreover have "take (nat l) (drop k ?w) @ drop ?k ?w = drop k ?w" by (metis append_take_drop_id drop_drop add.commute)
    then have "map (toResponse (ie_zone env)) (take (nat l) (drop k ?w)) @ map (toResponse (ie_zone env)) (drop ?k ?w) =
        map (toResponse (ie_zone env)) (drop k ?w)" by (metis map_append)
    ultimately show ?thesis using page Suc.IH [OF k(1,2)] by (simp add: make_page_def)
  qed
qed simp

text \<open>C17. Paging loses nothing and repeats nothing. In a process whose time zone is UTC (in another the layout prints
  a wrong clock), a client that asks for pages of 1 to 100 notifications of an inbox that does not change meanwhile,
  and follows each \<open>nextCursor\<close>, gets after at most one request more than the inbox has full pages exactly the list
  of its notifications newest first, as the response shape of each. Of Postgres it needs that a cast to
  \<open>timestamptz\<close> reads an RFC 3339 text as the instant it denotes, rounded to the column's resolution, and that the
  stored times have that resolution and years from 1 to 9999: the cursor is the text of the last row's time to the
  last digit, and casts back to it.\<close>

theorem pages_cover_the_inbox:
  assumes "IdentityFromCtx c = Some i" "parse_int64 limit = Some l" "1 \<le> l" "l \<le> 100"
    and "ie_fault env = NoFault" "ie_reading env = clean_reading" "uuid_codec (ie_str env) (ie_parse env)"
    and "inbox_ok s" "casts_rfc3339 pg" "stored_times pg s" "ie_zone env = (\<lambda>_. 0)"
  shows "walk (Suc (length (whole_inbox (Ident_UserID i) s) div nat l)) pg env limit c s None =
    Some (map (toResponse (ie_zone env)) (whole_inbox (Ident_UserID i) s))"
proof -
  let ?w = "whole_inbox (Ident_UserID i) s"
  have "length ?w < Suc (length ?w div nat l) * nat l"
    using assms(3) dividend_less_div_times [of "nat l" "length ?w"] by simp
  then show ?thesis
    using walk_from [OF assms, of 0 "Suc (length ?w div nat l)"] by (simp add: cursor_at_def)
qed

definition two_rows :: inbox where
  "two_rows = [sample_row 1 1 None, (sample_row 2 1 None)\<lparr>CreatedAt := 1000\<rparr>]"

definition utc_env :: inbox_env where
  "utc_env = \<lparr>ie_str = dec_uuid, ie_parse = undec_uuid, ie_zone = (\<lambda>_. 0), ie_fault = NoFault,
     ie_reading = clean_reading, ie_now = 0\<rparr>"

text \<open>Two notifications a microsecond apart.\<close>

definition utc_pg :: pg where
  "utc_pg = plain_pg\<lparr>pg_cast_time := rfc3339_instant\<rparr>"

definition inbox_ctx :: ctx where
  "inbox_ctx = \<lparr>Method = ''GET'', URLPath = ''/v1/me/notifications'', RequestURI = ''/v1/me/notifications'',
     Header = (\<lambda>_. []), Query = Map.empty, Param = (\<lambda>_. []), ReqBody = No_Body, ClientIP = [],
     Keys = [ctxKeyUserID \<mapsto> V_UUID 1], OutHeaders = []\<rparr>"

lemma pages_cover_the_inbox_witness:
  "walk 3 utc_pg utc_env ''1'' inbox_ctx two_rows None =
     Some [toResponse (\<lambda>_. 0) ((sample_row 2 1 None)\<lparr>CreatedAt := 1000\<rparr>), toResponse (\<lambda>_. 0) (sample_row 1 1 None)]"
proof -
  obtain i where i: "IdentityFromCtx inbox_ctx = Some i" "Ident_UserID i = 1"
    by (simp add: IdentityFromCtx_def inbox_ctx_def)
  have one: "parse_int64 ''1'' = Some 1" by code_simp
  have year: "common_year 0" "common_year 1000" by (simp_all add: common_year_def day_ns_def) code_simp+
  have ok: "inbox_ok two_rows" by (simp add: inbox_ok_def two_rows_def sample_defs)
  have cast: "casts_rfc3339 utc_pg" by (simp add: casts_rfc3339_def utc_pg_def plain_pg_def)
  have "stored_times utc_pg two_rows" using year
    by (simp add: stored_times_def two_rows_def utc_pg_def plain_pg_def sample_row_def)
  note w = pages_cover_the_inbox [OF i(1) one _ _ _ _ _ ok cast this]
  have "whole_inbox 1 two_rows = [(sample_row 2 1 None)\<lparr>CreatedAt := 1000\<rparr>, sample_row 1 1 None]"
    by (simp add: whole_inbox_def owned_def two_rows_def sample_row_def newest_first_def page_key_def less_eq_page_key_def)
  then show ?thesis using w
    by (simp add: i(2) utc_env_def dec_uuid_codec eval_nat_numeral del: walk.simps)
qed

end
