(* ===== verification/Go_Regexp.thy ===== *)
theory Go_Regexp
  imports Go_Conv
begin

text \<open>
  The fragment of Go's \<open>regexp\<close> the service's patterns use: classes of runes, sequences,
  alternatives, optional parts and greedy repetition of a class. \<open>runs r xs\<close> is what every way
  of matching \<open>r\<close> at the start of \<open>xs\<close> leaves over, in the order the leftmost-first semantics
  prefers them; the match the package reports is the first. Text is read as runes, an invalid
  byte as U+FFFD, and rewritten as the bytes it was read from.
\<close>

datatype rx =
    Eps
  | Cls "nat \<Rightarrow> bool"
  | Many "nat \<Rightarrow> bool"
  | Seq rx rx
  | Alt rx rx
  | Opt rx

fun many :: "(nat \<Rightarrow> bool) \<Rightarrow> chunk list \<Rightarrow> chunk list list" where
  "many p [] = [[]]"
| "many p (x # xs) = (if p (fst x) then many p xs @ [x # xs] else [x # xs])"

fun runs :: "rx \<Rightarrow> chunk list \<Rightarrow> chunk list list" where
  "runs Eps xs = [xs]"
| "runs (Cls p) xs = (case xs of [] \<Rightarrow> [] | x # ys \<Rightarrow> if p (fst x) then [ys] else [])"
| "runs (Many p) xs = many p xs"
| "runs (Seq a b) xs = concat (map (runs b) (runs a xs))"
| "runs (Alt a b) xs = runs a xs @ runs b xs"
| "runs (Opt a) xs = runs a xs @ [xs]"

text \<open>\<open>ReplaceAllString\<close> for a pattern that matches no empty text and a replacement without
  \<open>$\<close>: every leftmost match gives way to the replacement, and the scan goes on behind it.\<close>

function replace_chunks :: "rx \<Rightarrow> chunk list \<Rightarrow> chunk list \<Rightarrow> chunk list" where
  "replace_chunks r rep [] = []"
| "replace_chunks r rep (x # xs) =
     (case runs r (x # xs) of
        [] \<Rightarrow> x # replace_chunks r rep xs
      | rest # _ \<Rightarrow> if length rest \<le> length xs then rep @ replace_chunks r rep rest
                    else x # replace_chunks r rep xs)"
  by pat_completeness auto
termination by (relation "measure (\<lambda>(r, rep, xs). length xs)") auto

definition ReplaceAllString :: "rx \<Rightarrow> string \<Rightarrow> string \<Rightarrow> string" where
  "ReplaceAllString r s rep = raw (replace_chunks r (chunks rep) (chunks s))"

text \<open>\<open>MatchString\<close>: a match somewhere.\<close>

fun occurs :: "rx \<Rightarrow> chunk list \<Rightarrow> bool" where
  "occurs r [] \<longleftrightarrow> runs r [] \<noteq> []"
| "occurs r (x # xs) \<longleftrightarrow> runs r (x # xs) \<noteq> [] \<or> occurs r xs"

definition MatchString :: "rx \<Rightarrow> string \<Rightarrow> bool" where
  "MatchString r s \<longleftrightarrow> occurs r (chunks s)"

subsection \<open>Patterns\<close>

definition rune_of :: "char \<Rightarrow> nat" where
  "rune_of c = of_char c"

definition lit :: "string \<Rightarrow> rx" where
  "lit s = foldr (\<lambda>c r. Seq (Cls (\<lambda>x. x = rune_of c)) r) s Eps"

text \<open>A literal under \<open>(?i)\<close>.\<close>

definition ilit :: "string \<Rightarrow> rx" where
  "ilit s = foldr (\<lambda>c r. Seq (Cls (\<lambda>x. fold_rune x = fold_rune (rune_of c))) r) s Eps"

definition plus :: "(nat \<Rightarrow> bool) \<Rightarrow> rx" where
  "plus p = Seq (Cls p) (Many p)"

fun at_least :: "nat \<Rightarrow> (nat \<Rightarrow> bool) \<Rightarrow> rx" where
  "at_least 0 p = Many p"
| "at_least (Suc n) p = Seq (Cls p) (at_least n p)"

fun exactly :: "nat \<Rightarrow> (nat \<Rightarrow> bool) \<Rightarrow> rx" where
  "exactly 0 p = Eps"
| "exactly (Suc n) p = Seq (Cls p) (exactly n p)"

definition one_of :: "string \<Rightarrow> nat \<Rightarrow> bool" where
  "one_of s r \<longleftrightarrow> r \<in> set (map rune_of s)"

definition rx_space :: "nat \<Rightarrow> bool" where
  "rx_space r \<longleftrightarrow> r \<in> {9, 10, 12, 13, 32}"

definition between :: "nat \<Rightarrow> nat \<Rightarrow> nat \<Rightarrow> bool" where
  "between a b r \<longleftrightarrow> a \<le> r \<and> r \<le> b"

definition rx_digit :: "nat \<Rightarrow> bool" where "rx_digit = between 48 57"
definition rx_upper :: "nat \<Rightarrow> bool" where "rx_upper = between 65 90"
definition rx_lower :: "nat \<Rightarrow> bool" where "rx_lower = between 97 122"

definition rx_alnum :: "nat \<Rightarrow> bool" where
  "rx_alnum r \<longleftrightarrow> rx_digit r \<or> rx_upper r \<or> rx_lower r"

lemmas rx_defs = rune_of_def one_of_def rx_space_def between_def rx_digit_def rx_upper_def
  rx_lower_def rx_alnum_def

subsection \<open>Locality of matching\<close>

text \<open>The runes a pattern can match.\<close>

fun accepts :: "rx \<Rightarrow> nat \<Rightarrow> bool" where
  "accepts Eps c \<longleftrightarrow> False"
| "accepts (Cls p) c \<longleftrightarrow> p c"
| "accepts (Many p) c \<longleftrightarrow> p c"
| "accepts (Seq a b) c \<longleftrightarrow> accepts a c \<or> accepts b c"
| "accepts (Alt a b) c \<longleftrightarrow> accepts a c \<or> accepts b c"
| "accepts (Opt a) c \<longleftrightarrow> accepts a c"

lemma runs_stop:
  "\<not> accepts r (fst c) \<Longrightarrow> runs r (xs @ c # ys) = map (\<lambda>z. z @ c # ys) (runs r xs)"
proof (induction r arbitrary: xs)
  case (Cls p)
  then show ?case by (cases xs) auto
next
  case (Many p)
  have "many p (xs @ c # ys) = map (\<lambda>z. z @ c # ys) (many p xs)"
    using Many by (induction xs) auto
  then show ?case by simp
next
  case (Seq a b)
  then show ?case by (simp add: map_concat o_def)
qed simp_all

lemma runs_mono: "z \<in> set (runs r xs) \<Longrightarrow> z @ ys \<in> set (runs r (xs @ ys))"
proof (induction r arbitrary: xs z)
  case (Cls p)
  then show ?case by (auto split: list.splits if_splits)
next
  case (Many p)
  have "z \<in> set (many p xs) \<Longrightarrow> z @ ys \<in> set (many p (xs @ ys))"
  proof (induction xs)
    case Nil
    then show ?case by (cases ys) auto
  qed (auto split: if_splits)
  then show ?case using Many by simp
next
  case (Seq a b)
  then show ?case by auto blast
qed auto

lemma runs_mono_nonempty: "runs r xs \<noteq> [] \<Longrightarrow> runs r (xs @ ys) \<noteq> []"
  using runs_mono [of "hd (runs r xs)" r xs ys] by (metis empty_iff empty_set hd_in_set)

lemma occurs_append1: "occurs r xs \<Longrightarrow> occurs r (xs @ ys)"
proof (induction xs)
  case Nil
  then have "runs r ys \<noteq> []" using runs_mono_nonempty [of r "[]" ys] by simp
  then show ?case by (cases ys) auto
next
  case (Cons x xs)
  then show ?case using runs_mono_nonempty [of r "x # xs" ys] by auto
qed

lemma occurs_append2: "occurs r ys \<Longrightarrow> occurs r (xs @ ys)"
  by (induction xs) auto

text \<open>A rune the pattern does not accept cuts the text: a match lies on one side of it.\<close>

lemma occurs_cut:
  assumes "\<not> accepts r (fst c)" "runs r [] = []"
  shows "occurs r (xs @ c # ys) \<longleftrightarrow> occurs r xs \<or> occurs r ys"
proof (induction xs)
  case Nil
  have "runs r (c # ys) = []" using runs_stop [OF assms(1), of "[]" ys] assms(2) by simp
  then show ?case using assms(2) by simp
next
  case (Cons x xs)
  have "runs r (x # xs @ c # ys) \<noteq> [] \<longleftrightarrow> runs r (x # xs) \<noteq> []"
    using runs_stop [OF assms(1), of "x # xs" ys] by simp
  then show ?case using Cons by auto
qed

subsection \<open>What a replacement leaves\<close>

text \<open>A replacement fenced by two runes the pattern does not accept, and without a match inside.\<close>

definition fenced :: "rx \<Rightarrow> chunk list \<Rightarrow> bool" where
  "fenced r rep \<longleftrightarrow> (\<exists>b inner e. rep = b # inner @ [e] \<and> \<not> accepts r (fst b) \<and> \<not> accepts r (fst e) \<and>
     \<not> occurs r inner)"

lemma fenced_cut:
  assumes "fenced r rep" "runs r [] = []"
  shows "occurs r (xs @ rep @ ys) \<longleftrightarrow> occurs r xs \<or> occurs r ys"
proof -
  obtain b inner e where rep: "rep = b # inner @ [e]" and b: "\<not> accepts r (fst b)"
    and e: "\<not> accepts r (fst e)" and i: "\<not> occurs r inner"
    using assms(1) by (auto simp: fenced_def)
  have "occurs r (xs @ rep @ ys) \<longleftrightarrow> occurs r xs \<or> occurs r (inner @ e # ys)"
    using occurs_cut [OF b assms(2), of xs "inner @ e # ys"] by (simp add: rep)
  then show ?thesis using occurs_cut [OF e assms(2), of inner ys] i by simp
qed

lemma many_suffix: "z \<in> set (many p xs) \<Longrightarrow> \<exists>ms. xs = ms @ z"
  by (induction xs) (auto split: if_splits intro: exI [of _ "_ # _"])

lemma runs_suffix: "z \<in> set (runs r xs) \<Longrightarrow> \<exists>ms. xs = ms @ z"
proof (induction r arbitrary: xs z)
  case (Cls p)
  then show ?case by (auto split: list.splits if_splits)
next
  case (Seq a b)
  then obtain y where y: "y \<in> set (runs a xs)" "z \<in> set (runs b y)" by auto
  obtain ms ns where "xs = ms @ y" "y = ns @ z" using Seq.IH y by blast
  then show ?case by simp
qed (auto dest: many_suffix)

fun consuming :: "rx \<Rightarrow> bool" where
  "consuming Eps \<longleftrightarrow> False"
| "consuming (Cls p) \<longleftrightarrow> True"
| "consuming (Many p) \<longleftrightarrow> False"
| "consuming (Seq a b) \<longleftrightarrow> consuming a \<or> consuming b"
| "consuming (Alt a b) \<longleftrightarrow> consuming a \<and> consuming b"
| "consuming (Opt a) \<longleftrightarrow> False"

lemma runs_length: "z \<in> set (runs r xs) \<Longrightarrow> length z \<le> length xs"
  using runs_suffix by fastforce

lemma consuming_shorter: "consuming r \<Longrightarrow> z \<in> set (runs r xs) \<Longrightarrow> length z < length xs"
proof (induction r arbitrary: xs z)
  case (Cls p)
  then show ?case by (auto split: list.splits if_splits)
next
  case (Seq a b)
  then obtain y where y: "y \<in> set (runs a xs)" "z \<in> set (runs b y)" by auto
  have "length y \<le> length xs" "length z \<le> length y" using y runs_length by auto
  moreover have "length y < length xs \<or> length z < length y"
    using Seq.IH(1) [OF _ y(1)] Seq.IH(2) [OF _ y(2)] Seq.prems(1) by auto
  ultimately show ?case by linarith
qed auto

lemma consuming_nil: "consuming r \<Longrightarrow> runs r [] = []"
  using consuming_shorter [of r _ "[]"] by (metis list.set_intros(1) list.size(3) neq_Nil_conv not_less_zero)

text \<open>One step of the scan: the rune is kept because nothing matches there, or a match is
  replaced.\<close>

lemma replace_step:
  assumes "consuming q"
  obtains "runs q (x # xs) = []" "replace_chunks q rep (x # xs) = x # replace_chunks q rep xs"
  | ms rest where "replace_chunks q rep (x # xs) = rep @ replace_chunks q rep rest"
      "x # xs = ms @ rest" "ms \<noteq> []"
proof (cases "runs q (x # xs)")
  case Nil
  then show ?thesis using that(1) by simp
next
  case (Cons rest more)
  then have r: "rest \<in> set (runs q (x # xs))" by simp
  have l: "length rest \<le> length xs" using consuming_shorter [OF assms r] by simp
  obtain ms where ms: "x # xs = ms @ rest" using runs_suffix [OF r] by blast
  show ?thesis
  proof (rule that(2) [OF _ ms])
    show "replace_chunks q rep (x # xs) = rep @ replace_chunks q rep rest" using Cons l by simp
    show "ms \<noteq> []" using ms l by auto
  qed
qed

text \<open>The text after replacing is a piece of the old text, then nothing more or the replacement
  and the text after replacing in what is left.\<close>

lemma replace_split:
  assumes "consuming q"
  shows "replace_chunks q rep xs = xs \<or>
    (\<exists>ks ms zs. replace_chunks q rep xs = ks @ rep @ replace_chunks q rep zs \<and>
       xs = ks @ ms @ zs \<and> ms \<noteq> [])"
proof (induction xs)
  case (Cons x xs)
  show ?case
  proof (rule replace_step [OF assms, of x xs rep])
    assume "replace_chunks q rep (x # xs) = x # replace_chunks q rep xs"
    with Cons show ?thesis by (metis append_Cons)
  next
    fix ms rest
    assume "replace_chunks q rep (x # xs) = rep @ replace_chunks q rep rest" "x # xs = ms @ rest" "ms \<noteq> []"
    then show ?thesis by (metis append_Nil)
  qed
qed simp

lemma replace_removes:
  assumes "consuming q" "fenced q rep"
  shows "\<not> occurs q (replace_chunks q rep xs)"
proof (induction "length xs" arbitrary: xs rule: less_induct)
  case less
  note nil = consuming_nil [OF assms(1)]
  show ?case
  proof (cases xs)
    case Nil
    then show ?thesis using nil by simp
  next
    case (Cons x ys)
    show ?thesis unfolding Cons
    proof (rule replace_step [OF assms(1), of x ys rep])
      assume none: "runs q (x # ys) = []" and r: "replace_chunks q rep (x # ys) = x # replace_chunks q rep ys"
      have "runs q (x # replace_chunks q rep ys) = []"
        using replace_split [OF assms(1), of rep ys]
      proof
        assume "\<exists>ks ms zs. replace_chunks q rep ys = ks @ rep @ replace_chunks q rep zs \<and>
          ys = ks @ ms @ zs \<and> ms \<noteq> []"
        then obtain ks ms zs where e: "replace_chunks q rep ys = ks @ rep @ replace_chunks q rep zs"
          and ys: "ys = ks @ ms @ zs" by blast
        obtain b t where rep: "rep = b # t" "\<not> accepts q (fst b)" using assms(2) by (auto simp: fenced_def)
        have "runs q (x # ks) = []"
          using runs_mono_nonempty [of q "x # ks" "ms @ zs"] none ys by auto
        then show ?thesis
          using runs_stop [OF rep(2), of "x # ks" "t @ replace_chunks q rep zs"] unfolding e
          by (simp add: rep(1))
      qed (use none in simp)
      moreover have "\<not> occurs q (replace_chunks q rep ys)" using less Cons by simp
      ultimately show "\<not> occurs q (replace_chunks q rep (x # ys))" unfolding r by simp
    next
      fix ms rest
      assume r: "replace_chunks q rep (x # ys) = rep @ replace_chunks q rep rest"
        and s: "x # ys = ms @ rest" "ms \<noteq> []"
      have "length rest < length xs" using arg_cong [OF s(1), of length] s(2) Cons by simp
      then have "\<not> occurs q (replace_chunks q rep rest)" by (rule less)
      then show "\<not> occurs q (replace_chunks q rep (x # ys))"
        using fenced_cut [OF assms(2) nil, of "[]" "replace_chunks q rep rest"] nil
        unfolding r by simp
    qed
  qed
qed

lemma replace_keeps_out:
  assumes "consuming q" "runs p [] = []" "fenced p rep" "\<not> occurs p xs"
  shows "\<not> occurs p (replace_chunks q rep xs)"
  using assms(4)
proof (induction "length xs" arbitrary: xs rule: less_induct)
  case less
  show ?case using replace_split [OF assms(1), of rep xs]
  proof
    assume "\<exists>ks ms zs. replace_chunks q rep xs = ks @ rep @ replace_chunks q rep zs \<and>
      xs = ks @ ms @ zs \<and> ms \<noteq> []"
    then obtain ks ms zs where e: "replace_chunks q rep xs = ks @ rep @ replace_chunks q rep zs"
      and xs: "xs = ks @ ms @ zs" "ms \<noteq> []" by blast
    have "\<not> occurs p ks" "\<not> occurs p zs"
      using less.prems occurs_append1 occurs_append2 xs(1) by blast+
    moreover from this have "\<not> occurs p (replace_chunks q rep zs)"
      using less.hyps [of zs] xs by simp
    ultimately show ?thesis by (simp add: e fenced_cut [OF assms(3,2)])
  qed (use less.prems in simp)
qed

subsection \<open>Reading the result again\<close>

text \<open>The chunks of a string are stable: a run of them, written out and read again, is itself.\<close>

definition decoded :: "chunk list \<Rightarrow> bool" where
  "decoded xs \<longleftrightarrow> chunks (raw xs) = xs"

lemma decoded_chunks [simp]: "decoded (chunks s)"
  by (simp add: decoded_def)

lemma decoded_Nil [simp]: "decoded []"
  by (simp add: decoded_def)

lemma chunks_nonempty: "snd c \<noteq> [] \<or> xs = []" if "chunks (raw (c # xs)) = c # xs"
proof (cases "snd c @ raw xs")
  case Nil
  then show ?thesis using that by simp
next
  case (Cons a s)
  obtain r w where rw: "decode_rune (a # s) = (r, w)" by (cases "decode_rune (a # s)")
  have "c = (r, take w (a # s))"
    using that Cons rw by (simp add: chunks.simps(2) del: decode_rune.simps)
  moreover have "0 < w" using decode_rune_width [of a s] rw by simp
  ultimately show ?thesis by (cases w) auto
qed

lemma decoded_Cons:
  assumes "decoded (c # xs)"
  obtains a s w where "raw (c # xs) = a # s" "decode_rune (a # s) = (fst c, w)"
    "snd c = take w (a # s)" "raw xs = drop w (a # s)" "decoded xs" "0 < w" "w \<le> length (a # s)"
proof -
  have ch: "chunks (raw (c # xs)) = c # xs" using assms by (simp add: decoded_def)
  then obtain a s where as: "raw (c # xs) = a # s" by (cases "raw (c # xs)") auto
  obtain r w where rw: "decode_rune (a # s) = (r, w)" by (cases "decode_rune (a # s)")
  have split: "c = (r, take w (a # s))" "xs = chunks (drop w (a # s))"
    using ch as rw by (simp_all add: chunks.simps(2) del: decode_rune.simps)
  have len: "w \<le> length (a # s)" using decode_rune_len [of a s] rw by simp
  show thesis
    by (rule that [of a s w]; use as rw split len decode_rune_width [of a s] in simp)
qed

lemma decoded_suffix: "decoded (xs @ ys) \<Longrightarrow> decoded ys"
proof (induction xs)
  case (Cons c xs)
  from Cons.prems have "decoded (c # (xs @ ys))" by simp
  then show ?case by (rule decoded_Cons) (rule Cons.IH)
qed simp

lemma decode2_take: "snd (decode2 x s) \<le> Suc k \<Longrightarrow> decode2 x (take k s) = decode2 x s"
  by (cases s; cases k) auto

lemma decode3_take: "snd (decode3 x s) \<le> Suc k \<Longrightarrow> decode3 x (take k s) = decode3 x s"
  by (cases "(x, s)" rule: decode3.cases; cases k; cases "k - 1") (auto split: if_splits)

lemma decode4_take: "snd (decode4 x s) \<le> Suc k \<Longrightarrow> decode4 x (take k s) = decode4 x s"
  by (cases "(x, s)" rule: decode4.cases; cases k; cases "k - 1"; cases "k - 2") (auto split: if_splits)

lemma decode_rune_take:
  assumes "snd (decode_rune (a # s)) \<le> Suc k"
  shows "decode_rune (a # take k s) = decode_rune (a # s)"
  using assms decode2_take decode3_take decode4_take by (auto simp: Let_def)

lemma decoded_prefix: "decoded (xs @ ys) \<Longrightarrow> decoded xs"
proof (induction xs)
  case (Cons c xs)
  from Cons.prems have "decoded (c # (xs @ ys))" by simp
  then show ?case
  proof (rule decoded_Cons)
    fix a s w
    assume a: "raw (c # xs @ ys) = a # s" "decode_rune (a # s) = (fst c, w)" "snd c = take w (a # s)"
      "raw (xs @ ys) = drop w (a # s)" "decoded (xs @ ys)" "0 < w" "w \<le> length (a # s)"
    let ?m = "length (raw xs)"
    have xs: "raw xs = take ?m (drop w (a # s))" using a(4) by (metis append_eq_conv_conj raw_simps(3))
    have all: "raw (c # xs) = take (w + ?m) (a # s)"
      using a(3) xs by (simp add: take_add)
    obtain v where w: "w = Suc v" using a(6) by (cases w) auto
    have t: "take (w + ?m) (a # s) = a # take (v + ?m) s" by (simp add: w)
    have d: "decode_rune (a # take (v + ?m) s) = (fst c, w)"
      using decode_rune_take [of a s "v + ?m"] a(2) w by simp
    have "chunks (raw (c # xs)) = (fst c, take w (raw (c # xs))) # chunks (drop w (raw (c # xs)))"
      unfolding all t using d by (simp add: chunks.simps(2) del: decode_rune.simps)
    moreover have "take w (raw (c # xs)) = snd c" "drop w (raw (c # xs)) = raw xs"
      using a(3,7) by (simp_all add: min_def)
    moreover have "decoded xs" by (rule Cons.IH) (rule a(5))
    ultimately show ?thesis by (simp add: decoded_def)
  qed
qed simp

lemma decoded_fence:
  assumes "ascii w" "w \<noteq> []" "decoded xs" "decoded ys"
  shows "decoded (xs @ as_chunks w @ ys)"
proof -
  obtain c v where w: "w = c # v" using assms(2) by (cases w) auto
  have "chunks (raw xs @ c # (v @ raw ys)) = chunks (raw xs) @ (byte c, [c]) # chunks (v @ raw ys)"
    using assms(1) w by (intro chunks_split_ascii) simp
  moreover have "as_chunks w = (byte c, [c]) # as_chunks v" by (simp add: w as_chunks_def)
  ultimately show ?thesis using assms w by (simp add: decoded_def chunks_ascii_append)
qed

lemma decoded_replace:
  assumes "consuming q" "ascii w" "w \<noteq> []"
  shows "decoded xs \<Longrightarrow> decoded (replace_chunks q (as_chunks w) xs)"
proof (induction "length xs" arbitrary: xs rule: less_induct)
  case less
  show ?case using replace_split [OF assms(1), of "as_chunks w" xs]
  proof
    assume "\<exists>ks ms zs. replace_chunks q (as_chunks w) xs = ks @ as_chunks w @ replace_chunks q (as_chunks w) zs \<and>
      xs = ks @ ms @ zs \<and> ms \<noteq> []"
    then obtain ks ms zs where e: "replace_chunks q (as_chunks w) xs =
        ks @ as_chunks w @ replace_chunks q (as_chunks w) zs"
      and xs: "xs = ks @ ms @ zs" "ms \<noteq> []" by blast
    have "decoded ks" using less.prems xs(1) decoded_prefix by blast
    moreover have "decoded zs" using less.prems xs(1) decoded_suffix [of "ks @ ms" zs] by simp
    ultimately show ?thesis unfolding e
      using less.hyps [of zs] xs assms by (intro decoded_fence) auto
  qed (use less.prems in simp)
qed

lemma chunks_of_ascii': "ascii w \<Longrightarrow> chunks w = as_chunks w"
  using chunks_ascii_append [of w "[]"] by simp

lemma MatchString_ReplaceAll:
  assumes "consuming q" "ascii w" "w \<noteq> []"
  shows "MatchString p (ReplaceAllString q s w) \<longleftrightarrow> occurs p (replace_chunks q (as_chunks w) (chunks s))"
  using decoded_replace [OF assms decoded_chunks, of s] assms(2)
  by (simp add: MatchString_def ReplaceAllString_def chunks_of_ascii' decoded_def)

text \<open>The two facts a redaction rests on: the pattern that was replaced is gone, and a pattern
  that was not there has not come back.\<close>

theorem replaced_gone:
  assumes "consuming q" "ascii w" "fenced q (as_chunks w)"
  shows "\<not> MatchString q (ReplaceAllString q s w)"
proof -
  have "w \<noteq> []" using assms(3) by (auto simp: fenced_def as_chunks_def)
  then show ?thesis using assms by (simp add: MatchString_ReplaceAll replace_removes)
qed

theorem replaced_stays_out:
  assumes "consuming q" "consuming p" "ascii w" "fenced p (as_chunks w)" "\<not> MatchString p s"
  shows "\<not> MatchString p (ReplaceAllString q s w)"
proof -
  have "w \<noteq> []" using assms(4) by (auto simp: fenced_def as_chunks_def)
  moreover have "\<not> occurs p (chunks s)" using assms(5) by (simp add: MatchString_def)
  then have "\<not> occurs p (replace_chunks q (as_chunks w) (chunks s))"
    by (rule replace_keeps_out [OF assms(1) consuming_nil [OF assms(2)] assms(4)])
  ultimately show ?thesis using assms(1,3) by (simp add: MatchString_ReplaceAll)
qed

subsection \<open>Ruling a pattern out\<close>

text \<open>A pattern that must read a rune the text does not have matches nowhere in it.\<close>

fun impossible :: "nat list \<Rightarrow> rx \<Rightarrow> bool" where
  "impossible av Eps \<longleftrightarrow> False"
| "impossible av (Cls p) \<longleftrightarrow> \<not> list_ex p av"
| "impossible av (Many p) \<longleftrightarrow> False"
| "impossible av (Seq a b) \<longleftrightarrow> impossible av a \<or> impossible av b"
| "impossible av (Alt a b) \<longleftrightarrow> impossible av a \<and> impossible av b"
| "impossible av (Opt a) \<longleftrightarrow> False"

lemma impossible_runs:
  "impossible av r \<Longrightarrow> set (map fst xs) \<subseteq> set av \<Longrightarrow> runs r xs = []"
proof (induction r arbitrary: xs)
  case (Cls p)
  then show ?case by (auto simp: list_ex_iff split: list.splits)
next
  case (Seq a b)
  show ?case
  proof (cases "impossible av a")
    case False
    have "runs b y = []" if y: "y \<in> set (runs a xs)" for y
    proof (rule Seq.IH(2))
      obtain ms where "xs = ms @ y" using runs_suffix [OF y] by blast
      then show "set (map fst y) \<subseteq> set av" using Seq.prems(2) by simp
    qed (use Seq.prems False in simp)
    then show ?thesis by simp
  qed (use Seq in simp)
qed auto

lemma impossible_occurs: "impossible av r \<Longrightarrow> set (map fst xs) \<subseteq> set av \<Longrightarrow> \<not> occurs r xs"
  by (induction xs) (auto simp: impossible_runs)

lemma replace_none: "\<not> occurs q xs \<Longrightarrow> replace_chunks q rep xs = xs"
  by (induction xs) auto

lemma ReplaceAll_none: "\<not> MatchString q s \<Longrightarrow> ReplaceAllString q s rep = s"
  by (simp add: MatchString_def ReplaceAllString_def replace_none)

lemma impossible_MatchString: "impossible (runes s) r \<Longrightarrow> \<not> MatchString r s"
  by (simp add: MatchString_def runes_def impossible_occurs)

lemma not_MatchString_Nil: "consuming r \<Longrightarrow> \<not> MatchString r []"
  by (simp add: MatchString_def consuming_nil)

text \<open>The derived patterns.\<close>

lemma at_least_simps [simp]:
  "accepts (at_least n p) c \<longleftrightarrow> p c" "consuming (at_least n p) \<longleftrightarrow> 0 < n"
  "impossible av (at_least n p) \<longleftrightarrow> 0 < n \<and> \<not> list_ex p av"
  by (induction n) auto

lemma exactly_simps [simp]:
  "accepts (exactly n p) c \<longleftrightarrow> 0 < n \<and> p c" "consuming (exactly n p) \<longleftrightarrow> 0 < n"
  "impossible av (exactly n p) \<longleftrightarrow> 0 < n \<and> \<not> list_ex p av"
  by (induction n) auto

lemma plus_simps [simp]:
  "accepts (plus p) c \<longleftrightarrow> p c" "consuming (plus p)" "impossible av (plus p) \<longleftrightarrow> \<not> list_ex p av"
  by (auto simp: plus_def)

lemma lit_simps [simp]:
  "accepts (lit s) c \<longleftrightarrow> c \<in> set (map rune_of s)" "consuming (lit s) \<longleftrightarrow> s \<noteq> []"
  "impossible av (lit s) \<longleftrightarrow> list_ex (\<lambda>c. rune_of c \<notin> set av) s"
  by (induction s) (auto simp: lit_def list_ex_iff)

lemma ilit_simps [simp]:
  "accepts (ilit s) c \<longleftrightarrow> fold_rune c \<in> set (map (\<lambda>d. fold_rune (rune_of d)) s)"
  "consuming (ilit s) \<longleftrightarrow> s \<noteq> []"
  "impossible av (ilit s) \<longleftrightarrow> list_ex (\<lambda>d. fold_rune (rune_of d) \<notin> set (map fold_rune av)) s"
proof -
  show "accepts (ilit s) c \<longleftrightarrow> fold_rune c \<in> set (map (\<lambda>d. fold_rune (rune_of d)) s)"
    by (induction s) (auto simp: ilit_def)
  show "consuming (ilit s) \<longleftrightarrow> s \<noteq> []"
    by (induction s) (auto simp: ilit_def)
  have "list_ex (\<lambda>x. fold_rune x = r) av \<longleftrightarrow> r \<in> fold_rune ` set av" for r
    by (auto simp: list_ex_iff)
  then show "impossible av (ilit s) \<longleftrightarrow> list_ex (\<lambda>d. fold_rune (rune_of d) \<notin> set (map fold_rune av)) s"
    by (induction s) (simp_all add: ilit_def)
qed

lemma fenced_as_chunks:
  assumes "w = b # inner @ [e]" "\<not> accepts r (rune_of b)" "\<not> accepts r (rune_of e)"
    and "impossible (map rune_of inner) r"
  shows "fenced r (as_chunks w)"
proof -
  have "as_chunks w = (rune_of b, [b]) # as_chunks inner @ [(rune_of e, [e])]"
    by (simp add: assms(1) as_chunks_def rune_of_def)
  moreover have "\<not> occurs r (as_chunks inner)"
    by (rule impossible_occurs [OF assms(4)]) (auto simp: as_chunks_def rune_of_def)
  ultimately show ?thesis using assms(2,3) unfolding fenced_def by (metis fst_conv)
qed

end
