(* ===== verification/Comms_Types.thy ===== *)
theory Comms_Types
  imports Signatures Notification_Store Redact
begin

text \<open>
  The vocabulary of the outbound messaging module (\<open>internal/comms/channel.go\<close>): channels,
  statuses, sentinel errors, messages, templates, requests, results and send-log rows.

  A Go error is its text with the sentinel it wraps, if any: \<open>errors.Is\<close> looks at the sentinel,
  \<open>Error()\<close> at the text. A \<open>map[string]string\<close> is an association list without duplicate keys,
  nil or not.
\<close>

definition ChannelEmail :: string where "ChannelEmail = ''EMAIL''"
definition ChannelSMS :: string where "ChannelSMS = ''SMS''"
definition ChannelPush :: string where "ChannelPush = ''PUSH''"
definition ChannelInApp :: string where "ChannelInApp = ''INAPP''"
definition ChannelLINE :: string where "ChannelLINE = ''LINE''"

lemmas channel_defs = ChannelEmail_def ChannelSMS_def ChannelPush_def ChannelInApp_def ChannelLINE_def

definition Channel_Valid :: "string \<Rightarrow> bool" where
  "Channel_Valid c \<longleftrightarrow> c \<in> set [ChannelEmail, ChannelSMS, ChannelPush, ChannelInApp, ChannelLINE]"

definition StatusPending :: string where "StatusPending = ''PENDING''"
definition StatusSent :: string where "StatusSent = ''SENT''"
definition StatusFailed :: string where "StatusFailed = ''FAILED''"
definition StatusDead :: string where "StatusDead = ''DEAD''"

lemmas status_defs = StatusPending_def StatusSent_def StatusFailed_def StatusDead_def

datatype sentinel =
    ErrProviderNotIntegrated | ErrTemplateNotFound | ErrMissingVar | ErrValidation | ErrRenderTooLarge
  | NoSentinel

datatype comms_error = Err (Is: sentinel) (ErrorText: string)

fun sentinel_text :: "sentinel \<Rightarrow> string" where
  "sentinel_text ErrProviderNotIntegrated = ''comms: provider not integrated''"
| "sentinel_text ErrTemplateNotFound = ''comms: template not found''"
| "sentinel_text ErrMissingVar = ''comms: template references an undefined variable''"
| "sentinel_text ErrValidation = ''comms: validation error''"
| "sentinel_text ErrRenderTooLarge = ''comms: rendered message exceeds size cap''"
| "sentinel_text NoSentinel = []"

text \<open>The sentinel itself, the sentinel with a detail behind it (\<open>"%w: \<dots>"\<close>), an error with a
  prefix before it (\<open>"\<dots>: %w"\<close>), and an error of somebody else's.\<close>

definition bare :: "sentinel \<Rightarrow> comms_error" where
  "bare k = Err k (sentinel_text k)"

definition detailed :: "sentinel \<Rightarrow> string \<Rightarrow> comms_error" where
  "detailed k d = Err k (sentinel_text k @ '': '' @ d)"

definition prefixed :: "string \<Rightarrow> comms_error \<Rightarrow> comms_error" where
  "prefixed p e = Err (Is e) (p @ '': '' @ ErrorText e)"

definition foreign_error :: "string \<Rightarrow> comms_error" where
  "foreign_error m = Err NoSentinel m"

lemmas error_defs = bare_def detailed_def prefixed_def foreign_error_def

record EmailMessage =
  Mail_To :: string
  Mail_Subject :: string
  Mail_TextBody :: string
  Mail_HTMLBody :: string

record Template =
  Tpl_Channel :: string
  Tpl_TemplateID :: string
  Tpl_Locale :: string
  Tpl_Subject :: string
  Tpl_Body :: string
  Tpl_UpdatedAt :: instant

type_synonym vars = "(string \<times> string) list option"

record SendRequest =
  Req_Channel :: string
  Req_To :: string
  Req_TemplateID :: string
  Req_Locale :: string
  Req_Vars :: vars
  Req_IdempotencyKey :: string
  Req_UserID :: "uuid option"

record SendResult =
  Res_SendID :: uuid
  Res_Status :: string
  Res_Deduped :: bool

record SendLogRow =
  Log_ID :: uuid
  Log_IdempotencyKey :: string
  Log_Channel :: string
  Log_Provider :: string
  Log_TemplateID :: string
  Log_UserID :: "uuid option"
  Log_ToHash :: string
  Log_Status :: string
  Log_Attempts :: int
  Log_ProviderMsgID :: string
  Log_LastError :: string
  Log_CreatedAt :: instant
  Log_UpdatedAt :: instant

end
