(* ===== verification/Templates.thy ===== *)
theory Templates
  imports Comms_Types
begin

text \<open>
  Message templates: their store (\<open>internal/comms/template/store.go\<close> on \<open>migrations/000002\<close>),
  the seed (\<open>seed.go\<close>) and the renderer (\<open>renderer.go\<close>).

  The table is a map from its primary key (channel, template id, locale) to the rest of the row.
  The template engines of Go's library are a parameter: with the options given to \<open>Option\<close>, a template
  either does not parse, or executes to an error text or an output.
\<close>

definition defaultLocale :: string where
  "defaultLocale = ''en''"

record template_row =
  row_subject :: "string option"
  row_body :: string
  row_version :: int
  row_updated_at :: instant

type_synonym template_table = "string \<times> string \<times> string \<Rightarrow> template_row option"

subsection \<open>The store\<close>

definition get_stmt ::
  "string \<Rightarrow> string \<Rightarrow> string \<Rightarrow> template_table \<Rightarrow> (string + Template option) \<times> template_table" where
  "get_stmt ch tid loc t = (Inr (case t (ch, tid, loc) of
       None \<Rightarrow> None
     | Some r \<Rightarrow> Some \<lparr>Tpl_Channel = ch, Tpl_TemplateID = tid, Tpl_Locale = loc,
         Tpl_Subject = (case row_subject r of None \<Rightarrow> [] | Some s \<Rightarrow> s), Tpl_Body = row_body r,
         Tpl_UpdatedAt = row_updated_at r\<rparr>), t)"

definition getExact ::
  "fault \<Rightarrow> string \<Rightarrow> string \<Rightarrow> string \<Rightarrow> template_table \<Rightarrow> comms_error + Template" where
  "getExact f ch tid loc t =
     (case fst (db_exec f (get_stmt ch tid loc) t) of
        Inl m \<Rightarrow> Inl (foreign_error (''get template: '' @ m))
      | Inr None \<Rightarrow> Inl (bare ErrTemplateNotFound)
      | Inr (Some tpl) \<Rightarrow> Inr tpl)"

text \<open>Two queries at most, each with its own fault.\<close>

definition Get ::
  "fault \<times> fault \<Rightarrow> string \<Rightarrow> string \<Rightarrow> string \<Rightarrow> template_table \<Rightarrow> comms_error + Template" where
  "Get fs ch tid locale t =
     (let loc = (if locale = [] then defaultLocale else locale)
      in case getExact (fst fs) ch tid loc t of
           Inr tpl \<Rightarrow> Inr tpl
         | Inl e \<Rightarrow>
             if Is e \<noteq> ErrTemplateNotFound then Inl e
             else if loc \<noteq> defaultLocale then getExact (snd fs) ch tid defaultLocale t
             else Inl (bare ErrTemplateNotFound))"

text \<open>The CHECK on the channel; \<open>version\<close> is a 32-bit column.\<close>

definition upsert_stmt ::
  "instant \<Rightarrow> string \<Rightarrow> string \<Rightarrow> string \<Rightarrow> string option \<Rightarrow> string \<Rightarrow> template_table \<Rightarrow>
   (string + unit) \<times> template_table" where
  "upsert_stmt db_now ch tid loc subject body t =
     (if ch \<notin> set [''EMAIL'', ''SMS'', ''PUSH'', ''INAPP'', ''LINE'']
      then (Inl ''new row violates check constraint comms_templates_channel_check'', t)
      else case t (ch, tid, loc) of
        None \<Rightarrow> (Inr (), t((ch, tid, loc) \<mapsto>
          \<lparr>row_subject = subject, row_body = body, row_version = 1, row_updated_at = db_now\<rparr>))
      | Some r \<Rightarrow>
          if row_version r \<ge> 2147483647 then (Inl ''integer out of range'', t)
          else (Inr (), t((ch, tid, loc) \<mapsto> \<lparr>row_subject = subject, row_body = body,
            row_version = row_version r + 1, row_updated_at = db_now\<rparr>)))"

text \<open>\<open>quoted\<close> is what \<open>%q\<close> prints of the channel.\<close>

definition Upsert ::
  "(string \<Rightarrow> string) \<Rightarrow> fault \<Rightarrow> instant \<Rightarrow> Template \<Rightarrow> template_table \<Rightarrow>
   (comms_error + unit) \<times> template_table" where
  "Upsert quoted f db_now tpl t =
     (if \<not> Channel_Valid (Tpl_Channel tpl)
      then (Inl (detailed ErrValidation (''invalid channel '' @ quoted (Tpl_Channel tpl))), t)
      else if Tpl_TemplateID tpl = [] \<or> Tpl_Body tpl = []
      then (Inl (detailed ErrValidation ''template_id and body are required''), t)
      else let loc = (if Tpl_Locale tpl = [] then defaultLocale else Tpl_Locale tpl);
               subject = (if Tpl_Subject tpl \<noteq> [] then Some (Tpl_Subject tpl) else None)
           in case db_exec f (upsert_stmt db_now (Tpl_Channel tpl) (Tpl_TemplateID tpl) loc subject (Tpl_Body tpl)) t of
                (Inl m, t') \<Rightarrow> (Inl (foreign_error (''upsert template: '' @ m)), t')
              | (Inr u, t') \<Rightarrow> (Inr (), t'))"

subsection \<open>The seed\<close>

text \<open>The bytes of U+2014 in the second body.\<close>

definition em_dash :: string where
  "em_dash = [CHR 0xE2, CHR 0x80, CHR 0x94]"

definition email_verify_body :: string where
  "email_verify_body =
     ''<p>Welcome to CoverOnes!</p>'' @
     ''<p>Please verify your email address by clicking the button below:</p>'' @
     ''<p><a href=\"{{.verifyURL}}\">Verify my email</a></p>'' @
     ''<p>If the button does not work, copy this link into your browser:<br>{{.verifyURL}}</p>'' @
     ''<p>This link is single-use and expires soon. If you did not create this '' @
     ''account you can safely ignore this message.</p>''"

definition password_reset_body :: string where
  "password_reset_body =
     ''<p>We received a request to reset your CoverOnes password.</p>'' @
     ''<p>Click the button below to choose a new password:</p>'' @
     ''<p><a href=\"{{.resetURL}}\">Reset my password</a></p>'' @
     ''<p>If the button does not work, copy this link into your browser:<br>{{.resetURL}}</p>'' @
     ''<p>This link is single-use and expires in 30 minutes. If you did not request '' @
     ''this, you can safely ignore this message '' @ em_dash @ '' your password will not change.</p>''"

definition phone_otp_body :: string where
  "phone_otp_body = ''Your CoverOnes verification code is {{.code}}. It expires in {{.ttlMinutes}} minutes. Do not share this code.''"

definition DefaultTemplates :: "Template list" where
  "DefaultTemplates =
     [\<lparr>Tpl_Channel = ChannelEmail, Tpl_TemplateID = ''email_verify'', Tpl_Locale = ''en'',
       Tpl_Subject = ''Verify your CoverOnes account'', Tpl_Body = email_verify_body, Tpl_UpdatedAt = 0\<rparr>,
      \<lparr>Tpl_Channel = ChannelEmail, Tpl_TemplateID = ''password_reset'', Tpl_Locale = ''en'',
       Tpl_Subject = ''Reset your CoverOnes password'', Tpl_Body = password_reset_body, Tpl_UpdatedAt = 0\<rparr>,
      \<lparr>Tpl_Channel = ChannelSMS, Tpl_TemplateID = ''phone_otp'', Tpl_Locale = ''en'',
       Tpl_Subject = [], Tpl_Body = phone_otp_body, Tpl_UpdatedAt = 0\<rparr>]"

fun seed_loop ::
  "(string \<Rightarrow> string) \<Rightarrow> instant \<Rightarrow> (Template \<times> fault) list \<Rightarrow> template_table \<Rightarrow>
   (comms_error + unit) \<times> template_table" where
  "seed_loop quoted db_now [] t = (Inr (), t)"
| "seed_loop quoted db_now ((tpl, f) # rest) t =
     (case Upsert quoted f db_now tpl t of
        (Inl e, t') \<Rightarrow>
          (Inl (prefixed (''seed template '' @ Tpl_Channel tpl @ ''/'' @ Tpl_TemplateID tpl) e), t')
      | (Inr u, t') \<Rightarrow> seed_loop quoted db_now rest t')"

definition Seed ::
  "(string \<Rightarrow> string) \<Rightarrow> instant \<Rightarrow> fault list \<Rightarrow> template_table \<Rightarrow> (comms_error + unit) \<times> template_table" where
  "Seed quoted db_now faults t = seed_loop quoted db_now (zip DefaultTemplates faults) t"

subsection \<open>The renderer\<close>

definition maxSubjectLen :: nat where "maxSubjectLen = 998"
definition maxBodyLen :: nat where "maxBodyLen = 100000"
definition maxSMSBodyLen :: nat where "maxSMSBodyLen = 1600"

datatype rendering = Parse_Error | Exec_Error string | Output string

text \<open>An engine takes the options, the name, the source and the variables.\<close>

type_synonym engine = "string list \<Rightarrow> string \<Rightarrow> string \<Rightarrow> (string \<times> string) list \<Rightarrow> rendering"

record engines =
  text_engine :: engine
  html_engine :: engine

definition varsMap :: "vars \<Rightarrow> (string \<times> string) list" where
  "varsMap vars = (case vars of None \<Rightarrow> [] | Some m \<Rightarrow> m)"

text \<open>What follows the first occurrence of a marker.\<close>

fun after_first :: "string \<Rightarrow> string \<Rightarrow> string option" where
  "after_first marker [] = (if marker = [] then Some [] else None)"
| "after_first marker (c # s) =
     (if prefix marker (c # s) then Some (drop (length marker) (c # s)) else after_first marker s)"

definition redactKeyName :: "string \<Rightarrow> string" where
  "redactKeyName msg = (case after_first ''map has no entry for key '' msg of
     Some rest \<Rightarrow> ''missing var '' @ trim_space rest
   | None \<Rightarrow> ''missing variable'')"

definition classifyExecErr :: "string \<Rightarrow> comms_error" where
  "classifyExecErr msg =
     (if contains msg ''map has no entry for key'' then detailed ErrMissingVar (redactKeyName msg)
      else detailed ErrValidation ''render failed'')"

definition renderText :: "engines \<Rightarrow> string \<Rightarrow> string \<Rightarrow> vars \<Rightarrow> comms_error + string" where
  "renderText eng name src vars = (case text_engine eng [''missingkey=error''] name src (varsMap vars) of
     Parse_Error \<Rightarrow> Inl (detailed ErrValidation (''parse '' @ name @ '' template''))
   | Exec_Error m \<Rightarrow> Inl (classifyExecErr m)
   | Output s \<Rightarrow> Inr s)"

definition renderHTML :: "engines \<Rightarrow> string \<Rightarrow> vars \<Rightarrow> comms_error + string" where
  "renderHTML eng src vars = (case html_engine eng [''missingkey=error''] ''html'' src (varsMap vars) of
     Parse_Error \<Rightarrow> Inl (detailed ErrValidation ''parse html template'')
   | Exec_Error m \<Rightarrow> Inl (classifyExecErr m)
   | Output s \<Rightarrow> Inr s)"

definition Render ::
  "engines \<Rightarrow> Template option \<Rightarrow> vars \<Rightarrow> comms_error + string \<times> string" where
  "Render eng tpl_ptr vars = (case tpl_ptr of
     None \<Rightarrow> Inl (detailed ErrValidation ''nil template'')
   | Some tpl \<Rightarrow>
       (case (if Tpl_Subject tpl \<noteq> [] then renderText eng ''subject'' (Tpl_Subject tpl) vars else Inr []) of
          Inl e \<Rightarrow> Inl e
        | Inr subject \<Rightarrow>
            (case (if Tpl_Channel tpl = ChannelEmail then renderHTML eng (Tpl_Body tpl) vars
                   else renderText eng ''body'' (Tpl_Body tpl) vars) of
               Inl e \<Rightarrow> Inl e
             | Inr body \<Rightarrow>
                 let bodyCap = (if Tpl_Channel tpl = ChannelSMS then maxSMSBodyLen else maxBodyLen)
                 in if length subject > maxSubjectLen \<or> length body > bodyCap
                    then Inl (bare ErrRenderTooLarge) else Inr (subject, body))))"

subsection \<open>Looking a template up\<close>

definition lookup_template :: "string \<Rightarrow> string \<Rightarrow> string \<Rightarrow> template_table \<Rightarrow> Template option" where
  "lookup_template ch tid loc t = map_option (\<lambda>r. \<lparr>Tpl_Channel = ch, Tpl_TemplateID = tid, Tpl_Locale = loc,
     Tpl_Subject = (case row_subject r of None \<Rightarrow> [] | Some s \<Rightarrow> s), Tpl_Body = row_body r,
     Tpl_UpdatedAt = row_updated_at r\<rparr>) (t (ch, tid, loc))"

lemma getExact_NoFault:
  "getExact NoFault ch tid loc t = (case lookup_template ch tid loc t of
     None \<Rightarrow> Inl (bare ErrTemplateNotFound) | Some tpl \<Rightarrow> Inr tpl)"
  by (simp add: getExact_def get_stmt_def lookup_template_def split: option.splits)

lemma Get_NoFault:
  "Get (NoFault, NoFault) ch tid loc t =
     (case lookup_template ch tid (if loc = [] then defaultLocale else loc) t of
        Some tpl \<Rightarrow> Inr tpl
      | None \<Rightarrow> (case lookup_template ch tid defaultLocale t of
          Some tpl \<Rightarrow> Inr tpl | None \<Rightarrow> Inl (bare ErrTemplateNotFound)))"
  by (simp add: Get_def getExact_NoFault bare_def split: option.splits)

lemma Upsert_done:
  assumes "Upsert quoted f db_now tpl t = (Inr (), t')"
  obtains loc where "loc = (if Tpl_Locale tpl = [] then defaultLocale else Tpl_Locale tpl)"
    "Channel_Valid (Tpl_Channel tpl)" "Tpl_TemplateID tpl \<noteq> []" "Tpl_Body tpl \<noteq> []"
    "t' = t((Tpl_Channel tpl, Tpl_TemplateID tpl, loc) \<mapsto>
       \<lparr>row_subject = (if Tpl_Subject tpl \<noteq> [] then Some (Tpl_Subject tpl) else None),
        row_body = Tpl_Body tpl,
        row_version = (case t (Tpl_Channel tpl, Tpl_TemplateID tpl, loc) of
          None \<Rightarrow> 1 | Some r \<Rightarrow> row_version r + 1),
        row_updated_at = db_now\<rparr>)"
  using assms
  by (cases f)
    (auto simp: Upsert_def upsert_stmt_def Let_def split: if_splits option.splits prod.splits sum.splits)

text \<open>C29. What \<open>Upsert\<close> stores is what \<open>Get\<close> finds: after a successful upsert the template of that
  channel, id and locale (\<open>en\<close> where none was named) is the one stored, subject and body unchanged
  and the version one higher than before (one for a new row). A lookup prefers the exact locale, falls
  back to \<open>en\<close> and fails with the not-found sentinel only when neither row exists; every other
  row is untouched.\<close>

theorem template_store_roundtrip:
  assumes "Upsert quoted f db_now tpl t = (Inr (), t')"
    and "loc = (if Tpl_Locale tpl = [] then defaultLocale else Tpl_Locale tpl)"
  shows "Get (NoFault, NoFault) (Tpl_Channel tpl) (Tpl_TemplateID tpl) (Tpl_Locale tpl) t' =
      Inr (tpl\<lparr>Tpl_Locale := loc, Tpl_UpdatedAt := db_now\<rparr>) \<and>
    map_option row_version (t' (Tpl_Channel tpl, Tpl_TemplateID tpl, loc)) =
      Some (case t (Tpl_Channel tpl, Tpl_TemplateID tpl, loc) of None \<Rightarrow> 1 | Some r \<Rightarrow> row_version r + 1) \<and>
    (\<forall>key. key \<noteq> (Tpl_Channel tpl, Tpl_TemplateID tpl, loc) \<longrightarrow> t' key = t key) \<and>
    (\<forall>other. t' (Tpl_Channel tpl, Tpl_TemplateID tpl, other) = None \<and> other \<noteq> [] \<and> loc = defaultLocale \<longrightarrow>
       Get (NoFault, NoFault) (Tpl_Channel tpl) (Tpl_TemplateID tpl) other t' =
         Inr (tpl\<lparr>Tpl_Locale := loc, Tpl_UpdatedAt := db_now\<rparr>)) \<and>
    (Get (NoFault, NoFault) ch tid other t' = Inl (bare ErrTemplateNotFound) \<longleftrightarrow>
       t' (ch, tid, if other = [] then defaultLocale else other) = None \<and> t' (ch, tid, defaultLocale) = None)"
proof -
  note nf = Get_NoFault [of _ _ _ t']
  have missing: "Get (NoFault, NoFault) ch tid other t' = Inl (bare ErrTemplateNotFound) \<longleftrightarrow>
      t' (ch, tid, if other = [] then defaultLocale else other) = None \<and> t' (ch, tid, defaultLocale) = None"
    by (simp add: nf lookup_template_def split: option.splits)
  show ?thesis using assms(1)
  proof (rule Upsert_done)
    fix l assume l: "l = (if Tpl_Locale tpl = [] then defaultLocale else Tpl_Locale tpl)"
      and t': "t' = t((Tpl_Channel tpl, Tpl_TemplateID tpl, l) \<mapsto>
       \<lparr>row_subject = (if Tpl_Subject tpl \<noteq> [] then Some (Tpl_Subject tpl) else None),
        row_body = Tpl_Body tpl,
        row_version = (case t (Tpl_Channel tpl, Tpl_TemplateID tpl, l) of
          None \<Rightarrow> 1 | Some r \<Rightarrow> row_version r + 1),
        row_updated_at = db_now\<rparr>)"
    have ll: "l = loc" using l assms(2) by simp
    have found: "lookup_template (Tpl_Channel tpl) (Tpl_TemplateID tpl) loc t' =
        Some (tpl\<lparr>Tpl_Locale := loc, Tpl_UpdatedAt := db_now\<rparr>)"
      unfolding lookup_template_def t' ll by simp
    show ?thesis
    proof (intro conjI missing allI impI)
      show "Get (NoFault, NoFault) (Tpl_Channel tpl) (Tpl_TemplateID tpl) (Tpl_Locale tpl) t' =
          Inr (tpl\<lparr>Tpl_Locale := loc, Tpl_UpdatedAt := db_now\<rparr>)"
        using found assms(2) by (simp add: nf split: if_splits)
    next
      fix other assume o: "t' (Tpl_Channel tpl, Tpl_TemplateID tpl, other) = None \<and> other \<noteq> [] \<and> loc = defaultLocale"
      then have "lookup_template (Tpl_Channel tpl) (Tpl_TemplateID tpl) other t' = None"
        by (simp add: lookup_template_def)
      then show "Get (NoFault, NoFault) (Tpl_Channel tpl) (Tpl_TemplateID tpl) other t' =
          Inr (tpl\<lparr>Tpl_Locale := loc, Tpl_UpdatedAt := db_now\<rparr>)"
        using found o by (simp add: nf)
    qed (simp_all add: t' ll)
  qed
qed

definition otp_template :: Template where
  "otp_template = DefaultTemplates ! 2"

lemma template_store_roundtrip_witness:
  "Get (NoFault, NoFault) ''SMS'' ''phone_otp'' ''fr''
     (snd (Upsert id NoFault 7 otp_template (\<lambda>_. None))) = Inr (otp_template\<lparr>Tpl_UpdatedAt := 7\<rparr>)"
proof -
  have "fst (Upsert id NoFault 7 otp_template (\<lambda>_. None)) = Inr ()"
    by (simp add: Upsert_def upsert_stmt_def otp_template_def DefaultTemplates_def Channel_Valid_def
        channel_defs phone_otp_body_def)
  then have u: "Upsert id NoFault 7 otp_template (\<lambda>_. None) =
      (Inr (), snd (Upsert id NoFault 7 otp_template (\<lambda>_. None)))"
    by (simp add: prod_eq_iff)
  have other: "snd (Upsert id NoFault 7 otp_template (\<lambda>_. None)) (''SMS'', ''phone_otp'', ''fr'') = None"
    by (simp add: Upsert_def upsert_stmt_def otp_template_def DefaultTemplates_def Channel_Valid_def
        channel_defs phone_otp_body_def defaultLocale_def)
  have f: "Tpl_Channel otp_template = ''SMS''" "Tpl_TemplateID otp_template = ''phone_otp''"
    "Tpl_Locale otp_template = ''en''" "otp_template\<lparr>Tpl_Locale := ''en''\<rparr> = otp_template"
    by (simp_all add: otp_template_def DefaultTemplates_def channel_defs)
  show ?thesis
    using template_store_roundtrip [OF u refl, THEN conjunct2, THEN conjunct2, THEN conjunct2, THEN conjunct1,
        rule_format, of "''fr''"] other f
    by (simp add: defaultLocale_def)
qed

subsection \<open>Seeding\<close>

definition room_for :: "template_table \<Rightarrow> Template \<Rightarrow> bool" where
  "room_for t tpl \<longleftrightarrow> (case t (Tpl_Channel tpl, Tpl_TemplateID tpl, Tpl_Locale tpl) of
     None \<Rightarrow> True | Some r \<Rightarrow> row_version r < 2147483647)"

lemma Upsert_seeds:
  assumes "tpl \<in> set DefaultTemplates" "room_for t tpl"
  obtains r where "Upsert quoted NoFault db_now tpl t =
      (Inr (), t((Tpl_Channel tpl, Tpl_TemplateID tpl, Tpl_Locale tpl) \<mapsto> r))"
    "lookup_template (Tpl_Channel tpl) (Tpl_TemplateID tpl) (Tpl_Locale tpl)
       (t((Tpl_Channel tpl, Tpl_TemplateID tpl, Tpl_Locale tpl) \<mapsto> r)) = Some (tpl\<lparr>Tpl_UpdatedAt := db_now\<rparr>)"
proof -
  have ok: "Channel_Valid (Tpl_Channel tpl)" "Tpl_TemplateID tpl \<noteq> []" "Tpl_Body tpl \<noteq> []" "Tpl_Locale tpl \<noteq> []"
    using assms(1) by (auto simp: DefaultTemplates_def Channel_Valid_def email_verify_body_def
        password_reset_body_def phone_otp_body_def)
  let ?r = "\<lparr>row_subject = (if Tpl_Subject tpl \<noteq> [] then Some (Tpl_Subject tpl) else None),
     row_body = Tpl_Body tpl, row_version = (case t (Tpl_Channel tpl, Tpl_TemplateID tpl, Tpl_Locale tpl) of
       None \<Rightarrow> 1 | Some r \<Rightarrow> row_version r + 1), row_updated_at = db_now\<rparr>"
  have "Upsert quoted NoFault db_now tpl t =
      (Inr (), t((Tpl_Channel tpl, Tpl_TemplateID tpl, Tpl_Locale tpl) \<mapsto> ?r))"
    using ok assms(2)
    by (auto simp: Upsert_def upsert_stmt_def Let_def room_for_def Channel_Valid_def channel_defs
        split: option.splits)
  then show thesis by (rule that) (simp add: lookup_template_def)
qed

text \<open>Seeding any list of default templates with distinct keys: each is found in the end, since a later one leaves the
  rows of the earlier alone.\<close>

definition tpl_key :: "Template \<Rightarrow> string \<times> string \<times> string" where
  "tpl_key x = (Tpl_Channel x, Tpl_TemplateID x, Tpl_Locale x)"

definition stored_as :: "instant \<Rightarrow> template_table \<Rightarrow> Template \<Rightarrow> bool" where
  "stored_as db_now t x \<longleftrightarrow> lookup_template (Tpl_Channel x) (Tpl_TemplateID x) (Tpl_Locale x) t = Some (x\<lparr>Tpl_UpdatedAt := db_now\<rparr>)"

lemma stored_as_cong: "t (tpl_key x) = u (tpl_key x) \<Longrightarrow> stored_as db_now t x = stored_as db_now u x"
  by (simp add: stored_as_def lookup_template_def tpl_key_def)

lemma seed_loop_installs:
  assumes "set tpls \<subseteq> set DefaultTemplates" "distinct (map tpl_key tpls)" "list_all (room_for t) tpls"
  shows "\<exists>t'. seed_loop quoted db_now (map (\<lambda>x. (x, NoFault)) tpls) t = (Inr (), t') \<and> list_all (stored_as db_now t') tpls \<and>
    (\<forall>k. k \<notin> tpl_key ` set tpls \<longrightarrow> t' k = t k)"
  using assms
proof (induction tpls arbitrary: t)
  case Nil
  then show ?case by simp
next
  case (Cons x tpls)
  obtain r where r: "Upsert quoted NoFault db_now x t = (Inr (), t(tpl_key x \<mapsto> r))"
    and x: "stored_as db_now (t(tpl_key x \<mapsto> r)) x"
    using Upsert_seeds [of x t quoted db_now] Cons.prems(1,3) unfolding stored_as_def tpl_key_def by auto
  have fresh: "tpl_key x \<notin> tpl_key ` set tpls" using Cons.prems(2) by simp
  have "list_all (room_for (t(tpl_key x \<mapsto> r))) tpls"
    unfolding list_all_iff
  proof
    fix y assume y: "y \<in> set tpls"
    then have "tpl_key y \<noteq> tpl_key x" using fresh by (metis imageI)
    then have "(t(tpl_key x \<mapsto> r)) (tpl_key y) = t (tpl_key y)" by (rule fun_upd_other)
    then show "room_for (t(tpl_key x \<mapsto> r)) y" using Cons.prems(3) y by (simp add: room_for_def tpl_key_def [symmetric] list_all_iff)
  qed
  moreover have "set tpls \<subseteq> set DefaultTemplates" "distinct (map tpl_key tpls)" using Cons.prems(1,2) by simp_all
  ultimately obtain t' where
    t': "seed_loop quoted db_now (map (\<lambda>x. (x, NoFault)) tpls) (t(tpl_key x \<mapsto> r)) = (Inr (), t')"
    and rest: "list_all (stored_as db_now t') tpls" "\<forall>k. k \<notin> tpl_key ` set tpls \<longrightarrow> t' k = (t(tpl_key x \<mapsto> r)) k"
    using Cons.IH by blast
  have "stored_as db_now t' x" using x rest(2) fresh stored_as_cong by blast
  moreover have "\<forall>k. k \<notin> tpl_key ` set (x # tpls) \<longrightarrow> t' k = t k" using rest(2) by simp
  ultimately show ?case using r t' rest(1) by simp
qed

text \<open>Seeding works from any table whose version counters have not run out: it succeeds, and
  afterwards every default template is found, as written, under its own locale and under every
  locale that has no translation of its own.\<close>

lemma seed_installs_defaults:
  assumes "\<forall>tpl \<in> set DefaultTemplates. room_for t tpl"
  shows "\<exists>t'. Seed quoted db_now [NoFault, NoFault, NoFault] t = (Inr (), t') \<and>
    list_all (\<lambda>tpl. Get (NoFault, NoFault) (Tpl_Channel tpl) (Tpl_TemplateID tpl) ''en'' t' =
        Inr (tpl\<lparr>Tpl_UpdatedAt := db_now\<rparr>) \<and>
      (t' (Tpl_Channel tpl, Tpl_TemplateID tpl, loc) = None \<and> loc \<noteq> [] \<longrightarrow>
        Get (NoFault, NoFault) (Tpl_Channel tpl) (Tpl_TemplateID tpl) loc t' =
          Inr (tpl\<lparr>Tpl_UpdatedAt := db_now\<rparr>))) DefaultTemplates"
proof -
  have keys: "distinct (map tpl_key DefaultTemplates)" "\<forall>x \<in> set DefaultTemplates. Tpl_Locale x = ''en''"
    "zip DefaultTemplates [NoFault, NoFault, NoFault] = map (\<lambda>x. (x, NoFault)) DefaultTemplates"
    by (simp_all add: DefaultTemplates_def channel_defs tpl_key_def)
  obtain t' where seed: "Seed quoted db_now [NoFault, NoFault, NoFault] t = (Inr (), t')"
    and stored: "list_all (stored_as db_now t') DefaultTemplates"
    using seed_loop_installs [OF subset_refl keys(1), of t quoted db_now] assms
    by (auto simp: Seed_def keys(3) list_all_iff)
  have "Get (NoFault, NoFault) (Tpl_Channel x) (Tpl_TemplateID x) ''en'' t' = Inr (x\<lparr>Tpl_UpdatedAt := db_now\<rparr>) \<and>
      (t' (Tpl_Channel x, Tpl_TemplateID x, loc) = None \<and> loc \<noteq> [] \<longrightarrow>
        Get (NoFault, NoFault) (Tpl_Channel x) (Tpl_TemplateID x) loc t' = Inr (x\<lparr>Tpl_UpdatedAt := db_now\<rparr>))"
    if "x \<in> set DefaultTemplates" for x
  proof -
    have "lookup_template (Tpl_Channel x) (Tpl_TemplateID x) ''en'' t' = Some (x\<lparr>Tpl_UpdatedAt := db_now\<rparr>)"
      using stored keys(2) that by (simp add: list_all_iff stored_as_def)
    moreover have "t' (Tpl_Channel x, Tpl_TemplateID x, loc) = None \<Longrightarrow> lookup_template (Tpl_Channel x) (Tpl_TemplateID x) loc t' = None"
      by (simp add: lookup_template_def)
    ultimately show ?thesis unfolding Get_NoFault by (simp add: defaultLocale_def)
  qed
  then show ?thesis using seed by (auto simp: list_all_iff)
qed

lemma seed_installs_defaults_witness:
  "\<exists>t'. Seed id 7 [NoFault, NoFault, NoFault] (\<lambda>_. None) = (Inr (), t') \<and>
    Get (NoFault, NoFault) ''SMS'' ''phone_otp'' ''en'' t' = Inr (otp_template\<lparr>Tpl_UpdatedAt := 7\<rparr>)"
proof -
  have "\<forall>tpl \<in> set DefaultTemplates. room_for (\<lambda>_. None) tpl" by (simp add: room_for_def)
  from seed_installs_defaults [OF this, of id 7 "''fr''"] show ?thesis
    by (auto simp: DefaultTemplates_def otp_template_def channel_defs)
qed

subsection \<open>Rendering\<close>

lemma renderText_Inr: "renderText eng name src vars = Inr s \<longleftrightarrow> text_engine eng [''missingkey=error''] name src (varsMap vars) = Output s"
  by (simp add: renderText_def split: rendering.splits)

lemma renderHTML_Inr: "renderHTML eng src vars = Inr s \<longleftrightarrow> html_engine eng [''missingkey=error''] ''html'' src (varsMap vars) = Output s"
  by (simp add: renderHTML_def split: rendering.splits)

text \<open>C30. What \<open>Render\<close> returns is the engines' output and nothing else: the subject from the text
  engine (empty where the template has none), an e-mail's body from the HTML engine, which escapes, and any
  other body from the text engine, each under the option \<open>missingkey=error\<close>; within 998 bytes of subject and 100000 of body, 1600 for SMS.
  Anything larger is refused, and every failure is one of three sentinels: validation, missing
  variable, too large.\<close>

theorem render_exact:
  "(Render eng (Some tpl) vars = Inr (subject, body) \<longleftrightarrow>
     (if Tpl_Subject tpl = [] then subject = []
      else text_engine eng [''missingkey=error''] ''subject'' (Tpl_Subject tpl) (varsMap vars) = Output subject) \<and>
     (if Tpl_Channel tpl = ChannelEmail then html_engine eng [''missingkey=error''] ''html'' (Tpl_Body tpl) (varsMap vars) = Output body
      else text_engine eng [''missingkey=error''] ''body'' (Tpl_Body tpl) (varsMap vars) = Output body) \<and>
     length subject \<le> 998 \<and> length body \<le> (if Tpl_Channel tpl = ChannelSMS then 1600 else 100000)) \<and>
   (case Render eng tpl_ptr vars of Inl e \<Rightarrow> Is e \<in> {ErrValidation, ErrMissingVar, ErrRenderTooLarge}
    | Inr r \<Rightarrow> tpl_ptr \<noteq> None)"
proof
  show "Render eng (Some tpl) vars = Inr (subject, body) \<longleftrightarrow>
     (if Tpl_Subject tpl = [] then subject = []
      else text_engine eng [''missingkey=error''] ''subject'' (Tpl_Subject tpl) (varsMap vars) = Output subject) \<and>
     (if Tpl_Channel tpl = ChannelEmail then html_engine eng [''missingkey=error''] ''html'' (Tpl_Body tpl) (varsMap vars) = Output body
      else text_engine eng [''missingkey=error''] ''body'' (Tpl_Body tpl) (varsMap vars) = Output body) \<and>
     length subject \<le> 998 \<and> length body \<le> (if Tpl_Channel tpl = ChannelSMS then 1600 else 100000)"
  proof -
    define S where "S = (if Tpl_Subject tpl \<noteq> [] then renderText eng ''subject'' (Tpl_Subject tpl) vars else Inr [])"
    define B where "B = (if Tpl_Channel tpl = ChannelEmail then renderHTML eng (Tpl_Body tpl) vars
      else renderText eng ''body'' (Tpl_Body tpl) vars)"
    have "Render eng (Some tpl) vars = Inr (subject, body) \<longleftrightarrow> S = Inr subject \<and> B = Inr body \<and>
        length subject \<le> 998 \<and> length body \<le> (if Tpl_Channel tpl = ChannelSMS then 1600 else 100000)"
      unfolding Render_def option.case S_def [symmetric] B_def [symmetric]
      by (cases S; cases B) (auto simp: Let_def maxSubjectLen_def maxSMSBodyLen_def maxBodyLen_def)
    moreover have "S = Inr subject \<longleftrightarrow> (if Tpl_Subject tpl = [] then subject = []
        else text_engine eng [''missingkey=error''] ''subject'' (Tpl_Subject tpl) (varsMap vars) = Output subject)"
      by (auto simp: S_def renderText_Inr)
    moreover have "B = Inr body \<longleftrightarrow> (if Tpl_Channel tpl = ChannelEmail
        then html_engine eng [''missingkey=error''] ''html'' (Tpl_Body tpl) (varsMap vars) = Output body
        else text_engine eng [''missingkey=error''] ''body'' (Tpl_Body tpl) (varsMap vars) = Output body)"
      by (simp add: B_def renderText_Inr renderHTML_Inr)
    ultimately show ?thesis by simp
  qed
  have t: "renderText eng name src vars = Inl e \<Longrightarrow> Is e \<in> {ErrValidation, ErrMissingVar}" for name src e
    by (auto simp: renderText_def classifyExecErr_def error_defs split: rendering.splits if_splits)
  have h: "renderHTML eng src vars = Inl e \<Longrightarrow> Is e \<in> {ErrValidation, ErrMissingVar}" for src e
    by (auto simp: renderHTML_def classifyExecErr_def error_defs split: rendering.splits if_splits)
  show "case Render eng tpl_ptr vars of Inl e \<Rightarrow> Is e \<in> {ErrValidation, ErrMissingVar, ErrRenderTooLarge}
    | Inr r \<Rightarrow> tpl_ptr \<noteq> None"
    by (auto simp: Render_def Let_def error_defs split: option.splits sum.splits if_splits dest!: t h)
qed

text \<open>The documented behaviour of the engines under the option \<open>missingkey=error\<close>, and only under it: executing a
  template that looks up a key the map does not have is an error whose text says so. \<open>refs\<close> are the keys that
  executing a template looks up. Without the option the engines print \<open><no value>\<close>.\<close>

definition missingkey_error :: "engines \<Rightarrow> (string \<Rightarrow> string set) \<Rightarrow> bool" where
  "missingkey_error eng refs \<longleftrightarrow>
     (\<forall>opts name src vs k. ''missingkey=error'' \<in> set opts \<and> k \<in> refs src \<and> k \<notin> fst ` set vs \<longrightarrow>
        (\<exists>m. text_engine eng opts name src vs = Exec_Error m \<and> contains m ''map has no entry for key'') \<and>
        (\<exists>m. html_engine eng opts name src vs = Exec_Error m \<and> contains m ''map has no entry for key''))"

lemma missing_renders:
  assumes "missingkey_error eng refs" "k \<notin> fst ` set (varsMap vars)" "k \<in> refs src"
  shows "\<exists>e. renderText eng name src vars = Inl e \<and> Is e = ErrMissingVar"
    and "\<exists>e. renderHTML eng src vars = Inl e \<and> Is e = ErrMissingVar"
proof -
  have opt: "''missingkey=error'' \<in> set [''missingkey=error'']" by simp
  obtain m m' where m: "text_engine eng [''missingkey=error''] name src (varsMap vars) = Exec_Error m"
    "contains m ''map has no entry for key''"
    "html_engine eng [''missingkey=error''] ''html'' src (varsMap vars) = Exec_Error m'" "contains m' ''map has no entry for key''"
    using assms opt unfolding missingkey_error_def by blast
  show "\<exists>e. renderText eng name src vars = Inl e \<and> Is e = ErrMissingVar"
    using m by (simp add: renderText_def classifyExecErr_def detailed_def)
  show "\<exists>e. renderHTML eng src vars = Inl e \<and> Is e = ErrMissingVar"
    using m by (simp add: renderHTML_def classifyExecErr_def detailed_def)
qed

text \<open>C31. Rendering fails closed. The renderer asks the engines for \<open>missingkey=error\<close>, so a template that looks up a
  variable the caller did not supply, in its subject or its body, is never rendered, with nil variables or any
  others, and no \<open><no value>\<close> is ever sent. The error is the missing-variable one when there is no subject, when the
  subject lacks the variable, or when it renders; a subject that fails otherwise gives its own error first.\<close>

theorem missing_variable_fails_closed:
  assumes "missingkey_error eng refs"
    and "k \<in> refs (Tpl_Body tpl) \<union> (if Tpl_Subject tpl = [] then {} else refs (Tpl_Subject tpl))"
    and "k \<notin> fst ` set (varsMap vars)"
  shows "(\<exists>e. Render eng (Some tpl) vars = Inl e) \<and>
    ((\<exists>s. renderText eng ''subject'' (Tpl_Subject tpl) vars = Inr s) \<or> Tpl_Subject tpl = [] \<or>
      k \<in> refs (Tpl_Subject tpl) \<longrightarrow>
     (\<exists>e. Render eng (Some tpl) vars = Inl e \<and> Is e = ErrMissingVar))"
proof -
  note t = missing_renders(1) [OF assms(1,3)] and h = missing_renders(2) [OF assms(1,3)]
  consider "Tpl_Subject tpl \<noteq> []" "k \<in> refs (Tpl_Subject tpl)" | "k \<in> refs (Tpl_Body tpl)"
    using assms(2) by (auto split: if_splits)
  then show ?thesis
  proof cases
    case 1
    then show ?thesis using t [of "Tpl_Subject tpl" "''subject''"] by (auto simp: Render_def)
  next
    case 2
    define S where "S = (if Tpl_Subject tpl \<noteq> [] then renderText eng ''subject'' (Tpl_Subject tpl) vars else Inr [])"
    define B where "B = (if Tpl_Channel tpl = ChannelEmail then renderHTML eng (Tpl_Body tpl) vars
      else renderText eng ''body'' (Tpl_Body tpl) vars)"
    obtain e where B: "B = Inl e" "Is e = ErrMissingVar"
      using t [OF 2, of "''body''"] h [OF 2] unfolding B_def
      by (cases "Tpl_Channel tpl = ChannelEmail") auto
    have r: "Render eng (Some tpl) vars = (case S of Inl e' \<Rightarrow> Inl e' | Inr s \<Rightarrow> Inl e)"
      unfolding Render_def option.case S_def [symmetric] B_def [symmetric] B(1) by (cases S) simp_all
    show ?thesis
    proof (cases S)
      case (Inl e')
      then have s: "Tpl_Subject tpl \<noteq> []" "renderText eng ''subject'' (Tpl_Subject tpl) vars = Inl e'"
        by (auto simp: S_def split: if_splits)
      have "k \<in> refs (Tpl_Subject tpl) \<Longrightarrow> Is e' = ErrMissingVar"
        using t [of "Tpl_Subject tpl" "''subject''"] s(2) by auto
      then show ?thesis using r Inl s by simp
    qed (simp add: r B(2))
  qed
qed

text \<open>An engine for the witness: the template \<open>C\<close> refers to the variable \<open>code\<close> and prints it.\<close>

definition code_engine :: engine where
  "code_engine opts name src vs = (if src = ''C'' then (case map_of vs ''code'' of
     None \<Rightarrow> (if ''missingkey=error'' \<in> set opts then Exec_Error ''map has no entry for key \"code\"''
       else Output ''<no value>'')
   | Some v \<Rightarrow> Output v) else Output src)"

definition code_refs :: "string \<Rightarrow> string set" where
  "code_refs src = (if src = ''C'' then {''code''} else {})"

definition code_engines :: engines where
  "code_engines = \<lparr>text_engine = code_engine, html_engine = code_engine\<rparr>"

lemma code_engine_law: "missingkey_error code_engines code_refs"
proof -
  have "contains ''map has no entry for key \"code\"'' ''map has no entry for key''"
    by code_simp
  moreover have "map_of vs ''code'' = None" if "''code'' \<notin> fst ` set vs" for vs :: "(string \<times> string) list"
    using that by (simp add: map_of_eq_None_iff)
  ultimately show ?thesis
    by (simp add: missingkey_error_def code_engines_def code_engine_def code_refs_def)
qed

definition code_template :: Template where
  "code_template = \<lparr>Tpl_Channel = ''SMS'', Tpl_TemplateID = ''otp'', Tpl_Locale = ''en'',
     Tpl_Subject = [], Tpl_Body = ''C'', Tpl_UpdatedAt = 0\<rparr>"

lemma missing_variable_fails_closed_witness:
  "(\<exists>e. Render code_engines (Some code_template) None = Inl e \<and> Is e = ErrMissingVar) \<and>
   Render code_engines (Some code_template) (Some [(''code'', ''123'')]) = Inr ([], ''123'')"
proof
  show "\<exists>e. Render code_engines (Some code_template) None = Inl e \<and> Is e = ErrMissingVar"
    using missing_variable_fails_closed [OF code_engine_law, of "''code''" code_template None]
    by (simp add: code_template_def code_refs_def varsMap_def)
  show "Render code_engines (Some code_template) (Some [(''code'', ''123'')]) = Inr ([], ''123'')"
    by (simp add: Render_def renderText_def code_template_def code_engines_def code_engine_def varsMap_def
        channel_defs maxSubjectLen_def maxSMSBodyLen_def)
qed

end
