(* ===== verification/Sendlog.thy ===== *)
theory Sendlog
  imports Comms_Types
begin

text \<open>
  The send log and the delivery receipts (\<open>internal/comms/sendlog/sendlog.go\<close>, \<open>receipts.go\<close> on
  \<open>migrations/000004\<close> and \<open>000005\<close>): the claim of an idempotency key, the recording of a result,
  receipts with their closed set of statuses, and the purge of expired rows.

  A row's nullable columns are options; \<open>read_row\<close> is what the query's \<open>COALESCE\<close>s and \<open>Scan\<close>
  make of it. \<open>now()\<close> of the database, \<open>uuid.New()\<close> and \<open>time.Now()\<close> are arguments.
\<close>

record log_row =
  l_id :: uuid
  l_key :: string
  l_channel :: string
  l_provider :: string
  l_template :: string
  l_user :: "uuid option"
  l_to_hash :: string
  l_status :: string
  l_attempts :: int
  l_msg_id :: "string option"
  l_error :: "string option"
  l_created :: instant
  l_updated :: instant

type_synonym send_log = "log_row list"

definition coalesce :: "string option \<Rightarrow> string" where
  "coalesce x = (case x of None \<Rightarrow> [] | Some s \<Rightarrow> s)"

definition read_row :: "log_row \<Rightarrow> SendLogRow" where
  "read_row r = \<lparr>Log_ID = l_id r, Log_IdempotencyKey = l_key r, Log_Channel = l_channel r,
     Log_Provider = l_provider r, Log_TemplateID = l_template r, Log_UserID = l_user r,
     Log_ToHash = l_to_hash r, Log_Status = l_status r, Log_Attempts = l_attempts r,
     Log_ProviderMsgID = coalesce (l_msg_id r), Log_LastError = coalesce (l_error r),
     Log_CreatedAt = l_created r, Log_UpdatedAt = l_updated r\<rparr>"

subsection \<open>Claiming a key\<close>

definition status_check :: "string \<Rightarrow> bool" where
  "status_check s \<longleftrightarrow> s \<in> set [''PENDING'', ''SENT'', ''FAILED'', ''DEAD'']"

text \<open>\<open>INSERT \<dots> ON CONFLICT (idempotency_key) DO NOTHING\<close>, answering the number of rows inserted.\<close>

definition reserve_stmt :: "uuid \<Rightarrow> instant \<Rightarrow> SendLogRow \<Rightarrow> send_log \<Rightarrow> (string + nat) \<times> send_log" where
  "reserve_stmt i db_now r s =
     (if \<exists>x \<in> set s. l_key x = Log_IdempotencyKey r then (Inr 0, s)
      else if \<exists>x \<in> set s. l_id x = i
      then (Inl ''duplicate key value violates unique constraint comms_send_log_pkey'', s)
      else (Inr 1, s @ [\<lparr>l_id = i, l_key = Log_IdempotencyKey r, l_channel = Log_Channel r,
        l_provider = Log_Provider r, l_template = Log_TemplateID r, l_user = Log_UserID r,
        l_to_hash = Log_ToHash r, l_status = StatusPending, l_attempts = 0, l_msg_id = None,
        l_error = None, l_created = db_now, l_updated = db_now\<rparr>]))"

definition select_key_stmt :: "string \<Rightarrow> send_log \<Rightarrow> (string + log_row option) \<times> send_log" where
  "select_key_stmt k s = (Inr (List.find (\<lambda>x. l_key x = k) s), s)"

definition getByIdempotencyKey :: "fault \<Rightarrow> string \<Rightarrow> send_log \<Rightarrow> comms_error + SendLogRow" where
  "getByIdempotencyKey f k s = (case fst (db_exec f (select_key_stmt k) s) of
     Inl m \<Rightarrow> Inl (foreign_error (''get send_log by idempotency key: '' @ m))
   | Inr None \<Rightarrow> Inl (foreign_error ''sendlog: row not found'')
   | Inr (Some r) \<Rightarrow> Inr (read_row r))"

text \<open>The result is the row and whether this caller claimed the key.\<close>

definition Reserve ::
  "fault \<Rightarrow> fault \<Rightarrow> uuid \<Rightarrow> instant \<Rightarrow> SendLogRow \<Rightarrow> send_log \<Rightarrow>
   (comms_error + SendLogRow \<times> bool) \<times> send_log" where
  "Reserve f f_select i db_now r s =
     (case db_exec f (reserve_stmt i db_now r) s of
        (Inl m, s') \<Rightarrow> (Inl (foreign_error (''reserve send_log: '' @ m)), s')
      | (Inr n, s') \<Rightarrow>
          if n = 1 then (Inr (r\<lparr>Log_ID := i, Log_Status := StatusPending\<rparr>, True), s')
          else (case getByIdempotencyKey f_select (Log_IdempotencyKey r) s' of
              Inl e \<Rightarrow> (Inl e, s')
            | Inr ex \<Rightarrow> (Inr (ex, False), s')))"

subsection \<open>Recording a result\<close>

text \<open>\<open>attempts\<close> is a 32-bit column.\<close>

definition mark_row :: "instant \<Rightarrow> string \<Rightarrow> string option \<Rightarrow> string option \<Rightarrow> log_row \<Rightarrow> log_row" where
  "mark_row db_now status msg_id err r = r\<lparr>l_status := status, l_attempts := l_attempts r + 1,
     l_msg_id := (case msg_id of Some m \<Rightarrow> Some m | None \<Rightarrow> l_msg_id r), l_error := err, l_updated := db_now\<rparr>"

definition mark_stmt ::
  "instant \<Rightarrow> uuid \<Rightarrow> string \<Rightarrow> string option \<Rightarrow> string option \<Rightarrow> send_log \<Rightarrow>
   (string + nat) \<times> send_log" where
  "mark_stmt db_now i status msg_id err s =
     (if \<exists>r \<in> set s. l_id r = i \<and> l_attempts r \<ge> 2147483647 then (Inl ''integer out of range'', s)
      else (Inr (length (filter (\<lambda>r. l_id r = i) s)),
        map (\<lambda>r. if l_id r = i then mark_row db_now status msg_id err r else r) s))"

text \<open>\<open>quoted\<close> and \<open>str\<close> are \<open>%q\<close> of a string and \<open>%s\<close> of a uuid.\<close>

definition MarkResult ::
  "(string \<Rightarrow> string) \<Rightarrow> (uuid \<Rightarrow> string) \<Rightarrow> fault \<Rightarrow> instant \<Rightarrow> uuid \<Rightarrow> string \<Rightarrow> string \<Rightarrow>
   comms_error option \<Rightarrow> send_log \<Rightarrow> (comms_error + unit) \<times> send_log" where
  "MarkResult quoted str f db_now i status providerMsgID sendErr s =
     (if status \<noteq> StatusSent \<and> status \<noteq> StatusFailed \<and> status \<noteq> StatusDead
      then (Inl (detailed ErrValidation (''invalid send_log status '' @ quoted status)), s)
      else let msg_id = (if providerMsgID \<noteq> [] then Some providerMsgID else None);
               err = map_option (\<lambda>e. SanitizeError (Some (ErrorText e))) sendErr
           in case db_exec f (mark_stmt db_now i status msg_id err) s of
                (Inl m, s') \<Rightarrow> (Inl (foreign_error (''mark send_log result: '' @ m)), s')
              | (Inr n, s') \<Rightarrow>
                  if n = 0 then (Inl (foreign_error (''mark send_log result: row '' @ str i @ '' not found'')), s')
                  else (Inr (), s'))"

subsection \<open>Receipts\<close>

definition ReceiptDelivered :: string where "ReceiptDelivered = ''DELIVERED''"
definition ReceiptBounced :: string where "ReceiptBounced = ''BOUNCED''"
definition ReceiptFailed :: string where "ReceiptFailed = ''FAILED''"
definition ReceiptUnknown :: string where "ReceiptUnknown = ''UNKNOWN''"

lemmas receipt_defs = ReceiptDelivered_def ReceiptBounced_def ReceiptFailed_def ReceiptUnknown_def

definition NormalizeReceiptStatus :: "string \<Rightarrow> string" where
  "NormalizeReceiptStatus reported =
     (let s = to_lower (trim_space reported) in
      if s \<in> set [''delivered'', ''delivery'', ''success'', ''sent'', ''ok''] then ReceiptDelivered
      else if s \<in> set [''bounce'', ''bounced'', ''blocked'', ''spam''] then ReceiptBounced
      else if s \<in> set [''failed'', ''failure'', ''undelivered'', ''rejected'', ''error''] then ReceiptFailed
      else ReceiptUnknown)"

record receipt =
  rc_id :: uuid
  rc_provider :: string
  rc_msg_id :: string
  rc_status :: string
  rc_raw :: "string option"
  rc_received_at :: instant

text \<open>The CHECK constraint of \<open>migrations/000005\<close>.\<close>

definition receipt_check :: "string \<Rightarrow> bool" where
  "receipt_check s \<longleftrightarrow> s \<in> set [''DELIVERED'', ''BOUNCED'', ''FAILED'', ''UNKNOWN'']"

definition receipt_stmt :: "receipt \<Rightarrow> receipt list \<Rightarrow> (string + unit) \<times> receipt list" where
  "receipt_stmt r s =
     (if \<not> receipt_check (rc_status r)
      then (Inl ''new row violates check constraint comms_delivery_receipts_status_check'', s)
      else if \<exists>x \<in> set s. rc_id x = rc_id r
      then (Inl ''duplicate key value violates unique constraint comms_delivery_receipts_pkey'', s)
      else (Inr (), s @ [r]))"

definition receipt_insert :: "pg \<Rightarrow> receipt \<Rightarrow> receipt list \<Rightarrow> (string + unit) \<times> receipt list" where
  "receipt_insert pg r s = (case rc_raw r of
     None \<Rightarrow> receipt_stmt r s
   | Some js \<Rightarrow> (case pg_jsonb pg js of
       None \<Rightarrow> (Inl ''invalid input syntax for type json'', s)
     | Some js' \<Rightarrow> receipt_stmt (r\<lparr>rc_raw := Some js'\<rparr>) s))"

text \<open>\<open>marshal\<close> is \<open>json.Marshal\<close> of a string; \<open>pg_jsonb\<close> decides whether the column accepts it.\<close>

definition InsertReceipt ::
  "pg \<Rightarrow> (string \<Rightarrow> string + string) \<Rightarrow> fault \<Rightarrow> uuid \<Rightarrow> instant \<Rightarrow> string \<Rightarrow> string \<Rightarrow> string \<Rightarrow> string \<Rightarrow>
   receipt list \<Rightarrow> (comms_error + uuid) \<times> receipt list" where
  "InsertReceipt pg marshal f i db_now provider providerMsgID status rawPayload s =
     (if provider = [] \<or> providerMsgID = []
      then (Inl (detailed ErrValidation ''provider and provider_msg_id are required''), s)
      else let normalized = NormalizeReceiptStatus status in
        case (if rawPayload = [] then Inr None
              else (case marshal (SanitizeText rawPayload) of
                  Inl e \<Rightarrow> Inl e | Inr js \<Rightarrow> Inr (Some js))) of
          Inl e \<Rightarrow> (Inl (foreign_error (''encode receipt raw: '' @ e)), s)
        | Inr stored \<Rightarrow>
            (case db_exec f (receipt_insert pg \<lparr>rc_id = i, rc_provider = provider, rc_msg_id = providerMsgID,
                 rc_status = normalized, rc_raw = stored, rc_received_at = db_now\<rparr>) s of
               (Inl m, s') \<Rightarrow> (Inl (foreign_error (''insert delivery receipt: '' @ m)), s')
             | (Inr u, s') \<Rightarrow> (Inr i, s')))"

subsection \<open>Retention\<close>

text \<open>Thirty days in nanoseconds. A cutoff of \<open>None\<close> is the zero time.\<close>

definition retentionInterval :: int where
  "retentionInterval = 30 * 24 * 60 * minute"

definition delete_before ::
  "('r \<Rightarrow> instant) \<Rightarrow> instant \<Rightarrow> 'r list \<Rightarrow> (string + nat) \<times> 'r list" where
  "delete_before at cutoff s =
     (Inr (length (filter (\<lambda>r. at r < cutoff) s)), filter (\<lambda>r. \<not> at r < cutoff) s)"

definition PurgeExpired ::
  "pg \<Rightarrow> fault \<Rightarrow> fault \<Rightarrow> instant \<Rightarrow> instant option \<Rightarrow> send_log \<times> receipt list \<Rightarrow>
   (nat \<times> nat \<times> comms_error option) \<times> send_log \<times> receipt list" where
  "PurgeExpired pg f1 f2 now cutoff st =
     (let at = pg_time pg (case cutoff of None \<Rightarrow> now - retentionInterval | Some c \<Rightarrow> c);
          (logs, receipts) = st
      in case db_exec f1 (delete_before l_created at) logs of
           (Inl m, logs') \<Rightarrow> ((0, 0, Some (foreign_error (''purge send_log: '' @ m))), logs', receipts)
         | (Inr n, logs') \<Rightarrow>
             (case db_exec f2 (delete_before rc_received_at at) receipts of
                (Inl m, receipts') \<Rightarrow>
                  ((n, 0, Some (foreign_error (''purge delivery_receipts: '' @ m))), logs', receipts')
              | (Inr k, receipts') \<Rightarrow> ((n, k, None), logs', receipts')))"

subsection \<open>The log's invariant and its operations\<close>

definition log_row_ok :: "log_row \<Rightarrow> bool" where
  "log_row_ok r \<longleftrightarrow> status_check (l_status r) \<and> 0 \<le> l_attempts r \<and>
     (l_status r = StatusPending \<longleftrightarrow> l_attempts r = 0) \<and>
     list_all printable (runes (coalesce (l_error r))) \<and> length (runes (coalesce (l_error r))) \<le> 1000"

definition log_ok :: "send_log \<Rightarrow> bool" where
  "log_ok s \<longleftrightarrow> distinct (map l_id s) \<and> distinct (map l_key s) \<and> list_all log_row_ok s"

datatype log_op =
    LReserve fault fault uuid instant SendLogRow
  | LMark fault instant uuid string string "comms_error option"
  | LPurge fault instant "instant option"

definition purge_log :: "pg \<Rightarrow> fault \<Rightarrow> instant \<Rightarrow> instant option \<Rightarrow> send_log \<Rightarrow> send_log" where
  "purge_log pg f now cutoff s = fst (snd (PurgeExpired pg f NoFault now cutoff (s, [])))"

fun log_step ::
  "pg \<Rightarrow> (string \<Rightarrow> string) \<Rightarrow> (uuid \<Rightarrow> string) \<Rightarrow> log_op \<Rightarrow> send_log \<Rightarrow> send_log" where
  "log_step pg q str (LReserve f f' i t r) s = snd (Reserve f f' i t r s)"
| "log_step pg q str (LMark f t i st m e) s = snd (MarkResult q str f t i st m e s)"
| "log_step pg q str (LPurge f t c) s = purge_log pg f t c s"

lemma Reserve_state: "snd (Reserve f f' i t r s) = snd (db_exec f (reserve_stmt i t r) s)"
  by (auto simp: Reserve_def case_prod_unfold split: sum.splits)

lemma MarkResult_state:
  "snd (MarkResult q str f t i st m e s) =
     (if st \<in> {StatusSent, StatusFailed, StatusDead}
      then snd (db_exec f (mark_stmt t i st (if m \<noteq> [] then Some m else None)
        (map_option (\<lambda>e. SanitizeError (Some (ErrorText e))) e)) s) else s)"
  by (simp add: MarkResult_def Let_def case_prod_unfold split: sum.splits)

lemma purge_log_state:
  "purge_log pg f now c s =
     snd (db_exec f (delete_before l_created (pg_time pg (case c of None \<Rightarrow> now - retentionInterval | Some c \<Rightarrow> c))) s)"
  by (auto simp: purge_log_def PurgeExpired_def Let_def case_prod_unfold split: sum.splits)

lemma reserve_ok: "log_ok s \<Longrightarrow> log_ok (snd (reserve_stmt i t r s))"
  by (auto simp: log_ok_def log_row_ok_def reserve_stmt_def status_check_def status_defs coalesce_def runes_def)

lemma mark_row_same [simp]: "l_id (mark_row t st m err r) = l_id r" "l_key (mark_row t st m err r) = l_key r"
  by (simp_all add: mark_row_def)

lemma map_mark_same:
  "map l_id (map (\<lambda>r. if l_id r = i then mark_row t st m err r else r) s) = map l_id s"
  "map l_key (map (\<lambda>r. if l_id r = i then mark_row t st m err r else r) s) = map l_key s"
  by (induction s) auto

lemma mark_row_ok:
  assumes "log_row_ok r" "st \<in> {StatusSent, StatusFailed, StatusDead}"
    and "case err of None \<Rightarrow> True | Some x \<Rightarrow> list_all printable (runes x) \<and> length (runes x) \<le> 1000"
  shows "log_row_ok (mark_row t st m err r)"
proof -
  have "st \<noteq> StatusPending" "status_check st" using assms(2) by (auto simp: status_defs status_check_def)
  moreover have "runes [] = []" by (simp add: runes_def)
  ultimately show ?thesis using assms(1,3)
    by (auto simp: log_row_ok_def mark_row_def coalesce_def split: option.splits)
qed

lemma mark_ok:
  assumes "log_ok s" "st \<in> {StatusSent, StatusFailed, StatusDead}"
    and "case err of None \<Rightarrow> True | Some x \<Rightarrow> list_all printable (runes x) \<and> length (runes x) \<le> 1000"
  shows "log_ok (snd (mark_stmt t i st m err s))"
proof -
  have "list_all log_row_ok (map (\<lambda>r. if l_id r = i then mark_row t st m err r else r) s)"
    using assms(1) mark_row_ok [OF _ assms(2,3)] by (auto simp: log_ok_def list_all_iff)
  then have "log_ok (map (\<lambda>r. if l_id r = i then mark_row t st m err r else r) s)"
    using assms(1) unfolding log_ok_def map_mark_same by simp
  then show ?thesis using assms(1) by (simp add: mark_stmt_def)
qed

lemma delete_ok: "log_ok s \<Longrightarrow> log_ok (snd (delete_before l_created c s))"
  by (simp add: log_ok_def delete_before_def distinct_map_filter list_all_iff)

lemma sanitized_error:
  "list_all printable (runes (SanitizeError e)) \<and> length (runes (SanitizeError e)) \<le> 1000"
  using sanitize_runes [of _ 1000]
  by (simp add: SanitizeError_def maxErrorLen_def runes_def split: option.splits)

lemma log_step_ok:
  assumes "log_ok s"
  shows "log_ok (log_step pg q str p s)"
proof (cases p)
  case (LReserve f f' i t r)
  show ?thesis unfolding LReserve log_step.simps Reserve_state
    by (rule db_exec_inv) (use assms reserve_ok in auto)
next
  case (LMark f t i st m e)
  let ?err = "map_option (\<lambda>e. SanitizeError (Some (ErrorText e))) e"
  have "case ?err of None \<Rightarrow> True | Some x \<Rightarrow> list_all printable (runes x) \<and> length (runes x) \<le> 1000"
    using sanitized_error by (simp split: option.splits)
  then have "st \<in> {StatusSent, StatusFailed, StatusDead} \<Longrightarrow>
      log_ok (snd (db_exec f (mark_stmt t i st (if m \<noteq> [] then Some m else None) ?err) s))"
    by (intro db_exec_inv [where P = log_ok] assms mark_ok)
  then show ?thesis unfolding LMark log_step.simps MarkResult_state using assms by simp
next
  case (LPurge f t c)
  show ?thesis unfolding LPurge log_step.simps purge_log_state
    by (rule db_exec_inv) (use assms delete_ok in auto)
qed

text \<open>The send log keeps its shape under any sequence of claims, results and purges with any
  faults: ids and idempotency keys distinct, statuses in the closed set, a row pending exactly as
  long as no attempt is recorded, and every stored error free of control characters and at most
  1000 runes long, whatever text the provider's error had.\<close>

lemma send_log_invariant:
  "log_ok (fold (log_step pg q str) ops [])"
proof -
  have "log_ok (fold (log_step pg q str) ops s)" if "log_ok s" for s
    using that by (induction ops arbitrary: s) (simp_all add: log_step_ok)
  then show ?thesis by (simp add: log_ok_def)
qed

subsection \<open>A key is claimed once\<close>

record claim =
  c_fault :: fault
  c_select :: fault
  c_id :: uuid
  c_now :: instant
  c_row :: SendLogRow

definition claim_step :: "claim \<Rightarrow> send_log \<Rightarrow> bool \<times> send_log" where
  "claim_step c s = (case Reserve (c_fault c) (c_select c) (c_id c) (c_now c) (c_row c) s of
     (r, s') \<Rightarrow> (case r of Inl e \<Rightarrow> False | Inr (row, claimed) \<Rightarrow> claimed, s'))"

definition held_keys :: "send_log \<Rightarrow> string set" where
  "held_keys s = set (map l_key s)"

lemma Reserve_claimed:
  assumes "Reserve f f' i t r s = (Inr (row, True), s')"
  shows "f = NoFault" "reserve_stmt i t r s = (Inr 1, s')" "Log_ID row = i"
    "row = r\<lparr>Log_ID := i, Log_Status := StatusPending\<rparr>"
  using assms
  by (auto simp: Reserve_def split: prod.splits sum.splits if_splits dest!: db_exec_InrD)

lemma reserve_stmt_claims:
  assumes "reserve_stmt i t r s = (Inr 1, s')"
  shows "Log_IdempotencyKey r \<notin> held_keys s" "held_keys s' = insert (Log_IdempotencyKey r) (held_keys s)"
  using assms by (auto simp: reserve_stmt_def held_keys_def split: if_splits)

lemma reserve_stmt_mono: "held_keys s \<subseteq> held_keys (snd (reserve_stmt i t r s))"
  by (auto simp: reserve_stmt_def held_keys_def)

lemma claim_step_True:
  assumes "claim_step c s = (True, s')"
  obtains row where "Reserve (c_fault c) (c_select c) (c_id c) (c_now c) (c_row c) s = (Inr (row, True), s')"
  using assms by (auto simp: claim_step_def split: prod.splits sum.splits)

lemma claim_step_state:
  "snd (claim_step a s) = snd (db_exec (c_fault a) (reserve_stmt (c_id a) (c_now a) (c_row a)) s)"
  by (simp add: claim_step_def case_prod_unfold Reserve_state)

interpretation send_claims: claim_once claim_step "\<lambda>c. Log_IdempotencyKey (c_row c)" held_keys
proof
  fix a s s' assume "claim_step a s = (True, s')"
  then obtain row where r: "Reserve (c_fault a) (c_select a) (c_id a) (c_now a) (c_row a) s = (Inr (row, True), s')"
    by (rule claim_step_True)
  note st = reserve_stmt_claims [OF Reserve_claimed(2) [OF r]]
  show "Log_IdempotencyKey (c_row a) \<notin> held_keys s" by (rule st(1))
  show "Log_IdempotencyKey (c_row a) \<in> held_keys s'" by (simp add: st(2))
next
  fix a s b s' assume "claim_step a s = (b, s')"
  then have "s' = snd (db_exec (c_fault a) (reserve_stmt (c_id a) (c_now a) (c_row a)) s)"
    using claim_step_state [of a s] by simp
  then show "held_keys s \<subseteq> held_keys s'"
    using db_exec_state [of "c_fault a" "reserve_stmt (c_id a) (c_now a) (c_row a)" s]
      reserve_stmt_mono [of s "c_id a" "c_now a" "c_row a"] by auto
qed

text \<open>C15. Of all the attempts to reserve one idempotency key, in any order, with any faults, at most one
  is told that it claimed the key.\<close>

theorem key_claimed_once:
  "wins (\<lambda>c. Log_IdempotencyKey (c_row c)) k cs (fst (run_steps claim_step cs s)) \<le> 1"
  by (rule send_claims.at_most_one_win)

text \<open>The other side: without a fault and with a fresh id, a key that no row holds is claimed and the loser
  of a held key is shown the row that holds it.\<close>

lemma Reserve_free:
  assumes "k \<notin> held_keys s" "k = Log_IdempotencyKey r" "i \<notin> set (map l_id s)"
  shows "Reserve NoFault f i t r s = (Inr (r\<lparr>Log_ID := i, Log_Status := StatusPending\<rparr>, True),
    snd (reserve_stmt i t r s))"
proof -
  have "\<not> (\<exists>x \<in> set s. l_key x = Log_IdempotencyKey r)" "\<not> (\<exists>x \<in> set s. l_id x = i)"
    using assms by (force simp: held_keys_def)+
  then show ?thesis by (simp add: Reserve_def reserve_stmt_def)
qed

lemma Reserve_held:
  assumes "x \<in> set s" "l_key x = Log_IdempotencyKey r" "distinct (map l_key s)"
  shows "Reserve NoFault NoFault i t r s = (Inr (read_row x, False), s)"
proof -
  have "List.find (\<lambda>y. l_key y = Log_IdempotencyKey r) s = Some x"
    using assms
  proof (induction s)
    case (Cons y s)
    then show ?case by (auto intro: rev_image_eqI)
  qed simp
  then show ?thesis using assms(1,2)
    by (auto simp: Reserve_def reserve_stmt_def getByIdempotencyKey_def select_key_stmt_def)
qed

subsection \<open>Results\<close>

text \<open>Recording a result touches one row: it takes the new status, one more attempt, the message id if
  there is one, and the sanitised text of the error, or none after a success. Every other row stays as it
  was; an unknown row and a status outside the terminal three are refused with the log unchanged.\<close>

lemma mark_result_exact:
  assumes "log_ok s"
  shows "(\<exists>xs r ys. s = xs @ r # ys \<and> l_id r = i \<and> st \<in> {StatusSent, StatusFailed, StatusDead} \<and>
            l_attempts r < 2147483647 \<and>
            MarkResult q str NoFault t i st m e s = (Inr (), xs @ r\<lparr>l_status := st, l_attempts := l_attempts r + 1,
              l_msg_id := (if m = [] then l_msg_id r else Some m),
              l_error := map_option (\<lambda>e. sanitizeText (ErrorText e) 1000) e, l_updated := t\<rparr> # ys)) \<or>
         ((\<forall>r \<in> set s. l_id r \<noteq> i \<or> l_attempts r \<ge> 2147483647) \<or> st \<notin> {StatusSent, StatusFailed, StatusDead}) \<and>
           (\<exists>err. MarkResult q str NoFault t i st m e s = (Inl err, s))"
proof (cases "st \<in> {StatusSent, StatusFailed, StatusDead} \<and> (\<exists>r \<in> set s. l_id r = i \<and> l_attempts r < 2147483647)")
  case True
  then obtain xs r ys where r: "s = xs @ r # ys" "l_id r = i" "l_attempts r < 2147483647" by (meson split_list)
  have "distinct (map l_id (xs @ r # ys))" using assms r(1) by (simp add: log_ok_def)
  then have others: "\<forall>x \<in> set xs \<union> set ys. l_id x \<noteq> i" using r(2) by (auto simp: image_iff)
  let ?err = "map_option (\<lambda>e. SanitizeError (Some (ErrorText e))) e"
  let ?m = "if m \<noteq> [] then Some m else None"
  have keep: "map (\<lambda>x. if l_id x = i then mark_row t st ?m ?err x else x) zs = zs"
    if "\<forall>x \<in> set zs. l_id x \<noteq> i" for zs
    using that by (intro map_idI) auto
  have "\<not> (\<exists>x \<in> set s. l_id x = i \<and> 2147483647 \<le> l_attempts x)" using r others by auto
  then have "mark_stmt t i st ?m ?err s = (Inr 1, xs @ mark_row t st ?m ?err r # ys)"
    using r others keep [of xs] keep [of ys] by (simp add: mark_stmt_def filter_empty_conv)
  moreover have "st = StatusSent \<or> st = StatusFailed \<or> st = StatusDead" using True by simp
  ultimately have "MarkResult q str NoFault t i st m e s = (Inr (), xs @ mark_row t st ?m ?err r # ys)"
    by (auto simp: MarkResult_def Let_def)
  moreover have "mark_row t st ?m ?err r = r\<lparr>l_status := st, l_attempts := l_attempts r + 1,
      l_msg_id := (if m = [] then l_msg_id r else Some m),
      l_error := map_option (\<lambda>e. sanitizeText (ErrorText e) 1000) e, l_updated := t\<rparr>"
    by (simp add: mark_row_def SanitizeError_def maxErrorLen_def)
  ultimately show ?thesis using True r by auto
next
  case False
  have "\<exists>err. MarkResult q str NoFault t i st m e s = (Inl err, s)"
  proof (cases "st \<in> {StatusSent, StatusFailed, StatusDead}")
    case True
    then have none: "\<forall>r \<in> set s. l_id r = i \<longrightarrow> 2147483647 \<le> l_attempts r" using False by force
    have "map (\<lambda>x. if l_id x = i then g x else x) s = s" if "\<forall>r \<in> set s. l_id r \<noteq> i" for g
      using that by (intro map_idI) auto
    then show ?thesis using True none
      by (auto simp: MarkResult_def mark_stmt_def Let_def filter_empty_conv)
  qed (auto simp: MarkResult_def)
  moreover have "(\<forall>r \<in> set s. l_id r \<noteq> i \<or> l_attempts r \<ge> 2147483647) \<or> st \<notin> {StatusSent, StatusFailed, StatusDead}"
    using False by force
  ultimately show ?thesis by blast
qed

definition sample_claim :: SendLogRow where
  "sample_claim = \<lparr>Log_ID = 0, Log_IdempotencyKey = ''k1'', Log_Channel = ''SMS'', Log_Provider = ''stub'',
     Log_TemplateID = ''otp'', Log_UserID = None, Log_ToHash = ''h'', Log_Status = [], Log_Attempts = 0,
     Log_ProviderMsgID = [], Log_LastError = [], Log_CreatedAt = 0, Log_UpdatedAt = 0\<rparr>"

lemma mark_result_exact_witness:
  "\<exists>r. MarkResult id dec_uuid NoFault 9 3 ''SENT'' [] None (snd (reserve_stmt 3 5 sample_claim [])) = (Inr (), [r]) \<and>
     l_status r = ''SENT'' \<and> l_attempts r = 1 \<and> l_error r = None"
proof -
  let ?s = "snd (reserve_stmt 3 5 sample_claim [])"
  have ok: "log_ok ?s" by (rule reserve_ok) (simp add: log_ok_def)
  obtain x where s: "?s = [x]" "l_id x = 3" "l_attempts x = 0" by (simp add: reserve_stmt_def)
  from mark_result_exact [OF ok, of 3 "''SENT''" id dec_uuid 9 "[]" None] show ?thesis
    using s by (auto simp: status_defs Cons_eq_append_conv)
qed

subsection \<open>Receipts and retention\<close>

lemma normalized_closed: "receipt_check (NormalizeReceiptStatus reported)"
  by (simp add: NormalizeReceiptStatus_def receipt_check_def receipt_defs Let_def)

text \<open>A receipt is kept for audit whatever the provider reported: with both identifiers given, a fresh
  id and a payload the column accepts, the row is stored with a status of the closed set (unknown words
  become UNKNOWN, so the table's check never refuses one) and with its payload only in sanitised form.
  Without an identifier nothing is stored.\<close>

lemma receipt_stored_sanitised:
  "(provider = [] \<or> msg = [] \<longrightarrow>
      (\<exists>e. Is e = ErrValidation \<and> InsertReceipt pg marshal f i t provider msg status payload s = (Inl e, s))) \<and>
   (provider \<noteq> [] \<and> msg \<noteq> [] \<and> i \<notin> rc_id ` set s \<and>
    (payload = [] \<and> stored = None \<or>
     payload \<noteq> [] \<and> marshal (SanitizeText payload) = Inr js \<and> pg_jsonb pg js = stored \<and> stored \<noteq> None) \<longrightarrow>
      InsertReceipt pg marshal NoFault i t provider msg status payload s =
        (Inr i, s @ [\<lparr>rc_id = i, rc_provider = provider, rc_msg_id = msg,
           rc_status = NormalizeReceiptStatus status, rc_raw = stored, rc_received_at = t\<rparr>])) \<and>
   NormalizeReceiptStatus status \<in> {''DELIVERED'', ''BOUNCED'', ''FAILED'', ''UNKNOWN''}"
proof (intro conjI impI)
  show "provider = [] \<or> msg = [] \<Longrightarrow>
      \<exists>e. Is e = ErrValidation \<and> InsertReceipt pg marshal f i t provider msg status payload s = (Inl e, s)"
    by (auto simp: InsertReceipt_def detailed_def)
  show "NormalizeReceiptStatus status \<in> {''DELIVERED'', ''BOUNCED'', ''FAILED'', ''UNKNOWN''}"
    using normalized_closed [of status] by (simp add: receipt_check_def)
next
  assume a: "provider \<noteq> [] \<and> msg \<noteq> [] \<and> i \<notin> rc_id ` set s \<and>
    (payload = [] \<and> stored = None \<or>
     payload \<noteq> [] \<and> marshal (SanitizeText payload) = Inr js \<and> pg_jsonb pg js = stored \<and> stored \<noteq> None)"
  then have "\<not> (\<exists>x \<in> set s. rc_id x = i)" by force
  with a show "InsertReceipt pg marshal NoFault i t provider msg status payload s =
      (Inr i, s @ [\<lparr>rc_id = i, rc_provider = provider, rc_msg_id = msg,
         rc_status = NormalizeReceiptStatus status, rc_raw = stored, rc_received_at = t\<rparr>])"
    by (auto simp: InsertReceipt_def receipt_insert_def receipt_stmt_def normalized_closed Let_def)
qed

lemma receipt_stored_sanitised_witness:
  "\<exists>r. InsertReceipt plain_pg Inr NoFault 4 0 ''smtp'' ''m1'' ''weird'' [] [] = (Inr 4, [r])"
  using receipt_stored_sanitised [of "''smtp''" "''m1''" plain_pg Inr NoFault 4 0 "''weird''" "[]" "[]" None "[]"]
  by auto

text \<open>Retention is exact: a purge at a cutoff removes the rows created before it, of both tables, and no
  others; it reports how many it removed, and when the database fails in the middle only the log has been
  purged. Without a cutoff it is thirty days before now.\<close>

lemma purge_exact:
  "PurgeExpired pg NoFault NoFault now (Some c) (logs, receipts) =
     ((length (filter (\<lambda>r. l_created r < pg_time pg c) logs),
       length (filter (\<lambda>r. rc_received_at r < pg_time pg c) receipts), None),
      filter (\<lambda>r. pg_time pg c \<le> l_created r) logs, filter (\<lambda>r. pg_time pg c \<le> rc_received_at r) receipts) \<and>
   PurgeExpired pg f f' now None st = PurgeExpired pg f f' now (Some (now - 30 * 86400 * 1000000000)) st \<and>
   PurgeExpired pg (LostRequest m) f' now lim st =
     ((0, 0, Some (foreign_error (''purge send_log: '' @ m))), st) \<and>
   snd (snd (PurgeExpired pg f (LostRequest m) now lim (logs, receipts))) = receipts"
proof (intro conjI)
  have neg: "filter (\<lambda>r. \<not> at r < x) rs = filter (\<lambda>r. x \<le> at r) rs" for at :: "'r \<Rightarrow> int" and x rs
    by (rule filter_cong) auto
  show "PurgeExpired pg NoFault NoFault now (Some c) (logs, receipts) =
     ((length (filter (\<lambda>r. l_created r < pg_time pg c) logs),
       length (filter (\<lambda>r. rc_received_at r < pg_time pg c) receipts), None),
      filter (\<lambda>r. pg_time pg c \<le> l_created r) logs, filter (\<lambda>r. pg_time pg c \<le> rc_received_at r) receipts)"
    by (simp add: PurgeExpired_def delete_before_def neg Let_def)
  show "PurgeExpired pg f f' now None st = PurgeExpired pg f f' now (Some (now - 30 * 86400 * 1000000000)) st"
    by (simp add: PurgeExpired_def retentionInterval_def minute_def second_def)
  show "PurgeExpired pg (LostRequest m) f' now lim st =
      ((0, 0, Some (foreign_error (''purge send_log: '' @ m))), st)"
    by (cases st) (simp add: PurgeExpired_def Let_def)
  show "snd (snd (PurgeExpired pg f (LostRequest m) now lim (logs, receipts))) = receipts"
    by (simp add: PurgeExpired_def Let_def split: prod.splits sum.splits)
qed

end
