(* ===== verification/Senders.thy ===== *)
theory Senders
  imports Comms_Types Go_Time
begin

text \<open>
  The providers behind the two sender interfaces: \<open>internal/comms/email\<close> (SMTP, the development
  logger, the SES and SendGrid slots) and \<open>internal/comms/sms\<close> (the stub, the SNS, Huawei and
  Chunghwa slots, the test spy), with the factories that choose among them.

  The SMTP library is a parameter: whether it accepts the host and options of a new client, and for
  every send whether it accepts the two addresses, how long the dialogue with the server lasts (it may
  never end) and whether it succeeds. A send answers with the error, if any, and with the messages handed
  to the server. Its context is the time it has left, if it is limited; the library gives up when that is
  over, as \<open>DialAndSendWithContext\<close> documents.
\<close>

subsection \<open>Deadlines\<close>

text \<open>A context is the time until its deadline; \<open>None\<close> has no deadline. What takes \<open>None\<close> never ends by itself.\<close>

type_synonym deadline = "int option"

definition WithTimeout_ctx :: "deadline \<Rightarrow> int \<Rightarrow> deadline" where
  "WithTimeout_ctx ctx t = Some (case ctx of None \<Rightarrow> t | Some d \<Rightarrow> min d t)"

fun ends_in_time :: "deadline \<Rightarrow> nat option \<Rightarrow> bool" where
  "ends_in_time ctx None \<longleftrightarrow> False"
| "ends_in_time None (Some t) \<longleftrightarrow> True"
| "ends_in_time (Some d) (Some t) \<longleftrightarrow> int t \<le> d"

text \<open>How long one waits for it: to its end, or to the deadline, or for ever.\<close>

definition waits :: "deadline \<Rightarrow> nat option \<Rightarrow> int option" where
  "waits ctx takes = (if ends_in_time ctx takes then map_option int takes else map_option (max 0) ctx)"

lemma waits_within: "ctx = Some d \<Longrightarrow> \<exists>t. waits ctx takes = Some t \<and> 0 \<le> t \<and> t \<le> max 0 d"
  by (cases takes) (auto simp: waits_def)

subsection \<open>E-mail\<close>

record email_config =
  EC_Provider :: string
  EC_Host :: string
  EC_Port :: int
  EC_Username :: string
  EC_Password :: string
  EC_From :: string
  EC_AppBaseURL :: string
  EC_SendTimeout :: int

definition defaultSendTimeout :: int where
  "defaultSendTimeout = 10 * second"

definition sendTimeout :: "email_config \<Rightarrow> int" where
  "sendTimeout c = (if EC_SendTimeout c \<le> 0 then defaultSendTimeout else EC_SendTimeout c)"

datatype mail_option =
    WithPort int | WithTimeout int | WithTLSOpportunistic
  | WithSMTPAuthLogin | WithUsername string | WithPassword string

datatype email_sender =
    DevLogSender | SMTPSender email_config | SESSender email_config | SendGridSender email_config

definition smtp_options :: "email_config \<Rightarrow> mail_option list" where
  "smtp_options cfg = [WithPort (EC_Port cfg), WithTimeout (sendTimeout cfg), WithTLSOpportunistic] @
     (if EC_Username cfg \<noteq> [] \<or> EC_Password cfg \<noteq> []
      then [WithSMTPAuthLogin, WithUsername (EC_Username cfg), WithPassword (EC_Password cfg)] else [])"

definition NewSMTPSender ::
  "(string \<Rightarrow> mail_option list \<Rightarrow> string option) \<Rightarrow> email_config \<Rightarrow> comms_error + email_sender" where
  "NewSMTPSender new_client cfg =
     (if trim_space (EC_Host cfg) = [] then Inl (foreign_error ''email/smtp: SMTP host is required'')
      else if trim_space (EC_From cfg) = [] then Inl (foreign_error ''email/smtp: from address is required'')
      else case new_client (EC_Host cfg) (smtp_options cfg) of
        Some m \<Rightarrow> Inl (foreign_error (''email/smtp: new client: '' @ m))
      | None \<Rightarrow> Inr (SMTPSender cfg))"

definition NewEmailSender ::
  "(string \<Rightarrow> string) \<Rightarrow> (string \<Rightarrow> mail_option list \<Rightarrow> string option) \<Rightarrow> email_config \<Rightarrow>
   comms_error + email_sender" where
  "NewEmailSender quoted new_client cfg =
     (let p = to_lower (trim_space (EC_Provider cfg)) in
      if p = [] \<or> p = ''stub'' then Inr DevLogSender
      else if p = ''smtp'' then NewSMTPSender new_client cfg
      else if p = ''ses'' then Inr (SESSender cfg)
      else if p = ''sendgrid'' then Inr (SendGridSender cfg)
      else Inl (foreign_error (''email: unknown provider '' @ quoted (EC_Provider cfg) @
        '' (want smtp|ses|sendgrid|stub)'')))"

text \<open>A message of the SMTP library: its parts in order, the first the body, the second the
  alternative.\<close>

datatype part = TextPlain string | TextHTML string

record mail_msg =
  M_From :: string
  M_To :: string
  M_Subject :: string
  M_Parts :: "part list"

record delivery =
  from_error :: "string option"
  to_error :: "string option"
  dial_error :: "string option"
  dial_takes :: "nat option"

definition smtp_message :: "email_config \<Rightarrow> EmailMessage \<Rightarrow> mail_msg" where
  "smtp_message cfg em = \<lparr>M_From = EC_From cfg, M_To = Mail_To em, M_Subject = Mail_Subject em,
     M_Parts = (if Mail_TextBody em \<noteq> [] then
         TextPlain (Mail_TextBody em) # (if Mail_HTMLBody em \<noteq> [] then [TextHTML (Mail_HTMLBody em)] else [])
       else [TextHTML (Mail_HTMLBody em)])\<rparr>"

definition smtp_send ::
  "deadline \<Rightarrow> delivery \<Rightarrow> email_config \<Rightarrow> EmailMessage \<Rightarrow> comms_error option \<times> mail_msg list" where
  "smtp_send ctx d cfg em =
     (case from_error d of
        Some m \<Rightarrow> (Some (foreign_error (''email/smtp: set from: '' @ m)), [])
      | None \<Rightarrow> (case to_error d of
          Some m \<Rightarrow> (Some (foreign_error (''email/smtp: set recipient: '' @ m)), [])
        | None \<Rightarrow>
            let sendCtx = WithTimeout_ctx ctx (sendTimeout cfg) in
            if \<not> ends_in_time sendCtx (dial_takes d)
            then (Some (foreign_error ''email/smtp: send: context deadline exceeded''), [smtp_message cfg em])
            else (case dial_error d of
              Some m \<Rightarrow> (Some (foreign_error (''email/smtp: send: '' @ m)), [smtp_message cfg em])
            | None \<Rightarrow> (None, [smtp_message cfg em]))))"

text \<open>How long the call takes.\<close>

definition smtp_waits :: "deadline \<Rightarrow> delivery \<Rightarrow> email_config \<Rightarrow> int option" where
  "smtp_waits ctx d cfg =
     (if from_error d \<noteq> None \<or> to_error d \<noteq> None then Some 0
      else waits (WithTimeout_ctx ctx (sendTimeout cfg)) (dial_takes d))"

definition ses_send :: "email_config \<Rightarrow> EmailMessage \<Rightarrow> comms_error option \<times> mail_msg list" where
  "ses_send cfg em = (Some (prefixed ''email/ses'' (bare ErrProviderNotIntegrated)), [])"

definition sendgrid_send :: "email_config \<Rightarrow> EmailMessage \<Rightarrow> comms_error option \<times> mail_msg list" where
  "sendgrid_send cfg em = (Some (prefixed ''email/sendgrid'' (bare ErrProviderNotIntegrated)), [])"

text \<open>The line the development sender logs: recipient, subject and the two lengths.\<close>

definition redactEmail :: "string \<Rightarrow> string" where
  "redactEmail addr = (case cut_last CHR ''@'' addr of
     None \<Rightarrow> ''[REDACTED]''
   | Some (local, domain) \<Rightarrow> if local = [] then ''[REDACTED]'' else ''[REDACTED]'' @ CHR ''@'' # domain)"

definition devlog_line :: "EmailMessage \<Rightarrow> string \<times> string \<times> nat \<times> nat" where
  "devlog_line em = (redactEmail (Mail_To em), Mail_Subject em, length (Mail_HTMLBody em), length (Mail_TextBody em))"

fun email_send ::
  "deadline \<Rightarrow> delivery \<Rightarrow> email_sender \<Rightarrow> EmailMessage \<Rightarrow> comms_error option \<times> mail_msg list" where
  "email_send ctx d DevLogSender em = (None, [])"
| "email_send ctx d (SMTPSender cfg) em = smtp_send ctx d cfg em"
| "email_send ctx d (SESSender cfg) em = ses_send cfg em"
| "email_send ctx d (SendGridSender cfg) em = sendgrid_send cfg em"

text \<open>Only SMTP reaches a network; the other senders, and all SMS senders, answer at once.\<close>

fun email_waits :: "deadline \<Rightarrow> delivery \<Rightarrow> email_sender \<Rightarrow> int option" where
  "email_waits ctx d (SMTPSender cfg) = smtp_waits ctx d cfg"
| "email_waits ctx d _ = Some 0"

lemma email_waits_within:
  assumes "ctx = Some c"
  shows "\<exists>t. email_waits ctx d sender = Some t \<and> 0 \<le> t \<and> t \<le> max 0 c"
proof (cases sender)
  case (SMTPSender cfg)
  obtain t where "waits (WithTimeout_ctx ctx (sendTimeout cfg)) (dial_takes d) = Some t" "0 \<le> t" "t \<le> max 0 (min c (sendTimeout cfg))"
    using waits_within [of "WithTimeout_ctx ctx (sendTimeout cfg)" "min c (sendTimeout cfg)" "dial_takes d"] assms
    by (auto simp: WithTimeout_ctx_def)
  then show ?thesis using SMTPSender by (auto simp: smtp_waits_def)
qed simp_all

subsection \<open>SMS\<close>

record sms_config =
  SC_Provider :: string
  SC_SenderID :: string
  SC_Region :: string
  SC_APIKey :: string
  SC_APISecret :: string
  SC_SendTimeout :: int

text \<open>The test spy's result is part of it; the calls it has recorded are kept by \<open>spy_send\<close>.\<close>

datatype sms_sender =
    StubSender | SNSSender sms_config | HuaweiSender sms_config | ChunghwaSender sms_config
  | SpySender "comms_error option"

definition newSNSSender :: "sms_config \<Rightarrow> comms_error + sms_sender" where
  "newSNSSender cfg =
     (if SC_Region cfg = [] then Inl (foreign_error ''sms/aws-sns: NOTIFICATION_SMS_REGION is required'')
      else Inr (SNSSender cfg))"

definition newHuaweiSender :: "sms_config \<Rightarrow> comms_error + sms_sender" where
  "newHuaweiSender cfg =
     (if SC_APIKey cfg = [] \<or> SC_APISecret cfg = []
      then Inl (foreign_error ''sms/huawei: NOTIFICATION_SMS_API_KEY and NOTIFICATION_SMS_API_SECRET are required'')
      else if SC_Region cfg = []
      then Inl (foreign_error ''sms/huawei: NOTIFICATION_SMS_REGION must be the Huawei endpoint host'')
      else Inr (HuaweiSender cfg))"

definition newChunghwaSender :: "sms_config \<Rightarrow> comms_error + sms_sender" where
  "newChunghwaSender cfg =
     (if SC_APIKey cfg = [] \<or> SC_APISecret cfg = []
      then Inl (foreign_error ''sms/chunghwa: NOTIFICATION_SMS_API_KEY and NOTIFICATION_SMS_API_SECRET are required'')
      else if SC_Region cfg = []
      then Inl (foreign_error ''sms/chunghwa: NOTIFICATION_SMS_REGION must be the mPro gateway base URL'')
      else Inr (ChunghwaSender cfg))"

definition NewSMSSender :: "(string \<Rightarrow> string) \<Rightarrow> sms_config \<Rightarrow> comms_error + sms_sender" where
  "NewSMSSender quoted cfg =
     (let p = to_lower (trim_space (SC_Provider cfg)) in
      if p = [] \<or> p = ''stub'' then Inr StubSender
      else if p = ''aws-sns'' then newSNSSender cfg
      else if p = ''huawei'' then newHuaweiSender cfg
      else if p = ''chunghwa'' then newChunghwaSender cfg
      else Inl (foreign_error (''sms: unknown provider '' @ quoted (SC_Provider cfg) @
        '' (want stub|aws-sns|huawei|chunghwa)'')))"

definition sns_send :: "sms_config \<Rightarrow> string \<Rightarrow> string \<Rightarrow> comms_error option" where
  "sns_send cfg to message = Some (prefixed ''sms/aws-sns'' (bare ErrProviderNotIntegrated))"

definition huawei_send :: "sms_config \<Rightarrow> string \<Rightarrow> string \<Rightarrow> comms_error option" where
  "huawei_send cfg to message = Some (prefixed ''sms/huawei'' (bare ErrProviderNotIntegrated))"

definition chunghwa_send :: "sms_config \<Rightarrow> string \<Rightarrow> string \<Rightarrow> comms_error option" where
  "chunghwa_send cfg to message = Some (prefixed ''sms/chunghwa'' (bare ErrProviderNotIntegrated))"

lemmas sms_slots [simp] = sns_send_def huawei_send_def chunghwa_send_def

fun sms_send :: "sms_sender \<Rightarrow> string \<Rightarrow> string \<Rightarrow> comms_error option" where
  "sms_send StubSender to message = None"
| "sms_send (SNSSender cfg) to message = sns_send cfg to message"
| "sms_send (HuaweiSender cfg) to message = huawei_send cfg to message"
| "sms_send (ChunghwaSender cfg) to message = chunghwa_send cfg to message"
| "sms_send (SpySender e) to message = e"

record spy =
  spy_calls :: "(string \<times> string) list"
  spy_err :: "comms_error option"

definition spy_send :: "string \<Rightarrow> string \<Rightarrow> spy \<Rightarrow> comms_error option \<times> spy" where
  "spy_send to message s = (spy_err s, s\<lparr>spy_calls := spy_calls s @ [(to, message)]\<rparr>)"

definition spy_Calls :: "spy \<Rightarrow> (string \<times> string) list" where
  "spy_Calls s = spy_calls s"

definition spy_Count :: "spy \<Rightarrow> nat" where
  "spy_Count s = length (spy_calls s)"

subsection \<open>No provider is silently a no-op\<close>

text \<open>C32. A configured provider never just swallows mail. When the factory accepts a configuration and a
  send then reports success, either the configuration asked for the development sender (no provider, or
  \<open>stub\<close>), or it is SMTP with a host and a sender address and exactly one message was handed to the
  server, from that address, to that recipient, with that subject and the bodies in order. The slots that
  are not integrated always fail, as provider-not-integrated.\<close>

theorem email_success_is_delivery:
  assumes "NewEmailSender quoted new_client cfg = Inr sender" "email_send ctx d sender em = (None, msgs)"
  shows "(to_lower (trim_space (EC_Provider cfg)) \<in> {[], ''stub''} \<and> msgs = []) \<or>
    (to_lower (trim_space (EC_Provider cfg)) = ''smtp'' \<and> trim_space (EC_Host cfg) \<noteq> [] \<and>
     trim_space (EC_From cfg) \<noteq> [] \<and>
     (\<exists>m. msgs = [m] \<and> M_From m = EC_From cfg \<and> M_To m = Mail_To em \<and> M_Subject m = Mail_Subject em \<and>
       M_Parts m = (if Mail_TextBody em = [] then [TextHTML (Mail_HTMLBody em)]
         else if Mail_HTMLBody em = [] then [TextPlain (Mail_TextBody em)]
         else [TextPlain (Mail_TextBody em), TextHTML (Mail_HTMLBody em)])))"
  using assms
  by (auto simp: NewEmailSender_def NewSMTPSender_def Let_def smtp_send_def smtp_message_def ses_send_def
      sendgrid_send_def split: if_splits option.splits)

definition sample_smtp :: email_config where
  "sample_smtp = \<lparr>EC_Provider = '' SMTP '', EC_Host = ''h'', EC_Port = 25, EC_Username = [], EC_Password = [],
     EC_From = ''a@b'', EC_AppBaseURL = [], EC_SendTimeout = 0\<rparr>"

definition sample_mail :: EmailMessage where
  "sample_mail = \<lparr>Mail_To = ''x@y'', Mail_Subject = ''s'', Mail_TextBody = ''t'', Mail_HTMLBody = ''h''\<rparr>"

lemma email_success_is_delivery_witness:
  "\<exists>m. email_send None \<lparr>from_error = None, to_error = None, dial_error = None, dial_takes = Some 0\<rparr> (SMTPSender sample_smtp) sample_mail =
     (None, [m]) \<and> M_Parts m = [TextPlain ''t'', TextHTML ''h'']"
proof -
  have lower: "to_lower (trim_space (EC_Provider sample_smtp)) = ''smtp''"
    by (simp add: sample_smtp_def ascii_eval)
  have ts: "trim_space (EC_Host sample_smtp) \<noteq> []" "trim_space (EC_From sample_smtp) \<noteq> []"
    by (simp_all add: sample_smtp_def ascii_eval)
  have n: "NewEmailSender id (\<lambda>_ _. None) sample_smtp = Inr (SMTPSender sample_smtp)"
    by (simp add: NewEmailSender_def lower NewSMTPSender_def ts)
  have s: "email_send None \<lparr>from_error = None, to_error = None, dial_error = None, dial_takes = Some 0\<rparr> (SMTPSender sample_smtp) sample_mail =
      (None, [smtp_message sample_smtp sample_mail])"
    by (simp add: smtp_send_def WithTimeout_ctx_def sendTimeout_def defaultSendTimeout_def second_def sample_smtp_def)
  from email_success_is_delivery [OF n s] s show ?thesis by (auto simp: lower sample_mail_def)
qed

text \<open>The development sender's log line never shows the local part of the recipient: addresses that
  differ only before the last \<open>@\<close> give the same line.\<close>

lemma devlog_hides_recipient:
  assumes "CHR ''@'' \<notin> set d" "x \<noteq> []"
  shows "redactEmail (x @ CHR ''@'' # d) = ''[REDACTED]@'' @ d"
proof -
  have "cut_last CHR ''@'' (x @ CHR ''@'' # d) = Some (x, d)"
    using assms by (simp add: cut_last_Some_iff)
  then show ?thesis using assms by (simp add: redactEmail_def)
qed

end
