(* ===== verification/Comms_Service.thy ===== *)
theory Comms_Service
  imports Templates Sendlog Senders
begin

text \<open>
  The send pipeline (\<open>internal/comms/service.go\<close>): validate, reserve the idempotency key, load and
  render the template, dispatch to the channel's provider, record the result.

  The module's state is its two tables, the calls made to senders so far (each with the
  idempotency key it was made for) and the messages handed to the SMTP server. What the environment
  contributes to one send is a \<open>send_env\<close>: the fresh id, the database's clock, the fate of
  each statement and the behaviour of the mail library.

  \<open>Send\<close> is the whole pipeline as one function. \<open>advance\<close> is the same pipeline one statement, rendering or
  provider call at a time, which is the grain at which concurrent sends interleave: \<open>comms_step\<close>
  lets a new send arrive, any of the sends in flight take its next step, or the templates change. (Purges are not
  part of it; they are in \<open>Service\<close> and \<open>Housekeeping\<close>.)

  A provider is called under a context that ends after \<open>svc_timeout\<close>. How long the provider would take is the
  environment's, and may be for ever.
\<close>

subsection \<open>The pipeline\<close>

record comms_service =
  emailSender :: "email_sender option"
  smsSender :: "sms_sender option"
  emailName :: string
  smsName :: string
  svc_timeout :: int

record service_deps =
  d_emailSender :: "email_sender option"
  d_smsSender :: "sms_sender option"
  d_EmailProvider :: string
  d_SMSProvider :: string
  d_SendTimeout :: int

definition NewService :: "service_deps \<Rightarrow> comms_service" where
  "NewService deps = \<lparr>emailSender = d_emailSender deps, smsSender = d_smsSender deps,
     emailName = (if d_EmailProvider deps = [] then ''stub'' else d_EmailProvider deps),
     smsName = (if d_SMSProvider deps = [] then ''stub'' else d_SMSProvider deps),
     svc_timeout = (if d_SendTimeout deps \<le> 0 then 10 * second else d_SendTimeout deps)\<rparr>"

datatype call = Email_Call EmailMessage | SMS_Call string string

record comms_state =
  cs_log :: send_log
  cs_templates :: template_table
  cs_calls :: "(string \<times> call) list"
  cs_mail :: "mail_msg list"

record send_env =
  se_id :: uuid
  se_now :: instant
  se_reserve :: fault
  se_select :: fault
  se_get :: "fault \<times> fault"
  se_mark :: fault
  se_mark_now :: instant
  se_delivery :: delivery

text \<open>What the code formats with \<open>%q\<close> and \<open>%s\<close>, and the template engines.\<close>

record comms_lib =
  lib_quoted :: "string \<Rightarrow> string"
  lib_uuid :: "uuid \<Rightarrow> string"
  lib_engines :: engines

definition maxRecipientLen :: nat where "maxRecipientLen = 320"
definition maxTemplateIDLen :: nat where "maxTemplateIDLen = 128"
definition maxIdempotencyKeyLen :: nat where "maxIdempotencyKeyLen = 200"
definition maxVars :: nat where "maxVars = 50"

lemmas request_caps = maxRecipientLen_def maxTemplateIDLen_def maxIdempotencyKeyLen_def maxVars_def

definition validateRequest :: "comms_lib \<Rightarrow> SendRequest \<Rightarrow> comms_error option" where
  "validateRequest lib req =
     (if \<not> Channel_Valid (Req_Channel req)
      then Some (detailed ErrValidation (''unknown channel '' @ lib_quoted lib (Req_Channel req)))
      else if Req_To req = [] \<or> length (Req_To req) > maxRecipientLen
      then Some (detailed ErrValidation (''recipient is required and must be <= '' @ dec maxRecipientLen @ '' chars''))
      else if Req_TemplateID req = [] \<or> length (Req_TemplateID req) > maxTemplateIDLen
      then Some (detailed ErrValidation (''templateId is required and must be <= '' @ dec maxTemplateIDLen @ '' chars''))
      else if Req_IdempotencyKey req = [] \<or> length (Req_IdempotencyKey req) > maxIdempotencyKeyLen
      then Some (detailed ErrValidation
        (''idempotencyKey is required and must be <= '' @ dec maxIdempotencyKeyLen @ '' chars''))
      else if length (varsMap (Req_Vars req)) > maxVars
      then Some (detailed ErrValidation (''too many template variables (max '' @ dec maxVars @ '')''))
      else None)"

definition HashRecipient :: "string \<Rightarrow> string" where
  "HashRecipient recipient = sha256 recipient"

definition providerName :: "comms_service \<Rightarrow> string \<Rightarrow> string" where
  "providerName svc ch = (if ch = ChannelEmail then emailName svc
     else if ch = ChannelSMS then smsName svc else ''none'')"

definition IsProviderUnavailable :: "comms_error \<Rightarrow> bool" where
  "IsProviderUnavailable e \<longleftrightarrow> Is e = ErrProviderNotIntegrated"

text \<open>The context of the provider call. (That of the request or of the consumer has no deadline; a cancellation is an
  error of the call.)\<close>

definition send_ctx :: "comms_service \<Rightarrow> deadline" where
  "send_ctx svc = WithTimeout_ctx None (svc_timeout svc)"

text \<open>\<open>dispatch\<close> answers with the error and records the call it made; \<open>dispatch_waits\<close> is how long that takes,
  \<open>None\<close> if the call never returns.\<close>

definition dispatch ::
  "deadline \<Rightarrow> comms_service \<Rightarrow> send_env \<Rightarrow> SendRequest \<Rightarrow> string \<Rightarrow> string \<Rightarrow> comms_state \<Rightarrow>
   comms_error option \<times> comms_state" where
  "dispatch ctx svc env req subject body st =
     (if Req_Channel req = ChannelEmail then
        (case emailSender svc of
           None \<Rightarrow> (Some (prefixed ''comms: email'' (bare ErrProviderNotIntegrated)), st)
         | Some sender \<Rightarrow>
             let em = \<lparr>Mail_To = Req_To req, Mail_Subject = subject, Mail_TextBody = body, Mail_HTMLBody = body\<rparr>;
                 (err, msgs) = email_send ctx (se_delivery env) sender em
             in (err, st\<lparr>cs_calls := cs_calls st @ [(Req_IdempotencyKey req, Email_Call em)],
                   cs_mail := cs_mail st @ msgs\<rparr>))
      else if Req_Channel req = ChannelSMS then
        (case smsSender svc of
           None \<Rightarrow> (Some (prefixed ''comms: sms'' (bare ErrProviderNotIntegrated)), st)
         | Some sender \<Rightarrow> (sms_send sender (Req_To req) body,
             st\<lparr>cs_calls := cs_calls st @ [(Req_IdempotencyKey req, SMS_Call (Req_To req) body)]\<rparr>))
      else (Some (prefixed (''comms: channel '' @ Req_Channel req) (bare ErrProviderNotIntegrated)), st))"

definition dispatch_waits :: "deadline \<Rightarrow> comms_service \<Rightarrow> send_env \<Rightarrow> SendRequest \<Rightarrow> int option" where
  "dispatch_waits ctx svc env req =
     (if Req_Channel req = ChannelEmail
      then (case emailSender svc of None \<Rightarrow> Some 0 | Some sender \<Rightarrow> email_waits ctx (se_delivery env) sender)
      else Some 0)"

lemma dispatch_returns: "\<exists>t. dispatch_waits (send_ctx svc) svc env req = Some t \<and> 0 \<le> t \<and> t \<le> max 0 (svc_timeout svc)"
  using email_waits_within [of "send_ctx svc" "svc_timeout svc" "se_delivery env"]
  by (auto simp: dispatch_waits_def send_ctx_def WithTimeout_ctx_def split: option.splits)

definition reserve_row :: "comms_service \<Rightarrow> SendRequest \<Rightarrow> SendLogRow" where
  "reserve_row svc req = \<lparr>Log_ID = uuid_nil, Log_IdempotencyKey = Req_IdempotencyKey req,
     Log_Channel = Req_Channel req, Log_Provider = providerName svc (Req_Channel req),
     Log_TemplateID = Req_TemplateID req, Log_UserID = Req_UserID req,
     Log_ToHash = HashRecipient (Req_To req), Log_Status = [], Log_Attempts = 0,
     Log_ProviderMsgID = [], Log_LastError = [], Log_CreatedAt = 0, Log_UpdatedAt = 0\<rparr>"

definition no_result :: SendResult where
  "no_result = \<lparr>Res_SendID = uuid_nil, Res_Status = [], Res_Deduped = False\<rparr>"

text \<open>Marking ignores the error it may meet (it is logged).\<close>

definition mark ::
  "comms_lib \<Rightarrow> send_env \<Rightarrow> uuid \<Rightarrow> string \<Rightarrow> comms_error option \<Rightarrow> comms_state \<Rightarrow> comms_state" where
  "mark lib env i status err st = st\<lparr>cs_log :=
     snd (MarkResult (lib_quoted lib) (lib_uuid lib) (se_mark env) (se_mark_now env) i status [] err (cs_log st))\<rparr>"

definition Send ::
  "comms_lib \<Rightarrow> comms_service \<Rightarrow> send_env \<Rightarrow> SendRequest \<Rightarrow> comms_state \<Rightarrow>
   (SendResult \<times> comms_error option) \<times> comms_state" where
  "Send lib svc env req st =
     (case validateRequest lib req of
        Some e \<Rightarrow> ((no_result, Some e), st)
      | None \<Rightarrow>
          (case Reserve (se_reserve env) (se_select env) (se_id env) (se_now env) (reserve_row svc req) (cs_log st) of
             (Inl e, log) \<Rightarrow> ((no_result, Some (prefixed ''comms: reserve'' e)), st\<lparr>cs_log := log\<rparr>)
           | (Inr (row, claimed), log) \<Rightarrow>
               let st1 = st\<lparr>cs_log := log\<rparr> in
               if \<not> claimed
               then ((\<lparr>Res_SendID = Log_ID row, Res_Status = Log_Status row, Res_Deduped = True\<rparr>, None), st1)
               else (case Templates.Get (se_get env) (Req_Channel req) (Req_TemplateID req) (Req_Locale req)
                       (cs_templates st1) of
                   Inl e \<Rightarrow> ((no_result, Some e), mark lib env (Log_ID row) StatusFailed (Some e) st1)
                 | Inr tpl \<Rightarrow>
                     (case Render (lib_engines lib) (Some tpl) (Req_Vars req) of
                        Inl e \<Rightarrow> ((no_result, Some e), mark lib env (Log_ID row) StatusFailed (Some e) st1)
                      | Inr (subject, body) \<Rightarrow>
                          (case dispatch (send_ctx svc) svc env req subject body st1 of
                             (Some e, st2) \<Rightarrow>
                               ((\<lparr>Res_SendID = Log_ID row, Res_Status = StatusFailed, Res_Deduped = False\<rparr>, Some e),
                                mark lib env (Log_ID row) StatusFailed (Some e) st2)
                           | (None, st2) \<Rightarrow>
                               ((\<lparr>Res_SendID = Log_ID row, Res_Status = StatusSent, Res_Deduped = False\<rparr>, None),
                                mark lib env (Log_ID row) StatusSent None st2))))))"

subsection \<open>The pipeline one step at a time\<close>

text \<open>\<open>Hung\<close> is the place of a send whose provider call never returns.\<close>

datatype pc =
    Validating
  | Reserving
  | Selecting
  | Loading uuid
  | Falling_Back uuid
  | Rendering uuid Template
  | Dispatching uuid string string
  | Hung
  | Marking uuid string "comms_error option" SendResult
  | Finished SendResult "comms_error option"

fun advance ::
  "comms_lib \<Rightarrow> comms_service \<Rightarrow> send_env \<Rightarrow> SendRequest \<Rightarrow> pc \<Rightarrow> comms_state \<Rightarrow> pc \<times> comms_state" where
  "advance lib svc env req Validating st =
     (case validateRequest lib req of Some e \<Rightarrow> (Finished no_result (Some e), st) | None \<Rightarrow> (Reserving, st))"
| "advance lib svc env req Reserving st =
     (case db_exec (se_reserve env) (reserve_stmt (se_id env) (se_now env) (reserve_row svc req)) (cs_log st) of
        (Inl m, log) \<Rightarrow> (Finished no_result
            (Some (prefixed ''comms: reserve'' (foreign_error (''reserve send_log: '' @ m)))), st\<lparr>cs_log := log\<rparr>)
      | (Inr n, log) \<Rightarrow> (if n = 1 then Loading (se_id env) else Selecting, st\<lparr>cs_log := log\<rparr>))"
| "advance lib svc env req Selecting st =
     (case getByIdempotencyKey (se_select env) (Req_IdempotencyKey req) (cs_log st) of
        Inl e \<Rightarrow> (Finished no_result (Some (prefixed ''comms: reserve'' e)), st)
      | Inr row \<Rightarrow> (Finished
          \<lparr>Res_SendID = Log_ID row, Res_Status = Log_Status row, Res_Deduped = True\<rparr> None, st))"
| "advance lib svc env req (Loading i) st =
     (let loc = (if Req_Locale req = [] then defaultLocale else Req_Locale req) in
      case getExact (fst (se_get env)) (Req_Channel req) (Req_TemplateID req) loc (cs_templates st) of
        Inr tpl \<Rightarrow> (Rendering i tpl, st)
      | Inl e \<Rightarrow>
          if Is e \<noteq> ErrTemplateNotFound then (Marking i StatusFailed (Some e) no_result, st)
          else if loc \<noteq> defaultLocale then (Falling_Back i, st)
          else (Marking i StatusFailed (Some (bare ErrTemplateNotFound)) no_result, st))"
| "advance lib svc env req (Falling_Back i) st =
     (case getExact (snd (se_get env)) (Req_Channel req) (Req_TemplateID req) defaultLocale (cs_templates st) of
        Inl e \<Rightarrow> (Marking i StatusFailed (Some e) no_result, st)
      | Inr tpl \<Rightarrow> (Rendering i tpl, st))"
| "advance lib svc env req (Rendering i tpl) st =
     (case Render (lib_engines lib) (Some tpl) (Req_Vars req) of
        Inl e \<Rightarrow> (Marking i StatusFailed (Some e) no_result, st)
      | Inr (subject, body) \<Rightarrow> (Dispatching i subject body, st))"
| "advance lib svc env req (Dispatching i subject body) st =
     (case dispatch (send_ctx svc) svc env req subject body st of
        (err, st') \<Rightarrow> (case dispatch_waits (send_ctx svc) svc env req of
            None \<Rightarrow> (Hung, st')
          | Some t \<Rightarrow> (case err of
              Some e \<Rightarrow> (Marking i StatusFailed (Some e)
                \<lparr>Res_SendID = i, Res_Status = StatusFailed, Res_Deduped = False\<rparr>, st')
            | None \<Rightarrow> (Marking i StatusSent None
                \<lparr>Res_SendID = i, Res_Status = StatusSent, Res_Deduped = False\<rparr>, st'))))"
| "advance lib svc env req Hung st = (Hung, st)"
| "advance lib svc env req (Marking i status err res) st = (Finished res err, mark lib env i status err st)"
| "advance lib svc env req (Finished res err) st = (Finished res err, st)"

fun run_send ::
  "nat \<Rightarrow> comms_lib \<Rightarrow> comms_service \<Rightarrow> send_env \<Rightarrow> SendRequest \<Rightarrow> pc \<Rightarrow> comms_state \<Rightarrow> pc \<times> comms_state" where
  "run_send 0 lib svc env req pc st = (pc, st)"
| "run_send (Suc n) lib svc env req pc st =
     (case advance lib svc env req pc st of (pc', st') \<Rightarrow> run_send n lib svc env req pc' st')"

lemma run_send_Finished [simp]: "run_send n lib svc env req (Finished r e) st = (Finished r e, st)"
  by (induction n) simp_all

lemma run_send_numeral [simp]:
  "run_send (numeral k) lib svc env req pc st =
     (case advance lib svc env req pc st of (pc', st') \<Rightarrow> run_send (pred_numeral k) lib svc env req pc' st')"
  by (simp add: numeral_eq_Suc)

text \<open>From the point where the key is claimed.\<close>

definition claimed_send ::
  "comms_lib \<Rightarrow> comms_service \<Rightarrow> send_env \<Rightarrow> SendRequest \<Rightarrow> uuid \<Rightarrow> comms_state \<Rightarrow>
   (SendResult \<times> comms_error option) \<times> comms_state" where
  "claimed_send lib svc env req i st1 =
     (case Templates.Get (se_get env) (Req_Channel req) (Req_TemplateID req) (Req_Locale req) (cs_templates st1) of
        Inl e \<Rightarrow> ((no_result, Some e), mark lib env i StatusFailed (Some e) st1)
      | Inr tpl \<Rightarrow>
          (case Render (lib_engines lib) (Some tpl) (Req_Vars req) of
             Inl e \<Rightarrow> ((no_result, Some e), mark lib env i StatusFailed (Some e) st1)
           | Inr (subject, body) \<Rightarrow>
               (case dispatch (send_ctx svc) svc env req subject body st1 of
                  (Some e, st2) \<Rightarrow>
                    ((\<lparr>Res_SendID = i, Res_Status = StatusFailed, Res_Deduped = False\<rparr>, Some e),
                     mark lib env i StatusFailed (Some e) st2)
                | (None, st2) \<Rightarrow>
                    ((\<lparr>Res_SendID = i, Res_Status = StatusSent, Res_Deduped = False\<rparr>, None),
                     mark lib env i StatusSent None st2))))"

lemma run_send_add:
  "run_send (m + n) lib svc env req pc st =
     (case run_send m lib svc env req pc st of (pc', st') \<Rightarrow> run_send n lib svc env req pc' st')"
  by (induction m arbitrary: pc st) (simp_all add: case_prod_unfold)

lemma run_send_longer:
  assumes "run_send m lib svc env req pc st = (Finished r e, st')" "m \<le> n"
  shows "run_send n lib svc env req pc st = (Finished r e, st')"
  using run_send_add [of m "n - m" lib svc env req pc st] assms by simp

text \<open>\<open>claimed_send\<close> takes five steps at most.\<close>

lemma run_rendering:
  assumes "Templates.Get (se_get env) (Req_Channel req) (Req_TemplateID req) (Req_Locale req) (cs_templates st) = Inr tpl"
  shows "run_send 3 lib svc env req (Rendering i tpl) st =
     (Finished (fst (fst (claimed_send lib svc env req i st))) (snd (fst (claimed_send lib svc env req i st))),
      snd (claimed_send lib svc env req i st))"
proof (cases "Render (lib_engines lib) (Some tpl) (Req_Vars req)")
  case (Inl e)
  then show ?thesis using assms by (simp add: claimed_send_def)
next
  case (Inr sb)
  obtain subject body where sb: "sb = (subject, body)" by (cases sb)
  obtain t where "dispatch_waits (send_ctx svc) svc env req = Some t" using dispatch_returns by blast
  then show ?thesis
    by (cases "dispatch (send_ctx svc) svc env req subject body st"; cases "fst (dispatch (send_ctx svc) svc env req subject body st)")
      (simp_all add: claimed_send_def assms Inr sb)
qed

lemma run_claimed:
  "run_send 5 lib svc env req (Loading i) st =
     (Finished (fst (fst (claimed_send lib svc env req i st))) (snd (fst (claimed_send lib svc env req i st))),
      snd (claimed_send lib svc env req i st))"
proof -
  let ?loc = "if Req_Locale req = [] then defaultLocale else Req_Locale req"
  let ?get = "\<lambda>f loc. getExact f (Req_Channel req) (Req_TemplateID req) loc (cs_templates st)"
  let ?g = "Templates.Get (se_get env) (Req_Channel req) (Req_TemplateID req) (Req_Locale req) (cs_templates st)"
  have get: "?g = (case ?get (fst (se_get env)) ?loc of
      Inr tpl \<Rightarrow> Inr tpl
    | Inl e \<Rightarrow> if Is e \<noteq> ErrTemplateNotFound then Inl e
        else if ?loc \<noteq> defaultLocale then ?get (snd (se_get env)) defaultLocale
        else Inl (bare ErrTemplateNotFound))"
    unfolding Get_def Let_def by (rule refl)
  have failed: "claimed_send lib svc env req i st = ((no_result, Some e), mark lib env i StatusFailed (Some e) st)" if "?g = Inl e" for e
    using that by (simp add: claimed_send_def)
  consider tpl where "?g = Inr tpl" "advance lib svc env req (Loading i) st = (Rendering i tpl, st)"
    | e where "?g = Inl e" "advance lib svc env req (Loading i) st = (Marking i StatusFailed (Some e) no_result, st)"
    | "?g = ?get (snd (se_get env)) defaultLocale" "advance lib svc env req (Loading i) st = (Falling_Back i, st)"
    using get by (auto simp: Let_def split: sum.splits if_splits)
  then show ?thesis
  proof cases
    case (1 tpl)
    have "run_send (1 + 3) lib svc env req (Loading i) st =
        (Finished (fst (fst (claimed_send lib svc env req i st))) (snd (fst (claimed_send lib svc env req i st))),
         snd (claimed_send lib svc env req i st))"
      using 1(2) run_rendering [OF 1(1)] by (simp only: run_send_add One_nat_def run_send.simps prod.case)
    then show ?thesis by (rule run_send_longer) simp
  next
    case (2 e)
    then have "run_send 2 lib svc env req (Loading i) st = (Finished no_result (Some e), mark lib env i StatusFailed (Some e) st)"
      by (simp del: advance.simps(4))
    then show ?thesis using run_send_longer [of 2 lib svc env req "Loading i" st _ _ _ 5] failed [OF 2(1)] by simp
  next
    case 3
    show ?thesis
    proof (cases "?get (snd (se_get env)) defaultLocale")
      case (Inl e)
      then have "run_send 3 lib svc env req (Loading i) st = (Finished no_result (Some e), mark lib env i StatusFailed (Some e) st)"
        using 3(2) by (simp del: advance.simps(4))
      then show ?thesis using run_send_longer [of 3 lib svc env req "Loading i" st _ _ _ 5] failed [of e] 3(1) Inl by simp
    next
      case (Inr tpl)
      then have "advance lib svc env req (Falling_Back i) st = (Rendering i tpl, st)" by simp
      then have "run_send (1 + (1 + 3)) lib svc env req (Loading i) st =
          (Finished (fst (fst (claimed_send lib svc env req i st))) (snd (fst (claimed_send lib svc env req i st))),
           snd (claimed_send lib svc env req i st))"
        using 3 run_rendering [of env req st tpl lib svc i] Inr by (simp only: run_send_add One_nat_def run_send.simps prod.case)
      then show ?thesis by simp
    qed
  qed
qed

lemma Send_claimed:
  "Send lib svc env req st =
     (case validateRequest lib req of
        Some e \<Rightarrow> ((no_result, Some e), st)
      | None \<Rightarrow>
          (case Reserve (se_reserve env) (se_select env) (se_id env) (se_now env) (reserve_row svc req) (cs_log st) of
             (Inl e, log) \<Rightarrow> ((no_result, Some (prefixed ''comms: reserve'' e)), st\<lparr>cs_log := log\<rparr>)
           | (Inr (row, claimed), log) \<Rightarrow>
               if \<not> claimed
               then ((\<lparr>Res_SendID = Log_ID row, Res_Status = Log_Status row, Res_Deduped = True\<rparr>, None),
                     st\<lparr>cs_log := log\<rparr>)
               else claimed_send lib svc env req (Log_ID row) (st\<lparr>cs_log := log\<rparr>)))"
  unfolding Send_def claimed_send_def Let_def by (rule refl)

lemma Send_cases:
  "Send lib svc env req st =
     (case validateRequest lib req of
        Some e \<Rightarrow> ((no_result, Some e), st)
      | None \<Rightarrow>
          (case db_exec (se_reserve env) (reserve_stmt (se_id env) (se_now env) (reserve_row svc req)) (cs_log st) of
             (Inl m, log) \<Rightarrow> ((no_result,
                Some (prefixed ''comms: reserve'' (foreign_error (''reserve send_log: '' @ m)))), st\<lparr>cs_log := log\<rparr>)
           | (Inr n, log) \<Rightarrow>
               if n = 1 then claimed_send lib svc env req (se_id env) (st\<lparr>cs_log := log\<rparr>)
               else (case getByIdempotencyKey (se_select env) (Req_IdempotencyKey req) log of
                   Inl e \<Rightarrow> ((no_result, Some (prefixed ''comms: reserve'' e)), st\<lparr>cs_log := log\<rparr>)
                 | Inr row \<Rightarrow> ((\<lparr>Res_SendID = Log_ID row, Res_Status = Log_Status row, Res_Deduped = True\<rparr>,
                     None), st\<lparr>cs_log := log\<rparr>))))"
proof -
  have k: "Log_IdempotencyKey (reserve_row svc req) = Req_IdempotencyKey req" by (simp add: reserve_row_def)
  let ?key = "getByIdempotencyKey (se_select env) (Req_IdempotencyKey req)"
  obtain r log where d: "db_exec (se_reserve env)
      (reserve_stmt (se_id env) (se_now env) (reserve_row svc req)) (cs_log st) = (r, log)" by force
  show ?thesis
  proof (cases "validateRequest lib req")
    case None
    show ?thesis
    proof (cases r)
      case (Inl m)
      then show ?thesis using d None by (simp add: Send_claimed Reserve_def)
    next
      case (Inr n)
      show ?thesis
      proof (cases "n = 1")
        case True
        then show ?thesis using d None Inr
          by (simp add: Send_claimed Reserve_def)
      next
        case False
        then show ?thesis using d None Inr
          by (cases "?key log") (simp_all add: Send_claimed Reserve_def k)
      qed
    qed
  qed (simp add: Send_def)
qed

text \<open>The two forms of the pipeline agree: run alone, a send takes at most seven steps to finish, and its result and
  the state it leaves are those of \<open>Send\<close>.\<close>

lemma send_is_its_steps:
  "run_send 7 lib svc env req Validating st =
     (Finished (fst (fst (Send lib svc env req st))) (snd (fst (Send lib svc env req st))),
      snd (Send lib svc env req st))"
proof -
  obtain r log where d: "db_exec (se_reserve env)
      (reserve_stmt (se_id env) (se_now env) (reserve_row svc req)) (cs_log st) = (r, log)" by force
  show ?thesis
  proof (cases "validateRequest lib req")
    case None
    show ?thesis
    proof (cases r)
      case (Inl m)
      then show ?thesis using d None unfolding Send_cases by simp
    next
      case (Inr n)
      show ?thesis
      proof (cases "n = 1")
        case True
        then show ?thesis using d None Inr run_claimed [of lib svc env req "se_id env" "st\<lparr>cs_log := log\<rparr>"]
          unfolding Send_cases by simp
      next
        case False
        then show ?thesis using d None Inr unfolding Send_cases
          by (cases "getByIdempotencyKey (se_select env) (Req_IdempotencyKey req) log")
            simp_all
      qed
    qed
  qed (simp add: Send_cases)
qed

subsection \<open>Sends in any interleaving\<close>

text \<open>A send in flight is its environment, its request and where it stands. Sends start at any time and
  take their steps in any order; one that is never scheduled again is one whose process died.
  Templates may be replaced under way.\<close>

type_synonym job = "send_env \<times> SendRequest \<times> pc"

inductive comms_step ::
  "comms_lib \<Rightarrow> comms_service \<Rightarrow> comms_state \<times> job list \<Rightarrow> comms_state \<times> job list \<Rightarrow> bool"
  for lib :: comms_lib and svc :: comms_service where
  arrive: "comms_step lib svc (st, js) (st, js @ [(env, req, Validating)])"
| progress: "js = xs @ (env, req, pc) # ys \<Longrightarrow> advance lib svc env req pc st = (pc', st') \<Longrightarrow>
    comms_step lib svc (st, js) (st', xs @ (env, req, pc') # ys)"
| retemplate: "comms_step lib svc (st, js) (st\<lparr>cs_templates := t\<rparr>, js)"

inductive_cases comms_stepE: "comms_step lib svc (st, js) c"

inductive comms_run ::
  "comms_lib \<Rightarrow> comms_service \<Rightarrow> comms_state \<times> job list \<Rightarrow> comms_state \<times> job list \<Rightarrow> bool"
  for lib :: comms_lib and svc :: comms_service where
  nothing: "comms_run lib svc c c"
| further: "comms_run lib svc c c' \<Longrightarrow> comms_step lib svc c' c'' \<Longrightarrow> comms_run lib svc c c''"

text \<open>The calls made for a key, and the sends of the key that hold the claim and may still call.\<close>

definition calls_for :: "string \<Rightarrow> comms_state \<Rightarrow> (string \<times> call) list" where
  "calls_for k st = filter (\<lambda>(k', c). k' = k) (cs_calls st)"

fun may_call :: "pc \<Rightarrow> bool" where
  "may_call (Loading i) = True"
| "may_call (Falling_Back i) = True"
| "may_call (Rendering i tpl) = True"
| "may_call (Dispatching i s b) = True"
| "may_call pc = False"

definition claimants :: "string \<Rightarrow> job list \<Rightarrow> job list" where
  "claimants k js = filter (\<lambda>(env, req, pc). Req_IdempotencyKey req = k \<and> may_call pc) js"

lemma claimants_simps [simp]:
  "claimants k [] = []"
  "claimants k (xs @ ys) = claimants k xs @ claimants k ys"
  "claimants k ((env, req, pc) # js) =
     (if Req_IdempotencyKey req = k \<and> may_call pc then [(env, req, pc)] else []) @ claimants k js"
  by (auto simp: claimants_def)

lemma dispatch_calls:
  "dispatch ctx svc env req subject body st = (e, st') \<Longrightarrow>
     cs_log st' = cs_log st \<and> cs_templates st' = cs_templates st \<and>
     (\<exists>cs. cs_calls st' = cs_calls st @ cs \<and> length cs \<le> 1 \<and> (\<forall>c \<in> set cs. fst c = Req_IdempotencyKey req))"
  by (auto simp: dispatch_def Let_def split: if_splits option.splits prod.splits)

lemma mark_frame [frame_rules]:
  "cs_calls (mark lib env i s e st) = cs_calls st"
  "cs_mail (mark lib env i s e st) = cs_mail st"
  "cs_templates (mark lib env i s e st) = cs_templates st"
  by (simp_all add: mark_def)

lemma mark_stmt_held: "held_keys (snd (mark_stmt t i st m e s)) = held_keys s"
  unfolding held_keys_def mark_stmt_def by (simp add: map_mark_same del: set_map map_map)

lemma mark_held [frame_rules]: "held_keys (cs_log (mark lib env i s e st)) = held_keys (cs_log st)"
proof -
  have "held_keys (snd (db_exec f (mark_stmt t i x m y) l)) = held_keys l" for f t x m y l
    by (rule db_exec_inv [where P = "\<lambda>l'. held_keys l' = held_keys l"]) (simp_all add: mark_stmt_held)
  then show ?thesis by (simp add: mark_def MarkResult_state)
qed

text \<open>What one step does to the claims: only the insertion that wins a key makes a claimant, and it does so
  when no row held the key; only a claimant's dispatch calls, and it stops being one.\<close>

definition claims :: "string \<Rightarrow> SendRequest \<Rightarrow> pc \<Rightarrow> comms_state \<Rightarrow> nat" where
  "claims k req pc st = length (calls_for k st) + (if Req_IdempotencyKey req = k \<and> may_call pc then 1 else 0)"

definition claims_step :: "string \<Rightarrow> SendRequest \<Rightarrow> pc \<times> comms_state \<Rightarrow> pc \<times> comms_state \<Rightarrow> bool" where
  "claims_step k req c c' \<longleftrightarrow> held_keys (cs_log (snd c)) \<subseteq> held_keys (cs_log (snd c')) \<and>
     (claims k req (fst c') (snd c') \<le> claims k req (fst c) (snd c) \<or>
      claims k req (fst c') (snd c') = claims k req (fst c) (snd c) + 1 \<and>
        k \<notin> held_keys (cs_log (snd c)) \<and> k \<in> held_keys (cs_log (snd c')))"

lemma reserving_claims:
  assumes "advance lib svc env req Reserving st = (pc', st')"
  shows "claims_step k req (Reserving, st) (pc', st')"
proof -
  let ?stmt = "reserve_stmt (se_id env) (se_now env) (reserve_row svc req)"
  obtain r log where d: "db_exec (se_reserve env) ?stmt (cs_log st) = (r, log)" by force
  have st': "st' = st\<lparr>cs_log := log\<rparr>" using assms d by (auto split: sum.splits)
  have "held_keys (cs_log st) \<subseteq> held_keys (snd (db_exec (se_reserve env) ?stmt (cs_log st)))"
    by (rule db_exec_inv [where P = "\<lambda>l. held_keys (cs_log st) \<subseteq> held_keys l"]) (simp_all add: reserve_stmt_mono)
  then have mono: "held_keys (cs_log st) \<subseteq> held_keys log" by (simp add: d)
  show ?thesis
  proof (cases "r = Inr 1")
    case True
    then have pc': "pc' = Loading (se_id env)" using assms d by simp
    have "reserve_stmt (se_id env) (se_now env) (reserve_row svc req) (cs_log st) = (Inr 1, log)"
      using db_exec_InrD [of "se_reserve env" ?stmt "cs_log st" 1 log] d True by simp
    from reserve_stmt_claims [OF this] have "Req_IdempotencyKey req \<notin> held_keys (cs_log st)"
      "Req_IdempotencyKey req \<in> held_keys log" by (simp_all add: reserve_row_def)
    then show ?thesis using mono st' pc' by (auto simp: claims_step_def claims_def calls_for_def)
  next
    case False
    then have "\<not> may_call pc'" using assms d by (auto split: sum.splits if_splits)
    then show ?thesis using mono st' by (auto simp: claims_step_def claims_def calls_for_def)
  qed
qed

lemma dispatching_claims:
  assumes "advance lib svc env req (Dispatching i subject body) st = (pc', st')"
  shows "claims_step k req (Dispatching i subject body, st) (pc', st')"
proof -
  obtain e st2 where d: "dispatch (send_ctx svc) svc env req subject body st = (e, st2)" by force
  have "st' = st2" "\<not> may_call pc'" using assms d by (auto split: option.splits)
  obtain cs where cs: "cs_log st2 = cs_log st" "cs_calls st2 = cs_calls st @ cs" "length cs \<le> 1"
    "\<forall>c \<in> set cs. fst c = Req_IdempotencyKey req" using dispatch_calls [OF d] by blast
  have "length (filter (\<lambda>(k', c). k' = k) cs) \<le> (if Req_IdempotencyKey req = k then 1 else 0)"
    using cs(3,4) by (cases cs) auto
  then show ?thesis using cs(1,2) \<open>st' = st2\<close> \<open>\<not> may_call pc'\<close>
    by (simp add: claims_step_def claims_def calls_for_def split: if_splits)
qed

lemma advance_claims:
  assumes "advance lib svc env req pc st = (pc', st')"
  shows "held_keys (cs_log st) \<subseteq> held_keys (cs_log st')"
    and "claims k req pc' st' \<le> claims k req pc st \<or>
      claims k req pc' st' = claims k req pc st + 1 \<and> k \<notin> held_keys (cs_log st) \<and> k \<in> held_keys (cs_log st')"
proof -
  have "claims_step k req (pc, st) (pc', st')"
  proof (cases pc)
    case Reserving
    then show ?thesis using reserving_claims assms by simp
  next
    case (Dispatching i subject body)
    then show ?thesis using dispatching_claims assms by (simp only:)
  qed (use assms in \<open>auto simp: claims_step_def claims_def calls_for_def frame_rules Let_def
      split: option.splits sum.splits prod.splits if_splits\<close>)
  then show "held_keys (cs_log st) \<subseteq> held_keys (cs_log st')"
    "claims k req pc' st' \<le> claims k req pc st \<or>
      claims k req pc' st' = claims k req pc st + 1 \<and> k \<notin> held_keys (cs_log st) \<and> k \<in> held_keys (cs_log st')"
    by (simp_all add: claims_step_def)
qed

definition once :: "string \<Rightarrow> nat \<Rightarrow> string set \<Rightarrow> comms_state \<times> job list \<Rightarrow> bool" where
  "once k n h c \<longleftrightarrow> h \<subseteq> held_keys (cs_log (fst c)) \<and>
     length (calls_for k (fst c)) + length (claimants k (snd c)) \<le>
       n + (if k \<in> held_keys (cs_log (fst c)) - h then 1 else 0)"

lemma once_step:
  assumes "comms_step lib svc c c'" "once k n h c"
  shows "once k n h c'"
  using assms
proof (cases rule: comms_step.cases)
  case (progress js xs env req pc ys st pc' st')
  note a = advance_claims [OF progress(4)]
  let ?old = "held_keys (cs_log st)" and ?new = "held_keys (cs_log st')"
  have count: "length (calls_for k s) + length (claimants k (xs @ (env, req, p) # ys)) =
      claims k req p s + length (claimants k xs) + length (claimants k ys)" for p s
    by (simp add: claims_def)
  have "h \<subseteq> ?new" using assms(2) progress(1) a(1) by (auto simp: once_def)
  moreover have "claims k req pc' st' + length (claimants k xs) + length (claimants k ys) \<le>
      n + (if k \<in> ?new - h then 1 else 0)"
    using a(2) [of k] assms(2) progress(1,3) a(1) count [of st pc]
    by (auto simp: once_def split: if_splits)
  ultimately show ?thesis using progress(2) count [of st' pc'] by (simp add: once_def)
qed (auto simp: once_def calls_for_def)

lemma once_run: "comms_run lib svc c c' \<Longrightarrow> once k n h c \<Longrightarrow> once k n h c'"
  by (induction rule: comms_run.induct) (auto intro: once_step)

text \<open>C5. However the sends interleave, whatever the database loses and whoever dies half-way, a provider
  is called at most once for an idempotency key, and never for a key the log already held. (No purge is among
  these steps: one that deletes the row of a key frees the key, as \<open>Housekeeping\<close> has it.)\<close>

theorem provider_called_once:
  assumes "comms_run lib svc (st, []) (st', js)"
  shows "length (calls_for k st') \<le> length (calls_for k st) + (if k \<in> held_keys (cs_log st) then 0 else 1)"
proof -
  have "once k (length (calls_for k st)) (held_keys (cs_log st)) (st, [])" by (simp add: once_def)
  from once_run [OF assms this] show ?thesis by (auto simp: once_def split: if_splits)
qed

text \<open>A send that runs alone is such a run.\<close>

lemma run_send_run:
  assumes "comms_run lib svc c (st, xs @ (env, req, pc) # ys)" "run_send n lib svc env req pc st = (pc', st')"
  shows "comms_run lib svc c (st', xs @ (env, req, pc') # ys)"
  using assms
proof (induction n arbitrary: pc st)
  case (Suc n)
  obtain pc1 st1 where a: "advance lib svc env req pc st = (pc1, st1)" by force
  have "comms_run lib svc c (st1, xs @ (env, req, pc1) # ys)"
    by (rule comms_run.further [OF Suc.prems(1)]) (rule comms_step.progress [OF refl a])
  then show ?case using Suc.IH Suc.prems(2) a by simp
qed simp

definition sample_service :: comms_service where
  "sample_service = NewService \<lparr>d_emailSender = None, d_smsSender = Some (SpySender None), d_EmailProvider = [],
     d_SMSProvider = [], d_SendTimeout = 0\<rparr>"

definition sample_lib :: comms_lib where
  "sample_lib = \<lparr>lib_quoted = id, lib_uuid = dec_uuid, lib_engines = code_engines\<rparr>"

definition sample_env :: "uuid \<Rightarrow> send_env" where
  "sample_env i = \<lparr>se_id = i, se_now = 5, se_reserve = NoFault, se_select = NoFault,
     se_get = (NoFault, NoFault), se_mark = NoFault, se_mark_now = 6,
     se_delivery = \<lparr>from_error = None, to_error = None, dial_error = None, dial_takes = Some 0\<rparr>\<rparr>"

definition sample_request :: SendRequest where
  "sample_request = \<lparr>Req_Channel = ''SMS'', Req_To = ''1'', Req_TemplateID = ''otp'', Req_Locale = [],
     Req_Vars = Some [(''code'', ''123'')], Req_IdempotencyKey = ''k'', Req_UserID = None\<rparr>"

definition sample_state :: comms_state where
  "sample_state = \<lparr>cs_log = [], cs_templates = [(''SMS'', ''otp'', ''en'') \<mapsto>
     \<lparr>row_subject = None, row_body = ''C'', row_version = 1, row_updated_at = 0\<rparr>], cs_calls = [], cs_mail = []\<rparr>"

lemmas sample_send = sample_service_def NewService_def sample_lib_def sample_env_def sample_request_def
  sample_state_def validateRequest_def channel_defs Channel_Valid_def request_caps reserve_stmt_def
  reserve_row_def Get_NoFault lookup_template_def defaultLocale_def Render_def renderText_def varsMap_def
  code_engines_def code_engine_def maxSubjectLen_def maxSMSBodyLen_def dispatch_def providerName_def


lemma sample_validates: "validateRequest sample_lib sample_request = None"
  by (simp add: sample_send)

lemma sample_claim_stmt:
  "db_exec (se_reserve (sample_env i)) (reserve_stmt (se_id (sample_env i)) (se_now (sample_env i))
     (reserve_row sample_service sample_request)) (cs_log sample_state) =
   (Inr 1, [\<lparr>l_id = i, l_key = ''k'', l_channel = ''SMS'', l_provider = ''stub'', l_template = ''otp'',
      l_user = None, l_to_hash = HashRecipient ''1'', l_status = ''PENDING'', l_attempts = 0, l_msg_id = None,
      l_error = None, l_created = 5, l_updated = 5\<rparr>])"
  by (simp add: sample_send status_defs)

lemma sample_rendered:
  "Render (lib_engines sample_lib) (Some \<lparr>Tpl_Channel = ''SMS'', Tpl_TemplateID = ''otp'', Tpl_Locale = ''en'',
     Tpl_Subject = [], Tpl_Body = ''C'', Tpl_UpdatedAt = 0\<rparr>) (Req_Vars sample_request) = Inr ([], ''123'')"
  by (simp add: sample_send)

lemma provider_called_once_witness:
  "\<exists>st js. comms_run sample_lib sample_service (sample_state, []) (st, js) \<and> length (calls_for ''k'' st) = 1 \<and>
     length js = 2"
proof -
  let ?run = "comms_run sample_lib sample_service (sample_state, [])"
  have "?run (sample_state, [] @ [(sample_env 1, sample_request, Validating)])"
    by (rule comms_run.further [OF comms_run.nothing comms_step.arrive])
  then have start: "?run (sample_state, [] @ (sample_env 1, sample_request, Validating) # [])" .
  define st1 where "st1 = snd (Send sample_lib sample_service (sample_env 1) sample_request sample_state)"
  obtain pc1 where s1: "run_send 7 sample_lib sample_service (sample_env 1) sample_request Validating sample_state = (pc1, st1)"
    using send_is_its_steps unfolding st1_def by blast
  have c1: "length (calls_for ''k'' st1) \<ge> 1"
    using sample_validates sample_claim_stmt [of 1] sample_rendered
    by (auto simp: st1_def Send_cases claimed_send_def sample_send calls_for_def frame_rules)
  from run_send_run [OF start s1] have "?run (st1, [(sample_env 1, sample_request, pc1)])" by simp
  then have both: "?run (st1, [(sample_env 1, sample_request, pc1)] @ [(sample_env 2, sample_request, Validating)])"
    by (rule comms_run.further) (rule comms_step.arrive)
  have "length (calls_for ''k'' st1) \<le> 1"
    using provider_called_once [OF both, of "''k''"] by (simp add: sample_state_def calls_for_def held_keys_def)
  then show ?thesis using both c1 by fastforce
qed

subsection \<open>What a send leaves behind\<close>

text \<open>The row a claim inserts, and that row with a result recorded.\<close>

definition claimed_row :: "comms_service \<Rightarrow> send_env \<Rightarrow> SendRequest \<Rightarrow> log_row" where
  "claimed_row svc env req = \<lparr>l_id = se_id env, l_key = Req_IdempotencyKey req, l_channel = Req_Channel req,
     l_provider = providerName svc (Req_Channel req), l_template = Req_TemplateID req, l_user = Req_UserID req,
     l_to_hash = sha256 (Req_To req), l_status = StatusPending, l_attempts = 0, l_msg_id = None,
     l_error = None, l_created = se_now env, l_updated = se_now env\<rparr>"

definition result_row :: "send_env \<Rightarrow> string \<Rightarrow> comms_error option \<Rightarrow> log_row \<Rightarrow> log_row" where
  "result_row env status err r = (case se_mark env of LostRequest m \<Rightarrow> r
     | _ \<Rightarrow> r\<lparr>l_status := status, l_attempts := 1,
         l_error := map_option (\<lambda>e. SanitizeError (Some (ErrorText e))) err, l_updated := se_mark_now env\<rparr>)"

lemma reserve_stmt_won:
  assumes "reserve_stmt (se_id env) (se_now env) (reserve_row svc req) log = (Inr 1, log')"
  shows "log' = log @ [claimed_row svc env req]" "se_id env \<notin> l_id ` set log"
    "Req_IdempotencyKey req \<notin> held_keys log"
  using assms
  by (auto simp: reserve_stmt_def reserve_row_def claimed_row_def HashRecipient_def held_keys_def split: if_splits)

lemma mark_claimed:
  assumes "cs_log st = log @ [claimed_row svc env req]" "se_id env \<notin> l_id ` set log"
    and "status \<in> {StatusSent, StatusFailed}"
  shows "mark lib env (se_id env) status err st =
    st\<lparr>cs_log := log @ [result_row env status err (claimed_row svc env req)]\<rparr>"
proof -
  have keep: "map (\<lambda>r. if l_id r = se_id env then g r else r) log = log" for g
    using assms(2) by (intro map_idI) (auto simp: image_iff)
  have none: "filter (\<lambda>r. l_id r = se_id env) log = []"
    using assms(2) by (auto simp: filter_empty_conv image_iff)
  have small: "\<not> (\<exists>r \<in> set (cs_log st). l_id r = se_id env \<and> 2147483647 \<le> l_attempts r)"
    using assms(1,2) by (auto simp: claimed_row_def image_iff)
  have stmt: "mark_stmt t (se_id env) status None y (cs_log st) =
      (Inr 1, log @ [mark_row t status None y (claimed_row svc env req)])" for t y
    using small keep none assms(1) by (simp add: mark_stmt_def) (simp add: claimed_row_def)
  let ?err = "map_option (\<lambda>e. SanitizeError (Some (ErrorText e))) err"
  have "mark lib env (se_id env) status err st = st\<lparr>cs_log :=
      snd (db_exec (se_mark env) (mark_stmt (se_mark_now env) (se_id env) status None ?err) (cs_log st))\<rparr>"
    using assms(3) by (auto simp: mark_def MarkResult_state)
  moreover have "snd (db_exec (se_mark env) (mark_stmt (se_mark_now env) (se_id env) status None ?err) (cs_log st)) =
      log @ [result_row env status err (claimed_row svc env req)]"
    by (cases "se_mark env")
      (simp_all add: stmt [unfolded assms(1)] assms(1) result_row_def mark_row_def, simp_all add: claimed_row_def)
  ultimately show ?thesis by simp
qed

text \<open>The three outcomes of a claimed send.\<close>

definition send_failure ::
  "comms_lib \<Rightarrow> comms_service \<Rightarrow> send_env \<Rightarrow> SendRequest \<Rightarrow> comms_state \<Rightarrow> comms_error option" where
  "send_failure lib svc env req st =
     (case Templates.Get (se_get env) (Req_Channel req) (Req_TemplateID req) (Req_Locale req) (cs_templates st) of
        Inl e \<Rightarrow> Some e
      | Inr tpl \<Rightarrow> (case Render (lib_engines lib) (Some tpl) (Req_Vars req) of
          Inl e \<Rightarrow> Some e
        | Inr (subject, body) \<Rightarrow> fst (dispatch (send_ctx svc) svc env req subject body st)))"

lemma claimed_send_fst_error: "snd (fst (claimed_send lib svc env req i st)) = send_failure lib svc env req st"
  by (auto simp: claimed_send_def send_failure_def split: sum.splits option.splits prod.splits)

lemma claimed_send_log:
  assumes "cs_log st = log @ [claimed_row svc env req]" "se_id env \<notin> l_id ` set log"
  shows "cs_log (snd (claimed_send lib svc env req (se_id env) st)) =
    log @ [result_row env (if send_failure lib svc env req st = None then StatusSent else StatusFailed)
      (send_failure lib svc env req st) (claimed_row svc env req)]"
proof -
  have m: "cs_log (mark lib env (se_id env) s e st') = log @ [result_row env s e (claimed_row svc env req)]"
    if "cs_log st' = cs_log st" "s \<in> {StatusSent, StatusFailed}" for s e st'
    using mark_claimed [OF _ assms(2) that(2)] that(1) assms(1) by simp
  show ?thesis
  proof (cases "Templates.Get (se_get env) (Req_Channel req) (Req_TemplateID req) (Req_Locale req) (cs_templates st)")
    case (Inl e)
    then show ?thesis by (simp add: claimed_send_def send_failure_def m)
  next
    case g: (Inr tpl)
    show ?thesis
    proof (cases "Render (lib_engines lib) (Some tpl) (Req_Vars req)")
      case (Inl e)
      then show ?thesis using g by (simp add: claimed_send_def send_failure_def m)
    next
      case (Inr sb)
      obtain subject body where sb: "sb = (subject, body)" by (cases sb)
      obtain e st2 where d: "dispatch (send_ctx svc) svc env req subject body st = (e, st2)" by force
      have "cs_log st2 = cs_log st" using dispatch_calls [OF d] by simp
      then show ?thesis using g Inr sb d by (cases e) (simp_all add: claimed_send_def send_failure_def m)
    qed
  qed
qed


text \<open>A send that wins its key, and one that finds it taken.\<close>

lemma send_won:
  assumes "validateRequest lib req = None" "se_reserve env = NoFault"
    and "Req_IdempotencyKey req \<notin> held_keys (cs_log st)" "se_id env \<notin> l_id ` set (cs_log st)"
  shows "Send lib svc env req st =
    claimed_send lib svc env req (se_id env) (st\<lparr>cs_log := cs_log st @ [claimed_row svc env req]\<rparr>)"
proof -
  have "\<not> (\<exists>x \<in> set (cs_log st). l_key x = Req_IdempotencyKey req)" "\<not> (\<exists>x \<in> set (cs_log st). l_id x = se_id env)"
    using assms(3,4) by (force simp: held_keys_def)+
  then show ?thesis using assms(1,2)
    by (simp add: Send_cases reserve_stmt_def reserve_row_def claimed_row_def HashRecipient_def)
qed

lemma send_taken:
  assumes "validateRequest lib req = None" "se_reserve env = NoFault" "se_select env = NoFault"
    and "log_ok (cs_log st)" "x \<in> set (cs_log st)" "l_key x = Req_IdempotencyKey req"
  shows "Send lib svc env req st =
    ((\<lparr>Res_SendID = l_id x, Res_Status = l_status x, Res_Deduped = True\<rparr>, None), st)"
proof -
  have k: "Log_IdempotencyKey (reserve_row svc req) = Req_IdempotencyKey req" by (simp add: reserve_row_def)
  have "Reserve NoFault NoFault (se_id env) (se_now env) (reserve_row svc req) (cs_log st) =
      (Inr (read_row x, False), cs_log st)"
    using assms(4-6) by (intro Reserve_held) (simp_all add: k log_ok_def)
  then show ?thesis using assms(1-3) by (simp add: Send_claimed read_row_def)
qed

lemma claimed_send_sent:
  assumes "claimed_send lib svc env req i st = ((res, None), st')"
  shows "res = \<lparr>Res_SendID = i, Res_Status = StatusSent, Res_Deduped = False\<rparr>"
    and "\<exists>tpl subject body.
       Templates.Get (se_get env) (Req_Channel req) (Req_TemplateID req) (Req_Locale req) (cs_templates st) = Inr tpl \<and>
       Render (lib_engines lib) (Some tpl) (Req_Vars req) = Inr (subject, body) \<and>
       cs_calls st' = cs_calls st @ [(Req_IdempotencyKey req,
         if Req_Channel req = ChannelEmail
         then Email_Call \<lparr>Mail_To = Req_To req, Mail_Subject = subject, Mail_TextBody = body, Mail_HTMLBody = body\<rparr>
         else SMS_Call (Req_To req) body)]"
proof -
  obtain tpl subject body st2 where
    g: "Templates.Get (se_get env) (Req_Channel req) (Req_TemplateID req) (Req_Locale req) (cs_templates st) = Inr tpl"
    and r: "Render (lib_engines lib) (Some tpl) (Req_Vars req) = Inr (subject, body)"
    and d: "dispatch (send_ctx svc) svc env req subject body st = (None, st2)"
    using assms by (auto simp: claimed_send_def split: sum.splits option.splits prod.splits)
  have "cs_calls st2 = cs_calls st @ [(Req_IdempotencyKey req,
      if Req_Channel req = ChannelEmail
      then Email_Call \<lparr>Mail_To = Req_To req, Mail_Subject = subject, Mail_TextBody = body, Mail_HTMLBody = body\<rparr>
      else SMS_Call (Req_To req) body)]"
    using d by (auto simp: dispatch_def Let_def split: if_splits option.splits prod.splits)
  moreover have "cs_calls st' = cs_calls st2" using assms g r d by (auto simp: claimed_send_def frame_rules)
  ultimately show "\<exists>tpl subject body.
       Templates.Get (se_get env) (Req_Channel req) (Req_TemplateID req) (Req_Locale req) (cs_templates st) = Inr tpl \<and>
       Render (lib_engines lib) (Some tpl) (Req_Vars req) = Inr (subject, body) \<and>
       cs_calls st' = cs_calls st @ [(Req_IdempotencyKey req,
         if Req_Channel req = ChannelEmail
         then Email_Call \<lparr>Mail_To = Req_To req, Mail_Subject = subject, Mail_TextBody = body, Mail_HTMLBody = body\<rparr>
         else SMS_Call (Req_To req) body)]"
    using g r by auto
  show "res = \<lparr>Res_SendID = i, Res_Status = StatusSent, Res_Deduped = False\<rparr>"
    using assms g r d by (simp add: claimed_send_def)
qed

text \<open>C22. What a send that gets through to the database leaves behind. If the key is held, the answer is the
  id and status of the row that holds it, and nothing else happens. If it is free, exactly one row is added:
  with the key, the provider and the SHA-256 of the recipient, recorded as sent when the send succeeded and as
  failed with its sanitised error when it did not (or left pending if that last write was lost). It answers
  with the error, and success means that exactly one call was made, to the sender of the request's channel,
  with the recipient and the rendered template.\<close>

theorem send_outcome:
  assumes "validateRequest lib req = None" "se_reserve env = NoFault" "se_select env = NoFault"
    and "log_ok (cs_log st)" "se_id env \<notin> l_id ` set (cs_log st)"
    and "Send lib svc env req st = ((res, err), st')"
  shows "(\<forall>x \<in> set (cs_log st). l_key x = Req_IdempotencyKey req \<longrightarrow>
            res = \<lparr>Res_SendID = l_id x, Res_Status = l_status x, Res_Deduped = True\<rparr> \<and> err = None \<and> st' = st) \<and>
    (Req_IdempotencyKey req \<notin> held_keys (cs_log st) \<longrightarrow>
       cs_log st' = cs_log st @ [result_row env (if err = None then StatusSent else StatusFailed) err
         (claimed_row svc env req)] \<and> cs_templates st' = cs_templates st \<and>
       (err = None \<longrightarrow> res = \<lparr>Res_SendID = se_id env, Res_Status = StatusSent, Res_Deduped = False\<rparr> \<and>
         (\<exists>tpl subject body.
            Templates.Get (se_get env) (Req_Channel req) (Req_TemplateID req) (Req_Locale req) (cs_templates st) = Inr tpl \<and>
            Render (lib_engines lib) (Some tpl) (Req_Vars req) = Inr (subject, body) \<and>
            cs_calls st' = cs_calls st @ [(Req_IdempotencyKey req,
              if Req_Channel req = ChannelEmail
              then Email_Call \<lparr>Mail_To = Req_To req, Mail_Subject = subject, Mail_TextBody = body, Mail_HTMLBody = body\<rparr>
              else SMS_Call (Req_To req) body)])))"
proof (intro conjI ballI impI)
  fix x assume "x \<in> set (cs_log st)" "l_key x = Req_IdempotencyKey req"
  from send_taken [OF assms(1-4) this, of svc] assms(6)
  show "res = \<lparr>Res_SendID = l_id x, Res_Status = l_status x, Res_Deduped = True\<rparr>" "err = None" "st' = st"
    by simp_all
next
  let ?st = "st\<lparr>cs_log := cs_log st @ [claimed_row svc env req]\<rparr>"
  assume free: "Req_IdempotencyKey req \<notin> held_keys (cs_log st)"
  have sent: "claimed_send lib svc env req (se_id env) ?st = ((res, err), st')"
    by (rule trans [OF send_won [OF assms(1,2) free assms(5), symmetric] assms(6)])
  have err: "err = send_failure lib svc env req ?st"
    using claimed_send_fst_error [of lib svc env req "se_id env" ?st] sent by simp
  have "cs_log (snd (claimed_send lib svc env req (se_id env) ?st)) = cs_log st @
      [result_row env (if send_failure lib svc env req ?st = None then StatusSent else StatusFailed)
        (send_failure lib svc env req ?st) (claimed_row svc env req)]"
    by (rule claimed_send_log) (use assms(5) in simp_all)
  then show "cs_log st' = cs_log st @ [result_row env (if err = None then StatusSent else StatusFailed) err
      (claimed_row svc env req)]"
    using sent err by simp
  show "cs_templates st' = cs_templates st"
    using sent by (auto simp: claimed_send_def frame_rules split: sum.splits option.splits prod.splits dest!: dispatch_calls)
  assume "err = None"
  then show "res = \<lparr>Res_SendID = se_id env, Res_Status = StatusSent, Res_Deduped = False\<rparr>"
    "\<exists>tpl subject body.
       Templates.Get (se_get env) (Req_Channel req) (Req_TemplateID req) (Req_Locale req) (cs_templates st) = Inr tpl \<and>
       Render (lib_engines lib) (Some tpl) (Req_Vars req) = Inr (subject, body) \<and>
       cs_calls st' = cs_calls st @ [(Req_IdempotencyKey req,
         if Req_Channel req = ChannelEmail
         then Email_Call \<lparr>Mail_To = Req_To req, Mail_Subject = subject, Mail_TextBody = body, Mail_HTMLBody = body\<rparr>
         else SMS_Call (Req_To req) body)]"
    using claimed_send_sent [of lib svc env req "se_id env" ?st res st'] sent by simp_all
qed

lemma send_outcome_witness:
  "\<exists>res st'. Send sample_lib sample_service (sample_env 1) sample_request sample_state = ((res, None), st') \<and>
     Res_Status res = ''SENT'' \<and> cs_calls st' = [(''k'', SMS_Call ''1'' ''123'')]"
proof -
  have free: "Req_IdempotencyKey sample_request \<notin> held_keys (cs_log sample_state)"
    by (simp add: sample_state_def held_keys_def)
  obtain res err st' where s: "Send sample_lib sample_service (sample_env 1) sample_request sample_state = ((res, err), st')"
    by (metis prod.collapse)
  have none: "err = None"
    using s sample_validates sample_rendered sample_claim_stmt [of 1]
    by (auto simp: Send_cases claimed_send_def sample_send)
  have get: "Templates.Get (se_get (sample_env 1)) (Req_Channel sample_request) (Req_TemplateID sample_request)
      (Req_Locale sample_request) (cs_templates sample_state) = Inr \<lparr>Tpl_Channel = ''SMS'', Tpl_TemplateID = ''otp'',
      Tpl_Locale = ''en'', Tpl_Subject = [], Tpl_Body = ''C'', Tpl_UpdatedAt = 0\<rparr>"
    by (simp add: sample_send)
  have "se_reserve (sample_env 1) = NoFault" "se_select (sample_env 1) = NoFault" "log_ok (cs_log sample_state)"
    "se_id (sample_env 1) \<notin> l_id ` set (cs_log sample_state)"
    by (simp_all add: sample_env_def sample_state_def log_ok_def)
  from send_outcome [OF sample_validates this s] free none get sample_rendered s show ?thesis
    by (auto simp: status_defs sample_request_def channel_defs sample_state_def)
qed

text \<open>What a failed send leaves, and what no send touches: the rows that are there when it starts.\<close>

lemma failed_send_row:
  assumes "validateRequest lib req = None" "se_reserve env = NoFault" "se_id env \<notin> l_id ` set (cs_log st)"
    and "Req_IdempotencyKey req \<notin> held_keys (cs_log st)" "Send lib svc env req st = ((res, Some e), st')"
  shows "cs_log st' = cs_log st @ [result_row env StatusFailed (Some e) (claimed_row svc env req)]"
proof -
  let ?st = "st\<lparr>cs_log := cs_log st @ [claimed_row svc env req]\<rparr>"
  have sent: "claimed_send lib svc env req (se_id env) ?st = ((res, Some e), st')"
    by (rule trans [OF send_won [OF assms(1,2,4,3), symmetric] assms(5)])
  have e: "send_failure lib svc env req ?st = Some e"
    using claimed_send_fst_error [of lib svc env req "se_id env" ?st] sent by simp
  have "cs_log (snd (claimed_send lib svc env req (se_id env) ?st)) = cs_log st @
      [result_row env (if send_failure lib svc env req ?st = None then StatusSent else StatusFailed)
        (send_failure lib svc env req ?st) (claimed_row svc env req)]"
    by (rule claimed_send_log) (use assms(3) in simp_all)
  then show ?thesis using sent e by simp
qed

lemma send_keeps_rows: "set (cs_log st) \<subseteq> set (cs_log (snd (Send lib svc env req st)))"
proof (cases "validateRequest lib req")
  case None
  let ?stmt = "reserve_stmt (se_id env) (se_now env) (reserve_row svc req)"
  obtain r log where d: "db_exec (se_reserve env) ?stmt (cs_log st) = (r, log)" by force
  have sub: "set (cs_log st) \<subseteq> set log"
    using db_exec_state [of "se_reserve env" ?stmt "cs_log st"] d by (auto simp: reserve_stmt_def split: if_splits)
  show ?thesis
  proof (cases "r = Inr 1")
    case True
    then have "?stmt (cs_log st) = (Inr 1, log)" using db_exec_InrD [of "se_reserve env" ?stmt "cs_log st" 1 log] d by simp
    note won = reserve_stmt_won [OF this]
    have "cs_log (snd (claimed_send lib svc env req (se_id env) (st\<lparr>cs_log := log\<rparr>))) = cs_log st @
        [result_row env (if send_failure lib svc env req (st\<lparr>cs_log := log\<rparr>) = None then StatusSent else StatusFailed)
          (send_failure lib svc env req (st\<lparr>cs_log := log\<rparr>)) (claimed_row svc env req)]"
      by (rule claimed_send_log) (use won in simp_all)
    then show ?thesis using None d True by (simp add: Send_cases) blast
  next
    case False
    then show ?thesis using None d sub by (auto simp: Send_cases split: sum.splits)
  qed
qed (simp add: Send_cases)

end
