(* ===== verification/Comms_Handler.thy ===== *)
theory Comms_Handler
  imports Comms_Service Middleware
begin

text \<open>
  The service-to-service send API (\<open>internal/handler/comms_handler.go\<close>) over the pipeline of
  \<open>Comms_Service\<close>, and what its answers say about what was sent.

  \<open>decode\<close> is \<open>encoding/json\<close> on the limited body, \<open>parse\<close> is \<open>uuid.Parse\<close>; the \<open>binding\<close> tags are the
  model's own. What the handler logs is not modelled.
\<close>

subsection \<open>The handlers\<close>

definition maxCommsSendBody :: nat where "maxCommsSendBody = 64 * 1024"

record sendRequestBody =
  sb_Channel :: string
  sb_To :: string
  sb_TemplateID :: string
  sb_Locale :: string
  sb_Vars :: vars
  sb_IdempotencyKey :: string
  sb_UserID :: "string option"

text \<open>\<open>ShouldBindJSON\<close>: decoding, then the fields tagged \<open>required\<close>.\<close>

definition ShouldBindJSON :: "(body \<Rightarrow> string + sendRequestBody) \<Rightarrow> body \<Rightarrow> string + sendRequestBody" where
  "ShouldBindJSON decode b =
     (case decode b of
        Inl e \<Rightarrow> Inl e
      | Inr x \<Rightarrow> if sb_Channel x = [] \<or> sb_To x = [] \<or> sb_TemplateID x = [] \<or> sb_IdempotencyKey x = []
          then Inl ''required'' else Inr x)"

definition writeSendError :: "comms_error \<Rightarrow> response" where
  "writeSendError e =
     (if Is e \<in> set [ErrValidation, ErrTemplateNotFound, ErrMissingVar, ErrRenderTooLarge]
      then ErrCode 400 ''VALIDATION_ERROR'' ''invalid send request'' None
      else if IsProviderUnavailable e
      then ErrCode 500 ''PROVIDER_UNAVAILABLE'' ''delivery provider is unavailable'' None
      else ErrCode 500 ''INTERNAL_ERROR'' ''internal server error'' None)"

definition bodyUserID :: "(string \<Rightarrow> uuid option) \<Rightarrow> sendRequestBody \<Rightarrow> uuid option option" where
  "bodyUserID parse b =
     (case sb_UserID b of
        None \<Rightarrow> Some None
      | Some u \<Rightarrow> if u = [] then Some None else map_option Some (parse u))"

definition body_request :: "sendRequestBody \<Rightarrow> uuid option \<Rightarrow> SendRequest" where
  "body_request b userID = \<lparr>Req_Channel = sb_Channel b, Req_To = sb_To b, Req_TemplateID = sb_TemplateID b,
     Req_Locale = sb_Locale b, Req_Vars = sb_Vars b, Req_IdempotencyKey = sb_IdempotencyKey b, Req_UserID = userID\<rparr>"

definition accepted :: "SendResult \<Rightarrow> response" where
  "accepted res = \<lparr>rs_status = 202, rs_body = Some (J_Object [(''data'', J_Object
     [(''sendId'', J_UUID (Res_SendID res)), (''status'', J_String (Res_Status res)),
      (''deduped'', J_Bool (Res_Deduped res))])])\<rparr>"

definition Send_Handler ::
  "(body \<Rightarrow> string + sendRequestBody) \<Rightarrow> (string \<Rightarrow> uuid option) \<Rightarrow> comms_lib \<Rightarrow> comms_service \<Rightarrow> send_env \<Rightarrow>
   ctx \<Rightarrow> comms_state \<Rightarrow> response \<times> comms_state" where
  "Send_Handler decode parse lib svc env c st =
     (case ShouldBindJSON decode (max_bytes maxCommsSendBody (ReqBody c)) of
        Inl e \<Rightarrow> (ErrCode 400 ''VALIDATION_ERROR'' ''invalid request body'' None, st)
      | Inr b \<Rightarrow> (case bodyUserID parse b of
          None \<Rightarrow> (ErrCode 400 ''VALIDATION_ERROR'' ''userId must be a valid UUID'' None, st)
        | Some userID \<Rightarrow> (case Send lib svc env (body_request b userID) st of
            ((res, Some e), st') \<Rightarrow> (writeSendError e, st')
          | ((res, None), st') \<Rightarrow> (accepted res, st'))))"

definition Receipts :: "ctx \<Rightarrow> response" where
  "Receipts c = ErrCode 501 ''NOT_IMPLEMENTED'' ''receipts webhook not yet implemented'' None"

subsection \<open>What an answer says\<close>

definition real_senders :: "comms_service \<Rightarrow> bool" where
  "real_senders svc \<longleftrightarrow> (case smsSender svc of Some (SpySender e) \<Rightarrow> False | _ \<Rightarrow> True)"

text \<open>Senders fail with no other sentinel than provider-not-integrated, and then nothing left the process.\<close>

lemma email_send_error:
  "email_send ctx d sender em = (Some e, msgs) \<Longrightarrow>
   Is e = NoSentinel \<or> Is e = ErrProviderNotIntegrated \<and> msgs = []"
  by (cases sender) (auto simp: smtp_send_def ses_send_def sendgrid_send_def error_defs Let_def split: option.splits if_splits)

lemma dispatch_error:
  assumes "dispatch ctx svc env req subject body st = (Some e, st')" "real_senders svc"
  shows "Is e = NoSentinel \<or> Is e = ErrProviderNotIntegrated \<and> cs_mail st' = cs_mail st"
proof (cases "Req_Channel req = ChannelEmail")
  case True
  then show ?thesis using assms(1)
    by (auto simp: dispatch_def Let_def error_defs split: option.splits prod.splits dest!: email_send_error)
next
  case False
  have "sms_send s to m = Some e \<Longrightarrow> smsSender svc = Some s \<Longrightarrow> Is e = ErrProviderNotIntegrated" for s to m
    using assms(2) by (cases s) (auto simp: real_senders_def error_defs)
  then show ?thesis using assms(1) False
    by (auto simp: dispatch_def error_defs split: if_splits option.splits)
qed

lemma claimed_error:
  assumes "claimed_send lib svc env req i st = ((res, Some e), st')" "real_senders svc"
  shows "Is e \<in> set [ErrValidation, ErrTemplateNotFound, ErrMissingVar, ErrRenderTooLarge] \<Longrightarrow>
      cs_calls st' = cs_calls st \<and> cs_mail st' = cs_mail st"
    and "Is e = ErrProviderNotIntegrated \<Longrightarrow> cs_mail st' = cs_mail st"
proof -
  have "cs_calls st' = cs_calls st \<and> cs_mail st' = cs_mail st \<or>
      (\<exists>subject body st2. dispatch (send_ctx svc) svc env req subject body st = (Some e, st2) \<and> cs_mail st' = cs_mail st2)"
    using assms(1) by (auto simp: claimed_send_def frame_rules split: sum.splits option.splits prod.splits) blast+
  then show "Is e \<in> set [ErrValidation, ErrTemplateNotFound, ErrMissingVar, ErrRenderTooLarge] \<Longrightarrow>
      cs_calls st' = cs_calls st \<and> cs_mail st' = cs_mail st"
    and "Is e = ErrProviderNotIntegrated \<Longrightarrow> cs_mail st' = cs_mail st"
    using dispatch_error [OF _ assms(2)] by fastforce+
qed

lemma send_error:
  assumes "Send lib svc env req st = ((res, Some e), st')" "real_senders svc"
  shows "Is e \<in> set [ErrValidation, ErrTemplateNotFound, ErrMissingVar, ErrRenderTooLarge] \<Longrightarrow>
      cs_calls st' = cs_calls st \<and> cs_mail st' = cs_mail st"
    and "Is e = ErrProviderNotIntegrated \<Longrightarrow> cs_mail st' = cs_mail st"
proof -
  have "cs_calls st' = cs_calls st \<and> cs_mail st' = cs_mail st \<or>
      (\<exists>log i. claimed_send lib svc env req i (st\<lparr>cs_log := log\<rparr>) = ((res, Some e), st'))"
    using assms(1) by (auto simp: Send_cases split: sum.splits option.splits prod.splits if_splits)
  then show "Is e \<in> set [ErrValidation, ErrTemplateNotFound, ErrMissingVar, ErrRenderTooLarge] \<Longrightarrow>
      cs_calls st' = cs_calls st \<and> cs_mail st' = cs_mail st"
    and "Is e = ErrProviderNotIntegrated \<Longrightarrow> cs_mail st' = cs_mail st"
    using claimed_error [OF _ assms(2)] by fastforce+
qed

text \<open>C16. The answers of the send API say what happened and no more. A request is accepted (202) exactly when
  its body binds, its user id parses and the send succeeds, and the answer is the send's id, status and
  deduplication flag. Any other answer is one of five fixed ones: no error text, provider name or recipient is
  in them. A 400 means that no provider was called and nothing was handed to the mail server;
  \<open>PROVIDER_UNAVAILABLE\<close> means that nothing was handed to the mail server.\<close>

theorem send_api_answers:
  assumes "real_senders svc" "Send_Handler decode parse lib svc env c st = (r, st')"
  shows "(rs_status r = 202 \<longleftrightarrow> (\<exists>b userID res. ShouldBindJSON decode (max_bytes maxCommsSendBody (ReqBody c)) = Inr b \<and>
      bodyUserID parse b = Some userID \<and> Send lib svc env (body_request b userID) st = ((res, None), st') \<and> r = accepted res)) \<and>
    (rs_status r = 202 \<or> r \<in> set [ErrCode 400 ''VALIDATION_ERROR'' ''invalid request body'' None,
       ErrCode 400 ''VALIDATION_ERROR'' ''userId must be a valid UUID'' None,
       ErrCode 400 ''VALIDATION_ERROR'' ''invalid send request'' None,
       ErrCode 500 ''PROVIDER_UNAVAILABLE'' ''delivery provider is unavailable'' None,
       ErrCode 500 ''INTERNAL_ERROR'' ''internal server error'' None]) \<and>
    (rs_status r = 400 \<longrightarrow> cs_calls st' = cs_calls st \<and> cs_mail st' = cs_mail st) \<and>
    (r = ErrCode 500 ''PROVIDER_UNAVAILABLE'' ''delivery provider is unavailable'' None \<longrightarrow> cs_mail st' = cs_mail st)"
proof (cases "ShouldBindJSON decode (max_bytes maxCommsSendBody (ReqBody c))")
  case (Inr b)
  show ?thesis
  proof (cases "bodyUserID parse b")
    case (Some userID)
    obtain res err st2 where s: "Send lib svc env (body_request b userID) st = ((res, err), st2)" by (metis prod.collapse)
    show ?thesis
    proof (cases err)
      case None
      then show ?thesis using assms Inr Some s by (auto simp: Send_Handler_def accepted_def ErrCode_def)
    next
      case (Some e)
      have r: "r = writeSendError e" "st' = st2"
        using assms Inr s \<open>bodyUserID parse b = Some userID\<close> Some by (auto simp: Send_Handler_def)
      note err = send_error [OF s [unfolded Some] assms(1)]
      show ?thesis using r err Inr s Some \<open>bodyUserID parse b = Some userID\<close>
        by (auto simp: writeSendError_def ErrCode_def accepted_def error_body_def IsProviderUnavailable_def)
    qed
  qed (use assms Inr in \<open>auto simp: Send_Handler_def ErrCode_def error_body_def\<close>)
qed (use assms in \<open>auto simp: Send_Handler_def ErrCode_def error_body_def\<close>)


definition fax_body :: sendRequestBody where
  "fax_body = \<lparr>sb_Channel = ''FAX'', sb_To = ''1'', sb_TemplateID = ''otp'', sb_Locale = [], sb_Vars = None,
     sb_IdempotencyKey = ''k'', sb_UserID = Some []\<rparr>"

lemma send_api_answers_witness:
  "\<exists>r st'. Send_Handler (\<lambda>_. Inr fax_body) undec_uuid sample_lib (sample_service\<lparr>smsSender := Some StubSender\<rparr>)
     (sample_env 1) \<lparr>Method = ''POST'', URLPath = ''/v1/comms/send'', RequestURI = ''/v1/comms/send'', Header = (\<lambda>_. []),
       Query = Map.empty, Param = (\<lambda>_. []), ReqBody = No_Body, ClientIP = [], Keys = Map.empty, OutHeaders = []\<rparr>
     sample_state = (r, st') \<and> rs_status r = 400 \<and> cs_calls st' = [] \<and> cs_mail st' = []"
    (is "\<exists>r st'. Send_Handler ?d ?p ?l ?s ?e ?c ?st = _ \<and> _")
proof -
  have real: "real_senders ?s" by (simp add: real_senders_def)
  obtain r st' where h: "Send_Handler ?d ?p ?l ?s ?e ?c ?st = (r, st')" by force
  have "rs_status r = 400" using h
    by (auto simp: Send_Handler_def ShouldBindJSON_def bodyUserID_def fax_body_def body_request_def Send_def
        validateRequest_def Channel_Valid_def channel_defs detailed_def writeSendError_def ErrCode_def)
  with send_api_answers [OF real h] h show ?thesis by (simp add: sample_state_def)
qed

end
