(* ===== verification/Router.thy ===== *)
theory Router
  imports Gateway_Signature Rate_Limit Waitlist Inbox_Handler Comms_Handler
begin

text \<open>
  The HTTP surface (\<open>internal/handler/router.go\<close> with \<open>internal/platform/health\<close>): which routes there
  are, which middlewares stand before each, and who can change what through them.

  \<open>NewRouter\<close> makes an \<open>engine\<close>: the table of routes and the limiters. \<open>ServeHTTP\<close> answers one request
  on the state of the service: its tables, its Redis server and the limiters' buckets. Finding the route
  of a request is \<open>gin\<close>'s work and an argument; it answers with an entry of the table or with none. Where it
  finds none, \<open>gin\<close> may answer by itself: \<open>gin.New()\<close> leaves \<open>RedirectTrailingSlash\<close> on, so a path that would
  have a route with or without a trailing slash is answered with a redirect, and no middleware runs.
  A request is handled at one instant.
\<close>

subsection \<open>The state and the environment\<close>

record ('r, 'c, 'b) service_state =
  sv_inbox :: inbox
  sv_waitlist :: "waitlist_entry list"
  sv_comms :: comms_state
  sv_redis :: 'r
  sv_ip :: "('c, 'b) buckets"
  sv_wl :: "('c, 'b) buckets"
  sv_svc :: "('c, 'b) buckets"
  sv_users :: "('c, 'b) user_limiter"

datatype endpoint =
    Healthz | Readyz | Waitlist_Capture | Inbox_List | Inbox_Unread | Inbox_ReadAll | Inbox_Read
  | Comms_Send | Comms_Receipts

type_synonym route = "string \<times> string \<times> endpoint"

record ('c, 'b) router_lib =
  rt_pg :: pg
  rt_limiter :: "('c, 'b) limiter_lib"
  rt_comms :: comms_lib
  rt_str :: "uuid \<Rightarrow> string"
  rt_parse :: "string \<Rightarrow> uuid option"
  rt_zone :: "instant \<Rightarrow> int"
  rt_capture :: "body \<Rightarrow> string + captureRequest"
  rt_decode :: "body \<Rightarrow> string + sendRequestBody"
  rt_not_found :: response
  rt_redirect :: "route list \<Rightarrow> ctx \<Rightarrow> ((string \<times> string) list \<times> response) option"

text \<open>What the environment contributes to one request.\<close>

record request_env =
  rq_clock :: instant
  rq_fresh_id :: string
  rq_fault :: fault
  rq_reading :: reading
  rq_capture :: capture_env
  rq_send :: send_env
  rq_ping :: "string option"

subsection \<open>Health\<close>

definition Liveness :: response where
  "Liveness = \<lparr>rs_status = 200, rs_body = Some (J_Object [(''status'', J_String ''ok'')])\<rparr>"

text \<open>The result of the ping of the pool.\<close>

definition Readiness :: "string option \<Rightarrow> response" where
  "Readiness ping =
     (let checks = [(''postgres'', J_String (if ping \<noteq> None then ''down'' else ''ok''))]; allOK = (ping = None) in
      if allOK then \<lparr>rs_status = 200, rs_body = Some (J_Object [(''status'', J_String ''ready''), (''checks'', J_Object checks)])\<rparr>
      else \<lparr>rs_status = 503, rs_body = Some (J_Object [(''status'', J_String ''not_ready''), (''checks'', J_Object checks)])\<rparr>)"

subsection \<open>Building the router\<close>

record 'r router_config =
  rc_WaitlistStore :: bool
  rc_Redis :: "'r redis option"
  rc_GatewayHMACSecret :: string
  rc_UserRateLimitPerMin :: int
  rc_UserRateLimitBurst :: int
  rc_GatewayCIDR :: string
  rc_CommsService :: "comms_service option"
  rc_S2STokenMap :: "(string \<times> string) list"

record 'r engine =
  en_config :: "'r router_config"
  en_trusted :: "string list"
  en_routes :: "route list"
  en_ip :: rate_limiter
  en_wl :: rate_limiter
  en_svc :: rate_limiter

definition route_table :: "'r router_config \<Rightarrow> route list" where
  "route_table cfg =
     [(''GET'', ''/healthz'', Healthz), (''GET'', ''/readyz'', Readyz)] @
     (if rc_WaitlistStore cfg then [(''POST'', ''/v1/waitlist'', Waitlist_Capture)] else []) @
     [(''GET'', ''/v1/me/notifications'', Inbox_List),
      (''GET'', ''/v1/me/notifications/unread-count'', Inbox_Unread),
      (''POST'', ''/v1/me/notifications/read-all'', Inbox_ReadAll),
      (''POST'', ''/v1/me/notifications/:id/read'', Inbox_Read)] @
     (if rc_CommsService cfg \<noteq> None
      then [(''POST'', ''/v1/comms/send'', Comms_Send), (''POST'', ''/v1/comms/receipts/:provider'', Comms_Receipts)]
      else [])"

text \<open>\<open>set_trusted\<close> is \<open>SetTrustedProxies\<close>; the router panics with its error.\<close>

definition NewRouter ::
  "('c, 'b) limiter_lib \<Rightarrow> (string list \<Rightarrow> string option) \<Rightarrow> 'r router_config \<Rightarrow> string + 'r engine" where
  "NewRouter lib set_trusted cfg =
     (let trusted = (if rc_GatewayCIDR cfg \<noteq> [] then [rc_GatewayCIDR cfg] else []);
          engine = \<lparr>en_config = cfg, en_trusted = trusted, en_routes = route_table cfg,
            en_ip = fst (NewIPRateLimiter lib 120 minute),
            en_wl = fst (NewIPRateLimiterWithPrefix lib 5 minute ''notification:rl:waitlist:ip''),
            en_svc = fst (NewServiceRateLimiter lib 300 minute)\<rparr>
      in if rc_GatewayCIDR cfg \<noteq> []
         then (case set_trusted trusted of
             Some m \<Rightarrow> Inl (''router: invalid GatewayCIDR: '' @ m)
           | None \<Rightarrow> Inr engine)
         else Inr engine)"

subsection \<open>The chains\<close>

type_synonym ('r, 'c, 'b) mw = "('r, 'c, 'b) service_state middleware"

definition limited ::
  "(('r, 'c, 'b) service_state \<Rightarrow> ('c, 'b) buckets) \<Rightarrow>
   (('c, 'b) buckets \<Rightarrow> ('r, 'c, 'b) service_state \<Rightarrow> ('r, 'c, 'b) service_state) \<Rightarrow>
   ('c, 'b) router_lib \<Rightarrow> 'r redis option \<Rightarrow> rate_limiter \<Rightarrow> request_env \<Rightarrow> ('r, 'c, 'b) mw" where
  "limited get put lib rd rl q c s =
     (case RateLimiter_Handler (rt_limiter lib) rd rl (rq_clock q) c (sv_redis s, get s) of
        (v, r, f) \<Rightarrow> (v, put f (s\<lparr>sv_redis := r\<rparr>)))"

definition ip_limited :: "('c, 'b) router_lib \<Rightarrow> 'r engine \<Rightarrow> request_env \<Rightarrow> ('r, 'c, 'b) mw" where
  "ip_limited lib en q = limited sv_ip (\<lambda>f s. s\<lparr>sv_ip := f\<rparr>) lib (rc_Redis (en_config en)) (en_ip en) q"

definition wl_limited :: "('c, 'b) router_lib \<Rightarrow> 'r engine \<Rightarrow> request_env \<Rightarrow> ('r, 'c, 'b) mw" where
  "wl_limited lib en q = limited sv_wl (\<lambda>f s. s\<lparr>sv_wl := f\<rparr>) lib (rc_Redis (en_config en)) (en_wl en) q"

definition svc_limited :: "('c, 'b) router_lib \<Rightarrow> 'r engine \<Rightarrow> request_env \<Rightarrow> ('r, 'c, 'b) mw" where
  "svc_limited lib en q = limited sv_svc (\<lambda>f s. s\<lparr>sv_svc := f\<rparr>) lib (rc_Redis (en_config en)) (en_svc en) q"

definition user_limited :: "('c, 'b) router_lib \<Rightarrow> request_env \<Rightarrow> ('r, 'c, 'b) mw" where
  "user_limited lib q c s =
     (case UserRateLimiter_Handler (rt_limiter lib) (rt_str lib) (rq_clock q) c (sv_users s) of
        (v, l) \<Rightarrow> (v, s\<lparr>sv_users := l\<rparr>))"

definition gateway_verified :: "'r engine \<Rightarrow> request_env \<Rightarrow> ('r, 'c, 'b) mw" where
  "gateway_verified en q c s =
     (case VerifyGatewaySignature (rc_GatewayHMACSecret (en_config en)) (rc_Redis (en_config en)) (rq_clock q) c (sv_redis s) of
        (v, r) \<Rightarrow> (v, s\<lparr>sv_redis := r\<rparr>))"

fun is_inbox :: "endpoint \<Rightarrow> bool" where
  "is_inbox e \<longleftrightarrow> e \<in> {Inbox_List, Inbox_Unread, Inbox_ReadAll, Inbox_Read}"

fun is_comms :: "endpoint \<Rightarrow> bool" where
  "is_comms e \<longleftrightarrow> e \<in> {Comms_Send, Comms_Receipts}"

definition base_chain :: "request_env \<Rightarrow> ('r, 'c, 'b) mw list" where
  "base_chain q = [stateless (RequestID (rq_fresh_id q)), stateless SecurityHeaders]"

definition group_chain :: "('c, 'b) router_lib \<Rightarrow> 'r engine \<Rightarrow> request_env \<Rightarrow> endpoint \<Rightarrow> ('r, 'c, 'b) mw list" where
  "group_chain lib en q e =
     (if is_inbox e then
        [gateway_verified en q, stateless (RequireValidIdentity (rt_parse lib))] @
        (if rc_UserRateLimitPerMin (en_config en) > 0 then [user_limited lib q] else []) @
        [stateless (RequireTier 0)]
      else if is_comms e then
        [stateless (RequireServiceIdentity (rc_S2STokenMap (en_config en))), svc_limited lib en q]
      else if e = Waitlist_Capture then [wl_limited lib en q]
      else [])"

text \<open>Health probes are registered before the limiter; what has no route and is not redirected runs the global
  chain.\<close>

definition chain_of ::
  "('c, 'b) router_lib \<Rightarrow> 'r engine \<Rightarrow> request_env \<Rightarrow> endpoint option \<Rightarrow> ('r, 'c, 'b) mw list" where
  "chain_of lib en q found = base_chain q @
     (case found of
        None \<Rightarrow> [ip_limited lib en q]
      | Some e \<Rightarrow> (if e = Healthz \<or> e = Readyz then [] else [ip_limited lib en q]) @ group_chain lib en q e)"

definition inbox_env_of :: "('c, 'b) router_lib \<Rightarrow> request_env \<Rightarrow> inbox_env" where
  "inbox_env_of lib q = \<lparr>ie_str = rt_str lib, ie_parse = rt_parse lib, ie_zone = rt_zone lib,
     ie_fault = rq_fault q, ie_reading = rq_reading q, ie_now = rq_clock q\<rparr>"

definition on_inbox ::
  "(ctx \<Rightarrow> inbox \<Rightarrow> response \<times> inbox) \<Rightarrow> ('r, 'c, 'b) service_state handler" where
  "on_inbox h c s = (case h c (sv_inbox s) of (r, t) \<Rightarrow> (Some r, s\<lparr>sv_inbox := t\<rparr>))"

definition handler_of ::
  "('c, 'b) router_lib \<Rightarrow> 'r engine \<Rightarrow> request_env \<Rightarrow> endpoint option \<Rightarrow> ('r, 'c, 'b) service_state handler" where
  "handler_of lib en q found =
     (let env = inbox_env_of lib q in case found of
        None \<Rightarrow> (\<lambda>c s. (Some (rt_not_found lib), s))
      | Some Healthz \<Rightarrow> (\<lambda>c s. (Some Liveness, s))
      | Some Readyz \<Rightarrow> (\<lambda>c s. (Some (Readiness (rq_ping q)), s))
      | Some Waitlist_Capture \<Rightarrow> (\<lambda>c s.
          (case Capture (rt_capture lib) (rt_pg lib) (rq_capture q) c (sv_waitlist s) of
             (r, t) \<Rightarrow> (Some r, s\<lparr>sv_waitlist := t\<rparr>)))
      | Some Inbox_List \<Rightarrow> on_inbox (List_Handler (rt_pg lib) env)
      | Some Inbox_Unread \<Rightarrow> on_inbox (UnreadCount_Handler env)
      | Some Inbox_ReadAll \<Rightarrow> on_inbox (MarkAllRead_Handler (rt_pg lib) env)
      | Some Inbox_Read \<Rightarrow> on_inbox (MarkRead_Handler (rt_pg lib) env)
      | Some Comms_Send \<Rightarrow> (\<lambda>c s.
          (case rc_CommsService (en_config en) of
             None \<Rightarrow> (None, s)
           | Some svc \<Rightarrow> (case Send_Handler (rt_decode lib) (rt_parse lib) (rt_comms lib) svc (rq_send q) c (sv_comms s) of
               (r, t) \<Rightarrow> (Some r, s\<lparr>sv_comms := t\<rparr>))))
      | Some Comms_Receipts \<Rightarrow> (\<lambda>c s. (Some (Receipts c), s)))"

text \<open>The line the access log gets, without the latency: none for the probes, and none when the handler
  panics.\<close>

definition accessLogger :: "ctx \<Rightarrow> string \<Rightarrow> response option \<Rightarrow> (string \<times> string \<times> nat \<times> string) option" where
  "accessLogger c requestID r =
     (if URLPath c = ''/healthz'' \<or> URLPath c = ''/readyz'' then None
      else map_option (\<lambda>resp. (Method c, URLPath c, rs_status resp, requestID)) r)"

type_synonym served = "(string \<times> string) list \<times> response \<times> (string \<times> string \<times> nat \<times> string) option"

text \<open>The redirect \<open>gin\<close> answers a request with, where it does: its headers and its response.\<close>

definition gin_redirects ::
  "('c, 'b) router_lib \<Rightarrow> (route list \<Rightarrow> ctx \<Rightarrow> endpoint option) \<Rightarrow> route list \<Rightarrow> ctx \<Rightarrow>
   ((string \<times> string) list \<times> response) option" where
  "gin_redirects lib gin_find routes c = (if gin_find routes c = None then rt_redirect lib routes c else None)"

lemma found_no_redirect [simp]: "gin_find routes c = Some e \<Longrightarrow> gin_redirects lib gin_find routes c = None"
  by (simp add: gin_redirects_def)

definition ServeHTTP ::
  "('c, 'b) router_lib \<Rightarrow> (route list \<Rightarrow> ctx \<Rightarrow> endpoint option) \<Rightarrow> 'r engine \<Rightarrow> request_env \<times> ctx \<Rightarrow>
   ('r, 'c, 'b) service_state \<Rightarrow> served \<times> ('r, 'c, 'b) service_state" where
  "ServeHTTP lib gin_find en = (\<lambda>(q, c) s.
     let found = gin_find (en_routes en) c;
         given = Header c headerRequestID;
         rid = (if given = [] \<or> \<not> requestIDPattern given then rq_fresh_id q else given)
     in (case gin_redirects lib gin_find (en_routes en) c of
           Some (hs, r) \<Rightarrow> ((hs, r, None), s)
         | None \<Rightarrow> (case run_chain (chain_of lib en q found) (handler_of lib en q found) c s of
             ((hs, r), s') \<Rightarrow> ((hs, Recover r, accessLogger c rid r), s'))))"

subsection \<open>The engine of the handlers' unit tests\<close>

text \<open>\<open>BuildTestEngine\<close>: the inbox routes behind the identity check alone, over a store.\<close>

definition test_routes :: "route list" where
  "test_routes =
     [(''GET'', ''/v1/me/notifications'', Inbox_List), (''GET'', ''/v1/me/notifications/unread-count'', Inbox_Unread),
      (''POST'', ''/v1/me/notifications/read-all'', Inbox_ReadAll), (''POST'', ''/v1/me/notifications/:id/read'', Inbox_Read)]"

definition BuildTestEngine ::
  "('c, 'b) router_lib \<Rightarrow> (route list \<Rightarrow> ctx \<Rightarrow> endpoint option) \<Rightarrow> request_env \<times> ctx \<Rightarrow> inbox \<Rightarrow> response \<times> inbox" where
  "BuildTestEngine lib gin_find = (\<lambda>(q, c) s.
     let env = inbox_env_of lib q;
         global = [stateless (RequestID (rq_fresh_id q)), stateless SecurityHeaders];
         api = global @ [stateless (RequireValidIdentity (rt_parse lib))];
         handler = (\<lambda>h c s. (case h c s of (r, t) \<Rightarrow> (Some r, t)));
         serve = (case gin_find test_routes c of
             Some Inbox_List \<Rightarrow> run_chain api (handler (List_Handler (rt_pg lib) env))
           | Some Inbox_Unread \<Rightarrow> run_chain api (handler (UnreadCount_Handler env))
           | Some Inbox_ReadAll \<Rightarrow> run_chain api (handler (MarkAllRead_Handler (rt_pg lib) env))
           | Some Inbox_Read \<Rightarrow> run_chain api (handler (MarkRead_Handler (rt_pg lib) env))
           | _ \<Rightarrow> run_chain global (\<lambda>c s. (Some (rt_not_found lib), s)))
     in (case gin_redirects lib gin_find test_routes c of
           Some (hs, r) \<Rightarrow> (r, s)
         | None \<Rightarrow> (case serve c s of ((hs, r), t) \<Rightarrow> (Recover r, t))))"

text \<open>Its requests need no signature: the identity header alone names the user.\<close>

lemma test_engine_identity:
  assumes "BuildTestEngine lib gin_find (q, c) s = (r, t)" "gin_find test_routes c = Some e" "is_inbox e"
    and "rt_parse lib (Header c headerUserID) = None"
  shows "rs_status r = 401 \<and> t = s"
  using assms
  by (cases e) (auto simp: BuildTestEngine_def Let_def stateless_def RequestID_def SecurityHeaders_def
      RequireValidIdentity_def Recover_def ErrCode_def split: if_splits)

subsection \<open>Middlewares leave the data alone\<close>

definition data_of :: "('r, 'c, 'b) service_state \<Rightarrow> inbox \<times> waitlist_entry list \<times> comms_state" where
  "data_of s = (sv_inbox s, sv_waitlist s, sv_comms s)"

definition transparent :: "('r, 'c, 'b) mw \<Rightarrow> bool" where
  "transparent m \<longleftrightarrow> (\<forall>c s. data_of (snd (m c s)) = data_of s \<and>
     (\<forall>c'. fst (m c s) = Next c' \<longrightarrow> Header c' = Header c \<and> Method c' = Method c \<and> RequestURI c' = RequestURI c))"

lemma transparentI:
  assumes "\<And>c s v s'. m c s = (v, s') \<Longrightarrow> data_of s' = data_of s"
    and "\<And>c s c' s'. m c s = (Next c', s') \<Longrightarrow> Header c' = Header c \<and> Method c' = Method c \<and> RequestURI c' = RequestURI c"
  shows "transparent m"
  unfolding transparent_def using assms by (metis prod.collapse)

lemma transparentD:
  assumes "transparent m" "m c s = (v, s')"
  shows "data_of s' = data_of s"
    and "v = Next c' \<Longrightarrow> Header c' = Header c \<and> Method c' = Method c \<and> RequestURI c' = RequestURI c"
  using assms unfolding transparent_def by (metis fst_conv snd_conv)+

lemma transparent_pass:
  "list_all transparent ms \<Longrightarrow> pass ms c s = (v, s') \<Longrightarrow> data_of s' = data_of s"
proof (induction ms arbitrary: c s)
  case (Cons m ms)
  obtain w s1 where m: "m c s = (w, s1)" by force
  then have "data_of s1 = data_of s" using Cons.prems(1) transparentD(1) [of m c s w s1] by simp
  then show ?case using Cons m by (auto split: verdict.splits)
qed simp

lemma limiter_Next:
  "RateLimiter_Handler l rd rl t c x = (Next c', y) \<Longrightarrow> c' = c"
  by (cases x) (auto simp: RateLimiter_Handler_def Let_def split: option.splits prod.splits sum.splits if_splits)

lemma user_limiter_Next:
  "UserRateLimiter_Handler l str t c x = (Next c', y) \<Longrightarrow> c' = c"
  by (auto simp: UserRateLimiter_Handler_def split: option.splits if_splits prod.splits)

lemma gateway_Next:
  assumes "VerifyGatewaySignature secret rdb t c x = (Next c', y)"
  shows "Header c' = Header c \<and> Method c' = Method c \<and> RequestURI c' = RequestURI c"
proof (cases "secret = []")
  case False
  obtain bs where "buffered_as c bs c'" by (rule gateway_passed [OF assms False])
  then show ?thesis by simp
qed (use assms in \<open>simp add: VerifyGatewaySignature_def\<close>)

lemma limited_transparent:
  assumes "\<And>f t. data_of (put f t) = data_of t"
  shows "transparent (limited get put lib rd rl q)"
proof (rule transparentI)
  fix c s v s'
  assume "limited get put lib rd rl q c s = (v, s')"
  then show "data_of s' = data_of s"
    using assms by (auto simp: limited_def split: prod.splits) (simp add: data_of_def)
next
  fix c s c' s'
  assume "limited get put lib rd rl q c s = (Next c', s')"
  then have "c' = c" by (auto simp: limited_def split: prod.splits dest: limiter_Next)
  then show "Header c' = Header c \<and> Method c' = Method c \<and> RequestURI c' = RequestURI c" by simp
qed

lemma user_limited_transparent [frame_rules]: "transparent (user_limited lib q)"
proof (rule transparentI)
  fix c s c' s'
  assume "user_limited lib q c s = (Next c', s')"
  then have "c' = c" by (auto simp: user_limited_def split: prod.splits dest: user_limiter_Next)
  then show "Header c' = Header c \<and> Method c' = Method c \<and> RequestURI c' = RequestURI c" by simp
qed (auto simp: user_limited_def data_of_def split: prod.splits)

lemma gateway_verified_transparent [frame_rules]: "transparent (gateway_verified en q)"
proof (rule transparentI)
  fix c s c' s'
  assume "gateway_verified en q c s = (Next c', s')"
  then show "Header c' = Header c \<and> Method c' = Method c \<and> RequestURI c' = RequestURI c"
    by (auto simp: gateway_verified_def split: prod.splits dest!: gateway_Next)
qed (auto simp: gateway_verified_def data_of_def split: prod.splits)

lemma stateless_transparent:
  "(\<And>c c'. m c = Next c' \<Longrightarrow> Header c' = Header c \<and> Method c' = Method c \<and> RequestURI c' = RequestURI c) \<Longrightarrow>
   transparent (stateless m)"
  by (auto simp: transparent_def stateless_def)

lemma stateless_chain_transparent [frame_rules]:
  "transparent (stateless (RequestID f))" "transparent (stateless SecurityHeaders)"
  "transparent (stateless (RequireValidIdentity p))" "transparent (stateless (RequireTier n))"
  "transparent (stateless (RequireServiceIdentity t))"
proof -
  show "transparent (stateless (RequestID f))" by (rule stateless_transparent) (auto simp: RequestID_def Let_def)
  show "transparent (stateless SecurityHeaders)" by (rule stateless_transparent) (auto simp: SecurityHeaders_def)
  show "transparent (stateless (RequireValidIdentity p))" by (rule stateless_transparent) (simp add: identity_same_request)
  show "transparent (stateless (RequireTier n))" by (rule stateless_transparent) (auto dest: RequireTier_Next)
  show "transparent (stateless (RequireServiceIdentity t))"
    by (rule stateless_transparent) (auto simp: RequireServiceIdentity_def Let_def split: if_splits option.splits)
qed

lemma limiters_transparent [frame_rules]:
  "transparent (ip_limited lib en q)" "transparent (wl_limited lib en q)" "transparent (svc_limited lib en q)"
  unfolding ip_limited_def wl_limited_def svc_limited_def by (rule limited_transparent, simp add: data_of_def)+

lemma chain_transparent: "list_all transparent (chain_of lib en q found)"
  by (simp add: chain_of_def base_chain_def group_chain_def frame_rules split: option.splits)


subsection \<open>Who may change what\<close>

lemma base_passes:
  "\<exists>c0. (\<forall>ms s. pass (base_chain q @ ms) c s = pass ms c0 s) \<and> Header c0 = Header c \<and> Method c0 = Method c \<and>
     RequestURI c0 = RequestURI c \<and> ReqBody c0 = ReqBody c"
proof -
  define c1 where "c1 = (case RequestID (rq_fresh_id q) c of Next x \<Rightarrow> x | Abort x r \<Rightarrow> x)"
  define c2 where "c2 = (case SecurityHeaders c1 of Next x \<Rightarrow> x | Abort x r \<Rightarrow> x)"
  show ?thesis
  proof (rule exI [of _ c2], intro conjI allI)
    show "pass (base_chain q @ ms) c s = pass ms c2 s" for ms s
      by (simp add: base_chain_def stateless_def c2_def c1_def RequestID_def SecurityHeaders_def Let_def)
  qed (simp_all add: c2_def c1_def RequestID_def SecurityHeaders_def Let_def)
qed

lemma group_passed:
  fixes s s1 :: "('r, 'c, 'b) service_state"
  assumes "pass (chain_of lib en q (Some e)) c s = (Next c1, s1)"
  obtains c0 s0 where "pass (group_chain lib en q e) c0 s0 = (Next c1, s1)"
    "Header c0 = Header c" "Method c0 = Method c" "RequestURI c0 = RequestURI c"
proof -
  obtain c0 where c0: "\<And>(ms :: ('r, 'c, 'b) mw list) s. pass (base_chain q @ ms) c s = pass ms c0 s"
    "Header c0 = Header c" "Method c0 = Method c" "RequestURI c0 = RequestURI c" using base_passes [of q c] by blast
  have "\<exists>s0. pass (group_chain lib en q e) c0 s0 = (Next c1, s1)"
  proof (cases "e = Healthz \<or> e = Readyz")
    case False
    then have "pass (ip_limited lib en q # group_chain lib en q e) c0 s = (Next c1, s1)"
      using assms c0(1) by (simp add: chain_of_def del: pass.simps)
    then show ?thesis
      by (auto simp: ip_limited_def limited_def split: prod.splits verdict.splits dest: limiter_Next)
  qed (use assms c0(1) in \<open>auto simp: chain_of_def\<close>)
  then show thesis using that c0 by blast
qed

lemma inbox_identity:
  fixes lib :: "('c, 'b) router_lib" and s s1 :: "('r, 'c, 'b) service_state"
  assumes "pass (chain_of lib en q (Some e)) c s = (Next c1, s1)" "is_inbox e"
  obtains c0 and s0 :: "('r, 'c, 'b) service_state" and ca s2 i where "gateway_verified en q c0 s0 = (Next ca, s2)"
    "Header c0 = Header c" "Method c0 = Method c" "RequestURI c0 = RequestURI c"
    "IdentityFromCtx c1 = Some i" "rt_parse lib (Header c headerUserID) = Some (Ident_UserID i)"
proof -
  obtain c0 s0 where g: "pass (group_chain lib en q e) c0 s0 = (Next c1, s1)"
    "Header c0 = Header c" "Method c0 = Method c" "RequestURI c0 = RequestURI c"
    by (rule group_passed [OF assms(1)])
  obtain ca s2 where v: "gateway_verified en q c0 s0 = (Next ca, s2)" and rest:
    "pass ([stateless (RequireValidIdentity (rt_parse lib))] @
       (if rc_UserRateLimitPerMin (en_config en) > 0 then [user_limited lib q] else []) @ [stateless (RequireTier 0)]) ca s2 =
     (Next c1, s1)"
    using g(1) assms(2) by (cases "gateway_verified en q c0 s0") (auto simp: group_chain_def split: verdict.splits)
  obtain cb where i: "RequireValidIdentity (rt_parse lib) ca = Next cb"
    using rest by (auto simp: stateless_def split: verdict.splits)
  have "c1 = cb" using rest i
    by (auto simp: stateless_def user_limited_def split: verdict.splits if_splits prod.splits
        dest: RequireTier_Next user_limiter_Next)
  moreover obtain u id where "rt_parse lib (Header ca headerUserID) = Some u" "IdentityFromCtx cb = Some id" "Ident_UserID id = u"
    using identity_passed [OF i] by metis
  moreover have "Header ca = Header c0"
    using v by (auto simp: gateway_verified_def split: prod.splits dest!: gateway_Next)
  ultimately show thesis using g(2) by (intro that [OF v g(2-4)]) auto
qed

lemma inbox_passed:
  fixes lib :: "('c, 'b) router_lib" and s s1 :: "('r, 'c, 'b) service_state"
  assumes "pass (chain_of lib en q (Some e)) c s = (Next c1, s1)" "is_inbox e" "rc_GatewayHMACSecret (en_config en) \<noteq> []"
  obtains t bs i where "parse_int64 (Header c headerGatewayTs) = Some t" "withinGatewaySkew (rq_clock q) t"
    "hex_decode (Header c headerGatewaySignature) =
       Some (hmac_sha256 (rc_GatewayHMACSecret (en_config en)) (gateway_canonical c (Header c headerGatewayTs) bs))"
    "IdentityFromCtx c1 = Some i" "rt_parse lib (Header c headerUserID) = Some (Ident_UserID i)"
proof -
  obtain c0 and s0 :: "('r, 'c, 'b) service_state" and ca s2 i where g: "gateway_verified en q c0 s0 = (Next ca, s2)"
    "Header c0 = Header c" "Method c0 = Method c" "RequestURI c0 = RequestURI c"
    "IdentityFromCtx c1 = Some i" "rt_parse lib (Header c headerUserID) = Some (Ident_UserID i)"
    by (rule inbox_identity [OF assms(1,2)])
  obtain r where v: "VerifyGatewaySignature (rc_GatewayHMACSecret (en_config en)) (rc_Redis (en_config en)) (rq_clock q) c0
      (sv_redis s0) = (Next ca, r)" using g(1) by (auto simp: gateway_verified_def split: prod.splits)
  obtain t bs where "parse_int64 (Header c0 headerGatewayTs) = Some t" "withinGatewaySkew (rq_clock q) t"
    "hex_decode (Header c0 headerGatewaySignature) =
       Some (hmac_sha256 (rc_GatewayHMACSecret (en_config en)) (gateway_canonical c0 (Header c0 headerGatewayTs) bs))"
    by (rule gateway_passed [OF v assms(3)])
  moreover have "gateway_canonical c0 ts bs = gateway_canonical c ts bs" for ts bs
    using g by (simp add: gateway_canonical_def gateway_identity_def)
  ultimately show thesis using that g by simp
qed

lemma comms_passed:
  assumes "pass (chain_of lib en q (Some e)) c s = (Next c1, s1)" "is_comms e"
  shows "\<exists>tok. map_of (rc_S2STokenMap (en_config en)) (trim_space (Header c headerServiceID)) = Some tok \<and> tok \<noteq> [] \<and>
    Header c headerServiceToken = tok"
proof -
  obtain c0 s0 where g: "pass (group_chain lib en q e) c0 s0 = (Next c1, s1)" "Header c0 = Header c"
    by (rule group_passed [OF assms(1)])
  then obtain ca where "RequireServiceIdentity (rc_S2STokenMap (en_config en)) c0 = Next ca"
    using assms(2) by (auto simp: group_chain_def stateless_def split: verdict.splits)
  then show ?thesis using g(2) by (auto simp: RequireServiceIdentity_def Let_def split: if_splits option.splits)
qed

lemma served_cases:
  assumes "ServeHTTP lib gin_find en (q, c) s = (out, s')"
  obtains "data_of s' = data_of s"
  | c1 s1 r where "pass (chain_of lib en q (gin_find (en_routes en) c)) c s = (Next c1, s1)" "data_of s1 = data_of s"
    "handler_of lib en q (gin_find (en_routes en) c) c1 s1 = (r, s')"
proof (cases "gin_redirects lib gin_find (en_routes en) c")
  case (Some x)
  then have "s' = s" using assms by (auto simp: ServeHTTP_def Let_def split: prod.splits)
  then show thesis using that(1) by simp
next
  case None
  let ?ms = "chain_of lib en q (gin_find (en_routes en) c)"
  obtain v s1 where p: "pass ?ms c s = (v, s1)" by force
  have d: "data_of s1 = data_of s" by (rule transparent_pass [OF chain_transparent p])
  show thesis
  proof (cases v)
    case (Next c1)
    then show thesis using assms p d that None
      by (auto simp: ServeHTTP_def Let_def run_chain_pass split: prod.splits)
  next
    case (Abort c1 r)
    then show thesis using assms p d that None
      by (auto simp: ServeHTTP_def Let_def run_chain_pass split: prod.splits)
  qed
qed

lemma snd_answer: "snd (case x of (Inl e, t) \<Rightarrow> (f e, t) | (Inr a, t) \<Rightarrow> (g a, t)) = snd x"
  by (simp split: prod.splits sum.splits)

lemma inbox_handlers_read_only:
  assumes "IdentityFromCtx c = Some i"
  shows "snd (List_Handler pg env c t) = t" "snd (UnreadCount_Handler env c t) = t"
    "reads_only (Ident_UserID i) t (snd (MarkAllRead_Handler pg env c t))"
    "reads_only (Ident_UserID i) t (snd (MarkRead_Handler pg env c t))"
proof -
  show "snd (List_Handler pg env c t) = t"
    by (simp add: List_Handler_def Let_def assms snd_answer split: option.splits)
  show "snd (UnreadCount_Handler env c t) = t"
    by (simp add: UnreadCount_Handler_def assms snd_answer)
  show "reads_only (Ident_UserID i) t (snd (MarkAllRead_Handler pg env c t))" using assms
      MarkAllRead_state [of "Ident_UserID i" t pg "ie_fault env" "ie_now env"]
    by (simp add: MarkAllRead_Handler_def snd_answer)
  show "reads_only (Ident_UserID i) t (snd (MarkRead_Handler pg env c t))"
  proof (cases "ie_parse env (Param c ''id'')")
    case (Some n)
    then show ?thesis using assms MarkRead_state [of "Ident_UserID i" t pg "ie_fault env" "ie_now env" n]
      by (simp add: MarkRead_Handler_def snd_answer)
  qed (simp add: MarkRead_Handler_def assms reads_only_refl)
qed

lemma handler_touches:
  assumes "handler_of lib en q found c s = (r, s')"
  shows "(case found of Some e \<Rightarrow> \<not> is_inbox e | None \<Rightarrow> True) \<Longrightarrow> sv_inbox s' = sv_inbox s"
    and "found \<noteq> Some Comms_Send \<or> rc_CommsService (en_config en) = None \<Longrightarrow> sv_comms s' = sv_comms s"
    and "\<exists>ys. sv_waitlist s' = sv_waitlist s @ ys \<and> length ys \<le> 1"
    and "found = Some e \<Longrightarrow> is_inbox e \<Longrightarrow> IdentityFromCtx c = Some i \<Longrightarrow>
      reads_only (Ident_UserID i) (sv_inbox s) (sv_inbox s')"
proof -
  show "sv_inbox s' = sv_inbox s" if "case found of Some e \<Rightarrow> \<not> is_inbox e | None \<Rightarrow> True"
    using assms that by (auto simp: handler_of_def Let_def split: option.splits endpoint.splits prod.splits)
  show "sv_comms s' = sv_comms s" if "found \<noteq> Some Comms_Send \<or> rc_CommsService (en_config en) = None"
    using assms that by (auto simp: handler_of_def on_inbox_def Let_def split: option.splits endpoint.splits prod.splits)
  show "\<exists>ys. sv_waitlist s' = sv_waitlist s @ ys \<and> length ys \<le> 1"
  proof (cases "found = Some Waitlist_Capture")
    case True
    then show ?thesis using assms capture_state [of "rt_capture lib" "rt_pg lib" "rq_capture q" c "sv_waitlist s"]
      by (auto simp: handler_of_def Let_def split: prod.splits)
  next
    case False
    then have "sv_waitlist s' = sv_waitlist s"
      using assms by (auto simp: handler_of_def on_inbox_def Let_def split: option.splits endpoint.splits prod.splits)
    then show ?thesis by simp
  qed
  show "reads_only (Ident_UserID i) (sv_inbox s) (sv_inbox s')"
    if "found = Some e" "is_inbox e" "IdentityFromCtx c = Some i"
  proof -
    note h = inbox_handlers_read_only [OF that(3)]
    show ?thesis using assms that(1,2) h(1) [of _ _ "sv_inbox s"] h(2) [of _ "sv_inbox s"]
        h(3,4) [of "sv_inbox s"] reads_only_refl
      by (auto simp: handler_of_def on_inbox_def Let_def case_prod_unfold)
  qed
qed

text \<open>C1. Every change made over HTTP is authorised. Whatever request comes, on whatever path: the inbox changes
  only if the request carries the gateway's HMAC over its method, path, body and identity tuple, with a
  timestamp inside the window, and then only by marking unread rows of the user named in its identity header
  as read; the messaging state changes only if the module is enabled and the request shows the non-empty token
  registered for its service id; the waitlist at most gains one row.\<close>

theorem every_change_is_authorised:
  assumes "rc_GatewayHMACSecret (en_config en) \<noteq> []" "ServeHTTP lib gin_find en (q, c) s = (out, s')"
  shows "(sv_inbox s' \<noteq> sv_inbox s \<longrightarrow> (\<exists>t bs u. parse_int64 (Header c headerGatewayTs) = Some t \<and>
      withinGatewaySkew (rq_clock q) t \<and>
      hex_decode (Header c headerGatewaySignature) = Some (hmac_sha256 (rc_GatewayHMACSecret (en_config en))
        (gateway_canonical c (Header c headerGatewayTs) bs)) \<and>
      rt_parse lib (Header c headerUserID) = Some u \<and> reads_only u (sv_inbox s) (sv_inbox s'))) \<and>
    (sv_comms s' \<noteq> sv_comms s \<longrightarrow> rc_CommsService (en_config en) \<noteq> None \<and>
      (\<exists>tok. map_of (rc_S2STokenMap (en_config en)) (trim_space (Header c headerServiceID)) = Some tok \<and> tok \<noteq> [] \<and>
        Header c headerServiceToken = tok)) \<and>
    (\<exists>ys. sv_waitlist s' = sv_waitlist s @ ys \<and> length ys \<le> 1)"
proof (rule served_cases [OF assms(2)])
  assume "data_of s' = data_of s"
  then show ?thesis by (simp add: data_of_def)
next
  fix c1 s1 r
  let ?found = "gin_find (en_routes en) c"
  assume p: "pass (chain_of lib en q ?found) c s = (Next c1, s1)" and d: "data_of s1 = data_of s"
    and h: "handler_of lib en q ?found c1 s1 = (r, s')"
  have same: "sv_inbox s1 = sv_inbox s" "sv_comms s1 = sv_comms s" "sv_waitlist s1 = sv_waitlist s"
    using d by (simp_all add: data_of_def)
  note touch = handler_touches [OF h, unfolded same]
  show ?thesis
  proof (intro conjI impI touch(3))
    assume change: "sv_inbox s' \<noteq> sv_inbox s"
    then have "\<not> (case ?found of Some e \<Rightarrow> \<not> is_inbox e | None \<Rightarrow> True)" using touch(1) by blast
    then obtain e where e: "?found = Some e" "is_inbox e" by (cases ?found) simp_all
    from inbox_passed [OF p [unfolded e] e(2) assms(1)] touch(4) [OF e]
    show "\<exists>t bs u. parse_int64 (Header c headerGatewayTs) = Some t \<and> withinGatewaySkew (rq_clock q) t \<and>
      hex_decode (Header c headerGatewaySignature) = Some (hmac_sha256 (rc_GatewayHMACSecret (en_config en))
        (gateway_canonical c (Header c headerGatewayTs) bs)) \<and>
      rt_parse lib (Header c headerUserID) = Some u \<and> reads_only u (sv_inbox s) (sv_inbox s')"
      by metis
  next
    assume "sv_comms s' \<noteq> sv_comms s"
    then have "\<not> (?found \<noteq> Some Comms_Send \<or> rc_CommsService (en_config en) = None)" using touch(2) by blast
    then have "?found = Some Comms_Send" "rc_CommsService (en_config en) \<noteq> None" by simp_all
    then show "rc_CommsService (en_config en) \<noteq> None"
      "\<exists>tok. map_of (rc_S2STokenMap (en_config en)) (trim_space (Header c headerServiceID)) = Some tok \<and> tok \<noteq> [] \<and>
        Header c headerServiceToken = tok"
      using comms_passed [of lib en q Comms_Send c s c1 s1] p by simp_all
  qed
qed

definition sample_engine :: "unit engine" where
  "sample_engine = \<lparr>en_config = \<lparr>rc_WaitlistStore = True, rc_Redis = None, rc_GatewayHMACSecret = ''k'',
       rc_UserRateLimitPerMin = 0, rc_UserRateLimitBurst = 0, rc_GatewayCIDR = [], rc_CommsService = None,
       rc_S2STokenMap = []\<rparr>, en_trusted = [], en_routes = [],
     en_ip = fst (NewIPRateLimiter no_buckets 120 minute),
     en_wl = fst (NewIPRateLimiter no_buckets 120 minute), en_svc = fst (NewIPRateLimiter no_buckets 120 minute)\<rparr>"

definition sample_router_lib :: "(unit, unit) router_lib" where
  "sample_router_lib = \<lparr>rt_pg = plain_pg, rt_limiter = no_buckets, rt_comms = sample_lib, rt_str = dec_uuid,
     rt_parse = undec_uuid, rt_zone = (\<lambda>_. 0), rt_capture = (\<lambda>_. Inl []), rt_decode = (\<lambda>_. Inl []),
     rt_not_found = NoContent, rt_redirect = (\<lambda>_ _. None)\<rparr>"

definition sample_rq :: request_env where
  "sample_rq = \<lparr>rq_clock = 0, rq_fresh_id = ''x'', rq_fault = NoFault, rq_reading = clean_reading,
     rq_capture = \<lparr>ce_id = 0, ce_now = 0, ce_fault = NoFault\<rparr>, rq_send = sample_env 1, rq_ping = None\<rparr>"

definition sample_sv :: "(unit, unit, unit) service_state" where
  "sample_sv = \<lparr>sv_inbox = [sample_row 1 7 None], sv_waitlist = [], sv_comms = sample_state, sv_redis = (),
     sv_ip = snd (NewIPRateLimiter no_buckets 120 minute), sv_wl = snd (NewIPRateLimiter no_buckets 120 minute),
     sv_svc = snd (NewIPRateLimiter no_buckets 120 minute), sv_users = NewUserRateLimiter no_buckets 0 0\<rparr>"

lemmas sample_router = sample_engine_def sample_router_lib_def sample_rq_def sample_sv_def

text \<open>A signed request of user 7, who has one notification, passes the chain of every inbox endpoint.\<close>

lemma sample_reaches:
  assumes "is_inbox e"
  shows "\<exists>c1 s1 i. pass (chain_of sample_router_lib sample_engine sample_rq (Some e)) (sample_ctx ''0'') sample_sv = (Next c1, s1) \<and>
    IdentityFromCtx c1 = Some i \<and> Ident_UserID i = 7 \<and> sv_inbox s1 = [sample_row 1 7 None]"
proof -
  let ?c = "sample_ctx ''0''"
  obtain c0 where c0: "\<And>(ms :: (unit, unit, unit) mw list) s. pass (base_chain sample_rq @ ms) ?c s = pass ms c0 s"
    "Header c0 = Header ?c" "Method c0 = Method ?c" "RequestURI c0 = RequestURI ?c" "ReqBody c0 = ReqBody ?c"
    using base_passes [of sample_rq ?c] by blast
  have body: "buffer_body c0 = Buffered [] c0"
    using c0(5) by (simp add: buffer_body_def sample_ctx_def sign_ctx_def Let_def plain_ctx_def)
  have skew: "withinGatewaySkew 0 0" by (simp add: gateway_skew_iff sample_ts)
  have "gateway_canonical c0 ts [] = gateway_canonical ?c ts []" for ts
    using c0 by (simp add: gateway_canonical_def gateway_identity_def)
  then have v: "VerifyGatewaySignature ''k'' None 0 c0 () = (Next c0, ())"
    using gateway_accepts(1) [of "''k''" c0 0 0 "[]" c0 "()"] c0 body skew sample_ts(1)
    by (simp add: sample_ctx_parts)
  have h: "Header c0 headerUserID = ''7''" "Header c0 headerKYCTier = []"
    unfolding c0(2) by (simp_all add: sample_ctx_parts)
      (simp add: sample_ctx_def sign_ctx_def Let_def sample_headers_def plain_ctx_def gateway_headers identity_headers headerRequestID_def)
  have seven: "undec_uuid ''7'' = Some 7" by (simp add: undec_uuid_def undec_def digit_val_def)
  obtain c1 where i: "RequireValidIdentity undec_uuid c0 = Next c1" "Keys c1 ctxKeyKYCTier = Some (V_Int 0)"
    and k: "Keys c1 ctxKeyUserID = Some (V_UUID 7)"
    using h seven by (simp add: RequireValidIdentity_def Let_def identity_keys)
  obtain s1 where s1: "ip_limited sample_router_lib sample_engine sample_rq c0 sample_sv = (Next c0, s1)"
    "sv_inbox s1 = [sample_row 1 7 None]"
    by (simp add: ip_limited_def limited_def RateLimiter_Handler_def allow_def no_buckets_def sample_router)
  have g: "gateway_verified sample_engine sample_rq c0 s1 = (Next c0, s1)"
    using v by (simp add: gateway_verified_def sample_engine_def sample_rq_def)
  have lib: "rt_parse sample_router_lib = undec_uuid" "rc_UserRateLimitPerMin (en_config sample_engine) = 0"
    by (simp_all add: sample_router_lib_def sample_engine_def)
  have tier: "stateless (RequireTier 0) c1 s1 = (Next c1, s1)"
    and ident: "stateless (RequireValidIdentity undec_uuid) c0 s1 = (Next c1, s1)"
    using i by (simp_all add: stateless_def RequireTier_def)
  have "pass (chain_of sample_router_lib sample_engine sample_rq (Some e)) ?c sample_sv = (Next c1, s1)"
    using s1(1) g ident tier assms by (auto simp: chain_of_def c0(1) group_chain_def lib)
  moreover obtain i7 where "IdentityFromCtx c1 = Some i7" "Ident_UserID i7 = 7" using k by (simp add: IdentityFromCtx_def)
  ultimately show ?thesis using s1(2) by blast
qed

text \<open>User 7 marks its one notification as read.\<close>

lemma every_change_is_authorised_witness:
  "\<exists>out s'. ServeHTTP sample_router_lib (\<lambda>_ _. Some Inbox_ReadAll) sample_engine (sample_rq, sample_ctx ''0'') sample_sv =
     (out, s') \<and> sv_inbox s' = [(sample_row 1 7 None)\<lparr>ReadAt := Some 0\<rparr>] \<and> reads_only 7 (sv_inbox sample_sv) (sv_inbox s')"
proof -
  let ?c = "sample_ctx ''0''"
  obtain c1 s1 i where p: "pass (chain_of sample_router_lib sample_engine sample_rq (Some Inbox_ReadAll)) ?c sample_sv = (Next c1, s1)"
    "IdentityFromCtx c1 = Some i" "Ident_UserID i = 7" "sv_inbox s1 = [sample_row 1 7 None]"
    using sample_reaches [of Inbox_ReadAll] by auto
  have "MarkAllRead plain_pg NoFault 0 7 [sample_row 1 7 None] = (Inr (), [(sample_row 1 7 None)\<lparr>ReadAt := Some 0\<rparr>])"
    by (simp add: MarkAllRead_def update_where_def unread_def plain_pg_def sample_row_def)
  then have "MarkAllRead_Handler plain_pg (inbox_env_of sample_router_lib sample_rq) c1 [sample_row 1 7 None] =
      (NoContent, [(sample_row 1 7 None)\<lparr>ReadAt := Some 0\<rparr>])"
    using p by (simp add: MarkAllRead_Handler_def inbox_env_of_def sample_rq_def)
  then have "handler_of sample_router_lib sample_engine sample_rq (Some Inbox_ReadAll) c1 s1 =
      (Some NoContent, s1\<lparr>sv_inbox := [(sample_row 1 7 None)\<lparr>ReadAt := Some 0\<rparr>]\<rparr>)"
    by (simp add: handler_of_def on_inbox_def Let_def p(4)) (simp add: sample_router_lib_def)
  then obtain out s' where s': "ServeHTTP sample_router_lib (\<lambda>_ _. Some Inbox_ReadAll) sample_engine (sample_rq, ?c) sample_sv =
      (out, s')" "sv_inbox s' = [(sample_row 1 7 None)\<lparr>ReadAt := Some 0\<rparr>]"
    using p(1) by (simp add: ServeHTTP_def Let_def run_chain_pass)
  have "sv_inbox s' \<noteq> sv_inbox sample_sv" by (simp add: s'(2) sample_sv_def sample_row_def)
  moreover have "rc_GatewayHMACSecret (en_config sample_engine) \<noteq> []" by (simp add: sample_engine_def)
  ultimately obtain u where "rt_parse sample_router_lib (Header ?c headerUserID) = Some u"
    "reads_only u (sv_inbox sample_sv) (sv_inbox s')"
    using every_change_is_authorised [OF _ s'(1)] by blast
  moreover from this have "u = 7"
    by (simp add: sample_ctx_parts sample_router_lib_def undec_uuid_def undec_def digit_val_def)
  ultimately show ?thesis using s' by blast
qed

subsection \<open>Every response is hardened\<close>

fun ctx_of :: "verdict \<Rightarrow> ctx" where
  "ctx_of (Next c) = c"
| "ctx_of (Abort c r) = c"

definition keeps_headers :: "('r, 'c, 'b) mw \<Rightarrow> bool" where
  "keeps_headers m \<longleftrightarrow> (\<forall>c s v s'. m c s = (v, s') \<longrightarrow> set (OutHeaders c) \<subseteq> set (OutHeaders (ctx_of v)))"

lemma pass_keeps_headers:
  "list_all keeps_headers ms \<Longrightarrow> pass ms c s = (v, s') \<Longrightarrow> set (OutHeaders c) \<subseteq> set (OutHeaders (ctx_of v))"
proof (induction ms arbitrary: c s)
  case (Cons m ms)
  obtain w s1 where m: "m c s = (w, s1)" by force
  then have k: "set (OutHeaders c) \<subseteq> set (OutHeaders (ctx_of w))" using Cons.prems(1)
    unfolding keeps_headers_def list_all_iff by (meson list.set_intros(1))
  show ?case
  proof (cases w)
    case (Next c1)
    then show ?thesis using Cons m k by fastforce
  next
    case (Abort c1 r)
    then show ?thesis using Cons.prems(2) m k by simp
  qed
qed auto

lemma out_headers_set [simp]: "OutHeaders (c_Set k v c) = OutHeaders c"
  "OutHeaders (c_Header h w c) = OutHeaders c @ [(h, w)]"
  by (simp_all add: c_Set_def c_Header_def)

lemma middlewares_keep_headers [frame_rules]:
  "keeps_headers (limited get put lib rd rl q)" "keeps_headers (user_limited lib q)"
  "keeps_headers (gateway_verified en q)" "keeps_headers (stateless (RequireValidIdentity p))"
  "keeps_headers (stateless (RequireTier n))" "keeps_headers (stateless (RequireServiceIdentity tm))"
proof -
  show "keeps_headers (limited get put lib rd rl q)"
    by (auto simp: keeps_headers_def limited_def RateLimiter_Handler_def Let_def
        split: prod.splits option.splits sum.splits if_splits)
  show "keeps_headers (user_limited lib q)"
    by (auto simp: keeps_headers_def user_limited_def UserRateLimiter_Handler_def split: prod.splits option.splits if_splits)
  show "keeps_headers (gateway_verified en q)"
    by (auto simp: keeps_headers_def gateway_verified_def VerifyGatewaySignature_def abortUnauthorized_def buffer_body_def Let_def
        split: prod.splits option.splits sum.splits if_splits buffered.splits body.splits)
  show "keeps_headers (stateless (RequireValidIdentity p))"
    by (auto simp: keeps_headers_def stateless_def RequireValidIdentity_def Let_def split: option.splits if_splits)
  show "keeps_headers (stateless (RequireTier n))"
    by (auto simp: keeps_headers_def stateless_def RequireTier_def split: option.splits key_value.splits if_splits)
  show "keeps_headers (stateless (RequireServiceIdentity tm))"
    by (auto simp: keeps_headers_def stateless_def RequireServiceIdentity_def Let_def split: option.splits if_splits)
qed

text \<open>C39. Every response the program gives, whatever the route and whether a middleware refuses, the handler
  answers, or it panics, carries the five security headers and a request id of at most 64 harmless characters:
  the client's own if it is one, a fresh one otherwise. The one answer without them is not the program's: where
  the path has no route but its twin with or without a trailing slash has one, \<open>gin\<close> redirects (\<open>gin.New()\<close> leaves
  that on) before any middleware, so that no limit, no header, no id and no log line apply, and nothing changes.\<close>

theorem every_response_hardened:
  "case gin_redirects lib gin_find (en_routes en) c of
     Some (hs, r) \<Rightarrow> ServeHTTP lib gin_find en (q, c) s = ((hs, r, None), s)
   | None \<Rightarrow> set [(''X-Content-Type-Options'', ''nosniff''), (''X-Frame-Options'', ''DENY''), (''Referrer-Policy'', ''no-referrer''),
        (''Strict-Transport-Security'', ''max-age=63072000; includeSubDomains; preload''),
        (''Content-Security-Policy'', ''default-src '' @ [CHR 0x27] @ ''none'' @ [CHR 0x27]),
        (''X-Request-ID'', if requestIDPattern (Header c ''X-Request-ID'') then Header c ''X-Request-ID'' else rq_fresh_id q)]
     \<subseteq> set (fst (fst (ServeHTTP lib gin_find en (q, c) s)))"
proof (cases "gin_redirects lib gin_find (en_routes en) c")
  case (Some x)
  then show ?thesis by (cases x) (simp add: ServeHTTP_def Let_def)
next
  case None
  let ?found = "gin_find (en_routes en) c"
  define rest where "rest = (case ?found of None \<Rightarrow> [ip_limited lib en q]
      | Some e \<Rightarrow> (if e = Healthz \<or> e = Readyz then [] else [ip_limited lib en q]) @ group_chain lib en q e)"
  have rest: "chain_of lib en q ?found = base_chain q @ rest" by (simp add: chain_of_def rest_def)
  have keep: "list_all keeps_headers rest"
    by (simp add: rest_def group_chain_def ip_limited_def wl_limited_def svc_limited_def frame_rules
        split: option.splits)
  define c1 where "c1 = (case RequestID (rq_fresh_id q) c of Next x \<Rightarrow> x | Abort x r \<Rightarrow> x)"
  define c2 where "c2 = (case SecurityHeaders c1 of Next x \<Rightarrow> x | Abort x r \<Rightarrow> x)"
  have pass: "pass (base_chain q @ rest) c s = pass rest c2 s"
    by (simp add: base_chain_def stateless_def c2_def c1_def RequestID_def SecurityHeaders_def Let_def)
  obtain v s1 where v: "pass rest c2 s = (v, s1)" by force
  have "fst (fst (ServeHTTP lib gin_find en (q, c) s)) = OutHeaders (ctx_of v)"
    using v None by (cases v) (simp_all add: ServeHTTP_def Let_def rest run_chain_pass pass split: prod.splits)
  moreover have "set (OutHeaders c2) \<subseteq> set (OutHeaders (ctx_of v))" by (rule pass_keeps_headers [OF keep v])
  moreover have "Header c ''X-Request-ID'' \<noteq> []" if "requestIDPattern (Header c ''X-Request-ID'')"
    using that by (auto simp: requestIDPattern_def)
  ultimately show ?thesis using None
    by (auto simp: c2_def c1_def SecurityHeaders_def RequestID_def headerRequestID_def Let_def)
qed

end
