(* ===== verification/Event_Mapper.thy ===== *)
theory Event_Mapper
  imports Signatures Notification_Store
begin

text \<open>
  The events the service consumes and what becomes of each (\<open>internal/domain/event.go\<close>,
  \<open>internal/domain/mapper.go\<close>): the payload types, the signature check of
  \<open>kyc.status_changed\<close> and the mapping of a payload to a notification.

  \<open>encoding/json\<close> is the record \<open>json\<close>: \<open>json.Valid\<close> and one decoder per target type, an error
  text on the left. \<open>uuid.New()\<close> and \<open>time.Now()\<close> are arguments of the mappers.
\<close>

subsection \<open>Envelopes and payloads\<close>

record EventEnvelope =
  EventID :: uuid
  OccurredAt :: instant
  Version :: int
  EventData :: string

record SignedEventEnvelope = EventEnvelope +
  Signature :: string

record KYCTierChangedData =
  Tier_UserID :: uuid
  Tier_OldTier :: int
  Tier_NewTier :: int

record UserSuspendedData =
  Suspended_UserID :: uuid
  Suspended_Reason :: string

record BidReceivedData =
  BidReceived_UserID :: uuid
  BidReceived_BidID :: uuid
  BidReceived_ListingID :: uuid

record BidAcceptedData =
  BidAccepted_UserID :: uuid
  BidAccepted_BidID :: uuid
  BidAccepted_ListingID :: uuid

record MilestoneReachedData =
  Milestone_UserID :: uuid
  Milestone_ContractID :: uuid
  Milestone_MilestoneID :: uuid

record ContractSignedData =
  Contract_UserID :: uuid
  Contract_ContractID :: uuid

record KYCStatusChangedData =
  Status_UserID :: uuid
  Status_OldStatus :: string
  Status_NewStatus :: string
  Status_OldTier :: int
  Status_NewTier :: int
  Status_SubmissionID :: uuid
  Status_RequestID :: string

record json =
  json_Valid :: "string \<Rightarrow> bool"
  unmarshal_envelope :: "string \<Rightarrow> string + EventEnvelope"
  unmarshal_signed :: "string \<Rightarrow> string + SignedEventEnvelope"
  unmarshal_tier :: "string \<Rightarrow> string + KYCTierChangedData"
  unmarshal_suspended :: "string \<Rightarrow> string + UserSuspendedData"
  unmarshal_bid_received :: "string \<Rightarrow> string + BidReceivedData"
  unmarshal_bid_accepted :: "string \<Rightarrow> string + BidAcceptedData"
  unmarshal_milestone :: "string \<Rightarrow> string + MilestoneReachedData"
  unmarshal_contract :: "string \<Rightarrow> string + ContractSignedData"
  unmarshal_status :: "string \<Rightarrow> string + KYCStatusChangedData"

text \<open>The embedded \<open>EventEnvelope\<close> of a signed envelope.\<close>

definition envelope_of :: "SignedEventEnvelope \<Rightarrow> EventEnvelope" where
  "envelope_of env = \<lparr>EventID = EventID env, OccurredAt = OccurredAt env, Version = Version env,
     EventData = EventData env\<rparr>"

subsection \<open>The signature of \<open>kyc.status_changed\<close>\<close>

definition status_canonical ::
  "(uuid \<Rightarrow> string) \<Rightarrow> SignedEventEnvelope \<Rightarrow> KYCStatusChangedData \<Rightarrow> string" where
  "status_canonical str env d = join ''|''
     [str (EventID env), format_rfc3339nano (OccurredAt env), itoa (Version env),
      str (Status_UserID d), Status_NewStatus d, itoa (Status_NewTier d)]"

definition VerifyStatusChangedSignature ::
  "(uuid \<Rightarrow> string) \<Rightarrow> SignedEventEnvelope \<Rightarrow> KYCStatusChangedData \<Rightarrow> string \<Rightarrow> bool" where
  "VerifyStatusChangedSignature str env d secret =
     (if secret = [] then False
      else if Signature env = [] then False
      else hmac_hex secret (status_canonical str env d) = Signature env)"

subsection \<open>From events to notifications\<close>

definition MapKYCStatusChanged ::
  "uuid \<Rightarrow> instant \<Rightarrow> EventEnvelope \<Rightarrow> KYCStatusChangedData \<Rightarrow> string + notification" where
  "MapKYCStatusChanged new_id now env d =
     (if Status_UserID d = uuid_nil then Inl ''kyc.status_changed: missing userId''
      else if EventID env = uuid_nil then Inl ''kyc.status_changed: missing eventId''
      else let (title, body) =
             (if Status_NewStatus d = ''APPROVED'' then
                (''KYC Approved'',
                 ''Your identity has been verified. You are now KYC tier '' @ itoa (Status_NewTier d) @ ''.'')
              else if Status_NewStatus d = ''REJECTED'' then
                (''KYC Not Approved'',
                 ''Your KYC submission was not approved. Please review the requirements and resubmit.'')
              else
                (''KYC Status Updated'',
                 ''Your KYC status has changed to '' @ Status_NewStatus d @ ''.''))
           in Inr \<lparr>ID = new_id, UserID = Status_UserID d, Type = NotificationTypeKYCStatusChanged,
                Title = title, Body = body, Data = None, SourceEventID = Some (EventID env),
                ReadAt = None, CreatedAt = now\<rparr>)"

definition mapKYCTierChanged :: "json \<Rightarrow> uuid \<Rightarrow> instant \<Rightarrow> EventEnvelope \<Rightarrow> string + notification" where
  "mapKYCTierChanged js new_id now env =
     (case unmarshal_tier js (EventData env) of
        Inl e \<Rightarrow> Inl (''unmarshal kyc.tier_changed data: '' @ e)
      | Inr d \<Rightarrow>
          if Tier_UserID d = uuid_nil then Inl ''kyc.tier_changed: missing userId''
          else if EventID env = uuid_nil then Inl ''kyc.tier_changed: missing eventId''
          else Inr \<lparr>ID = new_id, UserID = Tier_UserID d, Type = NotificationTypeKYCTierChanged,
            Title = ''KYC Level Updated'',
            Body = ''Your KYC level has been updated from '' @ itoa (Tier_OldTier d) @ '' to '' @ itoa (Tier_NewTier d) @ ''.'',
            Data = Some (EventData env), SourceEventID = Some (EventID env), ReadAt = None, CreatedAt = now\<rparr>)"

definition mapUserSuspended :: "json \<Rightarrow> uuid \<Rightarrow> instant \<Rightarrow> EventEnvelope \<Rightarrow> string + notification" where
  "mapUserSuspended js new_id now env =
     (case unmarshal_suspended js (EventData env) of
        Inl e \<Rightarrow> Inl (''unmarshal user.suspended data: '' @ e)
      | Inr d \<Rightarrow>
          if Suspended_UserID d = uuid_nil then Inl ''user.suspended: missing userId''
          else if EventID env = uuid_nil then Inl ''user.suspended: missing eventId''
          else Inr \<lparr>ID = new_id, UserID = Suspended_UserID d, Type = NotificationTypeAccountSuspended,
            Title = ''Account Suspended'',
            Body = ''Your account has been suspended. Please contact support.'',
            Data = Some (EventData env), SourceEventID = Some (EventID env), ReadAt = None, CreatedAt = now\<rparr>)"

definition mapBidReceived :: "json \<Rightarrow> uuid \<Rightarrow> instant \<Rightarrow> EventEnvelope \<Rightarrow> string + notification" where
  "mapBidReceived js new_id now env =
     (case unmarshal_bid_received js (EventData env) of
        Inl e \<Rightarrow> Inl (''unmarshal marketplace.bid_received data: '' @ e)
      | Inr d \<Rightarrow>
          if BidReceived_UserID d = uuid_nil then Inl ''marketplace.bid_received: missing userId''
          else if EventID env = uuid_nil then Inl ''marketplace.bid_received: missing eventId''
          else Inr \<lparr>ID = new_id, UserID = BidReceived_UserID d, Type = NotificationTypeBidReceived,
            Title = ''New Bid Received'',
            Body = ''You have received a new bid on your listing.'',
            Data = Some (EventData env), SourceEventID = Some (EventID env), ReadAt = None, CreatedAt = now\<rparr>)"

definition mapBidAccepted :: "json \<Rightarrow> uuid \<Rightarrow> instant \<Rightarrow> EventEnvelope \<Rightarrow> string + notification" where
  "mapBidAccepted js new_id now env =
     (case unmarshal_bid_accepted js (EventData env) of
        Inl e \<Rightarrow> Inl (''unmarshal marketplace.bid_accepted data: '' @ e)
      | Inr d \<Rightarrow>
          if BidAccepted_UserID d = uuid_nil then Inl ''marketplace.bid_accepted: missing userId''
          else if EventID env = uuid_nil then Inl ''marketplace.bid_accepted: missing eventId''
          else Inr \<lparr>ID = new_id, UserID = BidAccepted_UserID d, Type = NotificationTypeBidAccepted,
            Title = ''Bid Accepted'',
            Body = ''Your bid has been accepted.'',
            Data = Some (EventData env), SourceEventID = Some (EventID env), ReadAt = None, CreatedAt = now\<rparr>)"

definition mapMilestoneReached :: "json \<Rightarrow> uuid \<Rightarrow> instant \<Rightarrow> EventEnvelope \<Rightarrow> string + notification" where
  "mapMilestoneReached js new_id now env =
     (case unmarshal_milestone js (EventData env) of
        Inl e \<Rightarrow> Inl (''unmarshal workspace.milestone_reached data: '' @ e)
      | Inr d \<Rightarrow>
          if Milestone_UserID d = uuid_nil then Inl ''workspace.milestone_reached: missing userId''
          else if EventID env = uuid_nil then Inl ''workspace.milestone_reached: missing eventId''
          else Inr \<lparr>ID = new_id, UserID = Milestone_UserID d, Type = NotificationTypeMilestoneReached,
            Title = ''Milestone Reached'',
            Body = ''A milestone in your contract has been reached.'',
            Data = Some (EventData env), SourceEventID = Some (EventID env), ReadAt = None, CreatedAt = now\<rparr>)"

definition mapContractSigned :: "json \<Rightarrow> uuid \<Rightarrow> instant \<Rightarrow> EventEnvelope \<Rightarrow> string + notification" where
  "mapContractSigned js new_id now env =
     (case unmarshal_contract js (EventData env) of
        Inl e \<Rightarrow> Inl (''unmarshal workspace.contract_signed data: '' @ e)
      | Inr d \<Rightarrow>
          if Contract_UserID d = uuid_nil then Inl ''workspace.contract_signed: missing userId''
          else if EventID env = uuid_nil then Inl ''workspace.contract_signed: missing eventId''
          else Inr \<lparr>ID = new_id, UserID = Contract_UserID d, Type = NotificationTypeContractSigned,
            Title = ''Contract Signed'',
            Body = ''Your contract has been signed.'',
            Data = Some (EventData env), SourceEventID = Some (EventID env), ReadAt = None, CreatedAt = now\<rparr>)"

definition MapEventToNotification ::
  "json \<Rightarrow> uuid \<Rightarrow> instant \<Rightarrow> string \<Rightarrow> EventEnvelope \<Rightarrow> string + notification" where
  "MapEventToNotification js new_id now channel env =
     (if \<not> json_Valid js (EventData env) then Inl (channel @ '': data field is not valid JSON'')
      else if channel = ''kyc.tier_changed'' then mapKYCTierChanged js new_id now env
      else if channel = ''user.suspended'' then mapUserSuspended js new_id now env
      else if channel = ''marketplace.bid_received'' then mapBidReceived js new_id now env
      else if channel = ''marketplace.bid_accepted'' then mapBidAccepted js new_id now env
      else if channel = ''workspace.milestone_reached'' then mapMilestoneReached js new_id now env
      else if channel = ''workspace.contract_signed'' then mapContractSigned js new_id now env
      else Inl (''unknown channel: '' @ channel))"

lemmas mapper_defs = mapKYCTierChanged_def mapUserSuspended_def mapBidReceived_def mapBidAccepted_def
  mapMilestoneReached_def mapContractSigned_def

subsection \<open>What the mappers produce\<close>

text \<open>The type of notification each channel of the general path leads to.\<close>

definition channel_type :: "string \<Rightarrow> string option" where
  "channel_type ch = map_of
     [(''kyc.tier_changed'', ''KYC_TIER_CHANGED''), (''user.suspended'', ''ACCOUNT_SUSPENDED''),
      (''marketplace.bid_received'', ''BID_RECEIVED''), (''marketplace.bid_accepted'', ''BID_ACCEPTED''),
      (''workspace.milestone_reached'', ''MILESTONE_REACHED''),
      (''workspace.contract_signed'', ''CONTRACT_SIGNED'')] ch"

definition mapped_ok :: "uuid \<Rightarrow> instant \<Rightarrow> string \<Rightarrow> EventEnvelope \<Rightarrow> notification \<Rightarrow> bool" where
  "mapped_ok new_id now t env n \<longleftrightarrow> ID n = new_id \<and> CreatedAt n = now \<and> ReadAt n = None \<and> Type n = t \<and>
     notifications_type_check t \<and> UserID n \<noteq> uuid_nil \<and> EventID env \<noteq> uuid_nil \<and>
     SourceEventID n = Some (EventID env)"

lemma map_event_ok:
  assumes "MapEventToNotification js new_id now ch env = Inr n"
  obtains t where "channel_type ch = Some t" "t \<noteq> ''KYC_STATUS_CHANGED''" "mapped_ok new_id now t env n"
    "Data n = Some (EventData env)" "json_Valid js (EventData env)"
proof -
  note d = assms [unfolded MapEventToNotification_def]
  have v: "json_Valid js (EventData env)" using d by (simp split: if_splits)
  consider "ch = ''kyc.tier_changed''" "mapKYCTierChanged js new_id now env = Inr n"
    | "ch = ''user.suspended''" "mapUserSuspended js new_id now env = Inr n"
    | "ch = ''marketplace.bid_received''" "mapBidReceived js new_id now env = Inr n"
    | "ch = ''marketplace.bid_accepted''" "mapBidAccepted js new_id now env = Inr n"
    | "ch = ''workspace.milestone_reached''" "mapMilestoneReached js new_id now env = Inr n"
    | "ch = ''workspace.contract_signed''" "mapContractSigned js new_id now env = Inr n"
    using d by (simp only: v simp_thms if_False) (metis Inl_Inr_False)
  then show thesis
    by cases (rule that [OF _ _ _ _ v];
      simp add: channel_type_def mapped_ok_def mapper_defs notification_type_defs
        notifications_type_check_def split: sum.splits if_splits; fastforce)+
qed

lemma map_status_ok:
  assumes "MapKYCStatusChanged new_id now env d = Inr n"
  shows "mapped_ok new_id now ''KYC_STATUS_CHANGED'' env n \<and> UserID n = Status_UserID d \<and> Data n = None"
  using assms
  by (auto simp: MapKYCStatusChanged_def mapped_ok_def notification_type_defs
      notifications_type_check_def split: if_splits)

subsection \<open>What a signature binds\<close>

definition status_join :: "string \<times> string \<times> string \<times> string \<times> string \<times> string \<Rightarrow> string" where
  "status_join = (\<lambda>(a, b, c, d, e, f). join ''|'' [a, b, c, d, e, f])"

definition status_wf :: "string \<times> string \<times> string \<times> string \<times> string \<times> string \<Rightarrow> bool" where
  "status_wf = (\<lambda>(a, b, c, d, e, f). \<forall>x \<in> {a, b, c, d, f}. CHR ''|'' \<notin> set x)"

definition status_fields ::
  "(uuid \<Rightarrow> string) \<Rightarrow> SignedEventEnvelope \<Rightarrow> KYCStatusChangedData \<Rightarrow>
   string \<times> string \<times> string \<times> string \<times> string \<times> string" where
  "status_fields str env d =
     (str (EventID env), format_rfc3339nano (OccurredAt env), itoa (Version env),
      str (Status_UserID d), Status_NewStatus d, itoa (Status_NewTier d))"

lemma status_canonical_fields: "status_canonical str env d = status_join (status_fields str env d)"
  by (simp add: status_canonical_def status_join_def status_fields_def)

lemma status_fields_wf: "uuid_codec str parse \<Longrightarrow> status_wf (status_fields str env d)"
  by (simp add: status_wf_def status_fields_def no_bar)

interpretation status: signed_message status_join status_wf
proof
  fix m n assume wf: "status_wf m" "status_wf n" and eq: "status_join m = status_join n"
  obtain a b c d e f where m: "m = (a, b, c, d, e, f)" by (cases m)
  obtain a' b' c' d' e' f' where n: "n = (a', b', c', d', e', f')" by (cases n)
  have "join ''|'' ([a, b, c, d] @ e # [f]) = join ''|'' ([a', b', c', d'] @ e' # [f'])"
    using eq by (simp add: m n status_join_def)
  from free_field_eq [OF _ _ _ this] show "m = n"
    using wf by (auto simp: m n status_wf_def)
qed

lemma verify_status_iff:
  "VerifyStatusChangedSignature str env d secret \<longleftrightarrow>
     secret \<noteq> [] \<and> Signature env = hmac_hex secret (status_join (status_fields str env d))"
  by (auto simp: VerifyStatusChangedSignature_def status_canonical_fields)

text \<open>What the publisher sends, by the contract in the comment of the check.\<close>

definition sign_status ::
  "(uuid \<Rightarrow> string) \<Rightarrow> string \<Rightarrow> SignedEventEnvelope \<Rightarrow> KYCStatusChangedData \<Rightarrow> SignedEventEnvelope" where
  "sign_status str secret env d = env\<lparr>Signature := hmac_hex secret (status_canonical str env d)\<rparr>"

lemma verify_sign_status:
  "secret \<noteq> [] \<Longrightarrow> VerifyStatusChangedSignature str (sign_status str secret env d) d secret"
  by (simp add: VerifyStatusChangedSignature_def sign_status_def status_canonical_def)

text \<open>C27. A signature the consumer accepts is worth exactly one event: if two \<open>kyc.status_changed\<close>
  envelopes that pass the check carry the same signature, they agree on the event id, the time,
  the version, the user, the new status (whatever text it is) and the new tier, unless somebody
  found a collision of HMAC-SHA256.\<close>

theorem status_signature_binds:
  assumes "uuid_codec str parse"
    and "VerifyStatusChangedSignature str env d secret"
    and "VerifyStatusChangedSignature str env' d' secret"
    and "Signature env = Signature env'"
  shows "(EventID env, OccurredAt env, Version env, Status_UserID d, Status_NewStatus d, Status_NewTier d) =
      (EventID env', OccurredAt env', Version env', Status_UserID d', Status_NewStatus d', Status_NewTier d') \<or>
    hmac_collision secret (status_canonical str env d) (status_canonical str env' d')"
proof -
  have "status_fields str env d = status_fields str env' d' \<or>
      hmac_collision secret (status_canonical str env d) (status_canonical str env' d')"
    using assms status.same_signature [OF status_fields_wf [OF assms(1)] status_fields_wf [OF assms(1)]]
    by (simp add: verify_status_iff status_canonical_fields)
  then show ?thesis
    by (auto simp: status_fields_def format_inj itoa_inj uuid_codec_inj [OF assms(1)])
qed

definition sample_status :: "string \<Rightarrow> KYCStatusChangedData" where
  "sample_status old = \<lparr>Status_UserID = 1, Status_OldStatus = old, Status_NewStatus = ''A|1'',
     Status_OldTier = 0, Status_NewTier = 2, Status_SubmissionID = 3, Status_RequestID = ''r''\<rparr>"

definition sample_signed :: SignedEventEnvelope where
  "sample_signed = \<lparr>EventID = 5, OccurredAt = 0, Version = 1, EventData = ''{}'', Signature = []\<rparr>"

lemma status_signature_binds_witness:
  "let env = sign_status dec_uuid ''k'' sample_signed (sample_status ''PENDING'') in
   VerifyStatusChangedSignature dec_uuid env (sample_status ''PENDING'') ''k'' \<and>
   VerifyStatusChangedSignature dec_uuid env (sample_status ''DRAFT'') ''k'' \<and>
   (Status_NewStatus (sample_status ''PENDING'') = Status_NewStatus (sample_status ''DRAFT'') \<or>
    hmac_collision ''k'' (status_canonical dec_uuid env (sample_status ''PENDING''))
      (status_canonical dec_uuid env (sample_status ''DRAFT'')))"
proof -
  let ?e = "sign_status dec_uuid ''k'' sample_signed (sample_status ''PENDING'')"
  have v: "VerifyStatusChangedSignature dec_uuid ?e (sample_status ''PENDING'') ''k''"
    by (rule verify_sign_status) simp
  then have w: "VerifyStatusChangedSignature dec_uuid ?e (sample_status ''DRAFT'') ''k''"
    by (simp add: VerifyStatusChangedSignature_def status_canonical_def sign_status_def sample_status_def)
  show ?thesis using status_signature_binds [OF dec_uuid_codec v w refl] v w
    unfolding Let_def by auto
qed

end
