(* ===== verification/Consumer.thy ===== *)
theory Consumer
  imports Event_Mapper
begin

text \<open>
  The consumer of Redis events (\<open>internal/events/consumer.go\<close>), and the traffic on the inbox
  table: deliveries from Redis interleaved with the operations the inbox API sends to the store. The
  whole service, with HTTP requests through the router, the send API and retention, is in \<open>Service\<close>,
  and the scheduled deletions beside it in \<open>Housekeeping\<close>.

  A delivery is a message with what the environment contributes while it is handled: the result
  of \<open>uuid.New()\<close>, the clock, the fate of the statement sent to the database, and whatever the
  comms handler needs (type \<open>'i\<close>). The comms module's handler is an argument, as it is in the
  code (\<open>CommsEventHandler\<close>); its state is \<open>'c\<close>.

  The result of handling is the log line the code ends with, an \<open>outcome\<close>, and the new state.
  \<open>Run\<close> is a function of the sequence of events its \<open>select\<close> sees.
\<close>

definition inboxChannels :: "string list" where
  "inboxChannels =
     [''kyc.tier_changed'', ''kyc.status_changed'', ''user.suspended'', ''marketplace.bid_received'',
      ''marketplace.bid_accepted'', ''workspace.milestone_reached'', ''workspace.contract_signed'']"

definition commsSendRequestedChannel :: string where
  "commsSendRequestedChannel = ''comms.send_requested''"

definition maxPayloadBytes :: nat where
  "maxPayloadBytes = 64 * 1024"

record message =
  Channel :: string
  Payload :: string

record input =
  new_id :: uuid
  now :: instant
  db_fault :: fault

record ('i, 'c) consumer =
  has_redis :: bool
  commsHandler :: "('i \<Rightarrow> string \<Rightarrow> 'c \<Rightarrow> 'c) option"
  kycHMACSecret :: string

text \<open>The constructors, without a handler for the messaging channel and with one.\<close>

definition NewConsumer :: "bool \<Rightarrow> string \<Rightarrow> ('i, 'c) consumer" where
  "NewConsumer rdb secret = \<lparr>has_redis = rdb, commsHandler = None, kycHMACSecret = secret\<rparr>"

definition NewConsumerWithComms :: "bool \<Rightarrow> ('i \<Rightarrow> string \<Rightarrow> 'c \<Rightarrow> 'c) \<Rightarrow> string \<Rightarrow> ('i, 'c) consumer" where
  "NewConsumerWithComms rdb h secret = \<lparr>has_redis = rdb, commsHandler = Some h, kycHMACSecret = secret\<rparr>"

lemmas new_consumer_defs = NewConsumer_def NewConsumerWithComms_def

definition channels :: "('i, 'c) consumer \<Rightarrow> string list" where
  "channels c = (case commsHandler c of None \<Rightarrow> inboxChannels
     | Some h \<Rightarrow> inboxChannels @ [commsSendRequestedChannel])"

datatype outcome =
    Oversized | Routed | Ignored | Malformed string | Malformed_Data string | Signature_Failed
  | Mapping_Failed string | Insert_Failed store_error | Created

definition store_notification ::
  "pg \<Rightarrow> input \<Rightarrow> notification \<Rightarrow> inbox \<Rightarrow> outcome \<times> inbox" where
  "store_notification pg i n s =
     (case Insert pg (db_fault i) n s of
        (Inl e, s') \<Rightarrow> (Insert_Failed e, s')
      | (Inr u, s') \<Rightarrow> (Created, s'))"

definition handleKYCStatusChanged ::
  "pg \<Rightarrow> json \<Rightarrow> (uuid \<Rightarrow> string) \<Rightarrow> string \<Rightarrow> message \<Rightarrow> input \<Rightarrow> inbox \<Rightarrow> outcome \<times> inbox" where
  "handleKYCStatusChanged pg js str secret m i s =
     (case unmarshal_signed js (Payload m) of
        Inl e \<Rightarrow> (Malformed e, s)
      | Inr env \<Rightarrow> (case unmarshal_status js (EventData env) of
          Inl e \<Rightarrow> (Malformed_Data e, s)
        | Inr d \<Rightarrow>
            if \<not> VerifyStatusChangedSignature str env d secret then (Signature_Failed, s)
            else (case MapKYCStatusChanged (new_id i) (now i) (envelope_of env) d of
                Inl e \<Rightarrow> (Mapping_Failed e, s)
              | Inr n \<Rightarrow> store_notification pg i n s)))"

definition handle_inbox :: "pg \<Rightarrow> json \<Rightarrow> message \<Rightarrow> input \<Rightarrow> inbox \<Rightarrow> outcome \<times> inbox" where
  "handle_inbox pg js m i s =
     (case unmarshal_envelope js (Payload m) of
        Inl e \<Rightarrow> (Malformed e, s)
      | Inr env \<Rightarrow> (case MapEventToNotification js (new_id i) (now i) (Channel m) env of
          Inl e \<Rightarrow> (Mapping_Failed e, s)
        | Inr n \<Rightarrow> store_notification pg i
            (case Data n of None \<Rightarrow> n
             | Some d \<Rightarrow> if length d > maxPayloadBytes then n\<lparr>Data := None\<rparr> else n) s))"

definition handle ::
  "pg \<Rightarrow> json \<Rightarrow> (uuid \<Rightarrow> string) \<Rightarrow> ('i, 'c) consumer \<Rightarrow> message \<Rightarrow> input \<Rightarrow> 'i \<Rightarrow>
   inbox \<times> 'c \<Rightarrow> outcome \<times> inbox \<times> 'c" where
  "handle pg js str c m i ci = (\<lambda>(s, cs).
     if length (Payload m) > maxPayloadBytes then (Oversized, s, cs)
     else if Channel m = commsSendRequestedChannel then
       (case commsHandler c of
          None \<Rightarrow> (Ignored, s, cs)
        | Some h \<Rightarrow> (Routed, s, h ci (Payload m) cs))
     else if Channel m = ''kyc.status_changed'' then
       (case handleKYCStatusChanged pg js str (kycHMACSecret c) m i s of (r, s') \<Rightarrow> (r, s', cs))
     else (case handle_inbox pg js m i s of (r, s') \<Rightarrow> (r, s', cs)))"

text \<open>What the loop of \<open>Run\<close> can see: a message, the cancelled context, the closed channel.\<close>

datatype 'i loop_event = Deliver message input 'i | Ctx_Done | Channel_Closed

fun run_loop ::
  "pg \<Rightarrow> json \<Rightarrow> (uuid \<Rightarrow> string) \<Rightarrow> ('i, 'c) consumer \<Rightarrow> 'i loop_event list \<Rightarrow>
   inbox \<times> 'c \<Rightarrow> outcome list \<times> inbox \<times> 'c" where
  "run_loop pg js str c [] st = ([], st)"
| "run_loop pg js str c (Ctx_Done # es) st = ([], st)"
| "run_loop pg js str c (Channel_Closed # es) st = ([], st)"
| "run_loop pg js str c (Deliver m i ci # es) st =
     (let (r, st') = handle pg js str c m i ci st; (rs, st'') = run_loop pg js str c es st'
      in (r # rs, st''))"

definition Run ::
  "pg \<Rightarrow> json \<Rightarrow> (uuid \<Rightarrow> string) \<Rightarrow> ('i, 'c) consumer \<Rightarrow> 'i loop_event list \<Rightarrow>
   inbox \<times> 'c \<Rightarrow> outcome list \<times> inbox \<times> 'c" where
  "Run pg js str c es st = (if has_redis c then run_loop pg js str c es st else ([], st))"

subsection \<open>The traffic on the inbox\<close>

datatype 'i traffic = Redis message input 'i | Api request fault

datatype reply = Handled outcome | Answered answer

fun service_step ::
  "pg \<Rightarrow> json \<Rightarrow> (uuid \<Rightarrow> string) \<Rightarrow> ('i, 'c) consumer \<Rightarrow> 'i traffic \<Rightarrow>
   inbox \<times> 'c \<Rightarrow> reply \<times> inbox \<times> 'c" where
  "service_step pg js str c (Redis m i ci) st = map_prod Handled id (handle pg js str c m i ci st)"
| "service_step pg js str c (Api r f) (s, cs) =
     (case serve pg (r, f) s of (a, s') \<Rightarrow> (Answered a, s', cs))"

subsection \<open>What a delivery does to the inbox\<close>

text \<open>The notification a message asks for, if it asks for one and is entitled to it.\<close>

definition wanted_status ::
  "json \<Rightarrow> (uuid \<Rightarrow> string) \<Rightarrow> string \<Rightarrow> message \<Rightarrow> input \<Rightarrow> notification option" where
  "wanted_status js str secret m i =
     (case unmarshal_signed js (Payload m) of
        Inl e \<Rightarrow> None
      | Inr env \<Rightarrow> (case unmarshal_status js (EventData env) of
          Inl e \<Rightarrow> None
        | Inr d \<Rightarrow> if VerifyStatusChangedSignature str env d secret
            then (case MapKYCStatusChanged (new_id i) (now i) (envelope_of env) d of
                    Inl e \<Rightarrow> None | Inr n \<Rightarrow> Some n)
            else None))"

definition wanted_event :: "json \<Rightarrow> message \<Rightarrow> input \<Rightarrow> notification option" where
  "wanted_event js m i =
     (case unmarshal_envelope js (Payload m) of
        Inl e \<Rightarrow> None
      | Inr env \<Rightarrow> (case MapEventToNotification js (new_id i) (now i) (Channel m) env of
          Inl e \<Rightarrow> None
        | Inr n \<Rightarrow> Some (case Data n of None \<Rightarrow> n
            | Some d \<Rightarrow> if length d > maxPayloadBytes then n\<lparr>Data := None\<rparr> else n)))"

definition wanted ::
  "json \<Rightarrow> (uuid \<Rightarrow> string) \<Rightarrow> string \<Rightarrow> message \<Rightarrow> input \<Rightarrow> notification option" where
  "wanted js str secret m i =
     (if length (Payload m) > maxPayloadBytes \<or> Channel m = commsSendRequestedChannel then None
      else if Channel m = ''kyc.status_changed'' then wanted_status js str secret m i
      else wanted_event js m i)"

lemmas wanted_defs = wanted_def wanted_status_def wanted_event_def

lemma store_notification_parts:
  "store_notification pg i n s =
    (case fst (Insert pg (db_fault i) n s) of Inl e \<Rightarrow> Insert_Failed e | Inr u \<Rightarrow> Created,
     snd (Insert pg (db_fault i) n s))"
  by (cases "Insert pg (db_fault i) n s") (simp add: store_notification_def split: sum.splits)

lemma handle_status_wanted:
  "handleKYCStatusChanged pg js str secret m i s =
     (case wanted_status js str secret m i of
        None \<Rightarrow> (fst (handleKYCStatusChanged pg js str secret m i s), s)
      | Some n \<Rightarrow> store_notification pg i n s)"
  "wanted_status js str secret m i = None \<Longrightarrow> fst (handleKYCStatusChanged pg js str secret m i s) \<noteq> Created"
  by (simp_all add: handleKYCStatusChanged_def wanted_status_def split: sum.splits if_splits)

lemma handle_event_wanted:
  "handle_inbox pg js m i s =
     (case wanted_event js m i of
        None \<Rightarrow> (fst (handle_inbox pg js m i s), s)
      | Some n \<Rightarrow> store_notification pg i n s)"
  "wanted_event js m i = None \<Longrightarrow> fst (handle_inbox pg js m i s) \<noteq> Created"
  by (simp_all add: handle_inbox_def wanted_event_def split: sum.splits if_splits)

lemma handle_some:
  assumes "wanted js str (kycHMACSecret c) m i = Some n"
  shows "handle pg js str c m i ci (s, cs) =
    (case fst (Insert pg (db_fault i) n s) of Inl e \<Rightarrow> Insert_Failed e | Inr u \<Rightarrow> Created,
     snd (Insert pg (db_fault i) n s), cs)"
proof (cases "Channel m = ''kyc.status_changed''")
  case True
  then have "wanted_status js str (kycHMACSecret c) m i = Some n"
    using assms by (simp add: wanted_def split: if_splits)
  then have "handleKYCStatusChanged pg js str (kycHMACSecret c) m i s = store_notification pg i n s"
    using handle_status_wanted(1) [of pg js str "kycHMACSecret c" m i s] by simp
  then show ?thesis using assms True
    by (simp add: handle_def wanted_def store_notification_parts split: if_splits)
next
  case False
  then have "wanted_event js m i = Some n"
    using assms by (simp add: wanted_def split: if_splits)
  then have "handle_inbox pg js m i s = store_notification pg i n s"
    using handle_event_wanted(1) [of pg js m i s] by simp
  then show ?thesis using assms False
    by (simp add: handle_def wanted_def store_notification_parts split: if_splits)
qed

lemma handle_none:
  assumes "wanted js str (kycHMACSecret c) m i = None"
  shows "fst (snd (handle pg js str c m i ci (s, cs))) = s"
    and "fst (handle pg js str c m i ci (s, cs)) \<noteq> Created"
proof -
  have "fst (snd (handle pg js str c m i ci (s, cs))) = s \<and> fst (handle pg js str c m i ci (s, cs)) \<noteq> Created"
  proof (cases "length (Payload m) > maxPayloadBytes \<or> Channel m = commsSendRequestedChannel")
    case True
    then show ?thesis by (auto simp: handle_def split: option.splits)
  next
    case False
    show ?thesis
    proof (cases "Channel m = ''kyc.status_changed''")
      case True
      then have "wanted_status js str (kycHMACSecret c) m i = None"
        using assms False by (simp add: wanted_def)
      then show ?thesis using True False handle_status_wanted(2) [of js str "kycHMACSecret c" m i pg s]
          handle_status_wanted(1) [of pg js str "kycHMACSecret c" m i s]
        by (simp add: handle_def split_beta) (metis snd_conv)
    next
      case ch: False
      then have "wanted_event js m i = None"
        using assms False by (simp add: wanted_def)
      then show ?thesis using ch False handle_event_wanted(2) [of js m i pg s]
          handle_event_wanted(1) [of pg js m i s]
        by (simp add: handle_def split_beta) (metis snd_conv)
    qed
  qed
  then show "fst (snd (handle pg js str c m i ci (s, cs))) = s"
    "fst (handle pg js str c m i ci (s, cs)) \<noteq> Created" by auto
qed

lemma handle_wanted:
  "fst (snd (handle pg js str c m i ci (s, cs))) =
    (case wanted js str (kycHMACSecret c) m i of
       None \<Rightarrow> s | Some n \<Rightarrow> snd (Insert pg (db_fault i) n s))"
  "fst (handle pg js str c m i ci (s, cs)) = Created \<Longrightarrow>
     \<exists>n. wanted js str (kycHMACSecret c) m i = Some n \<and> fst (Insert pg (db_fault i) n s) = Inr ()"
  by (cases "wanted js str (kycHMACSecret c) m i"; auto simp: handle_some handle_none split: sum.splits)+

lemma wanted_mapped:
  assumes "wanted js str secret m i = Some n"
  obtains env t where "mapped_ok (new_id i) (now i) t env n" "Channel m \<noteq> ''kyc.status_changed''"
      "t \<noteq> ''KYC_STATUS_CHANGED''" "unmarshal_envelope js (Payload m) = Inr env"
  | env d where "mapped_ok (new_id i) (now i) ''KYC_STATUS_CHANGED'' (envelope_of env) n"
      "Channel m = ''kyc.status_changed''"
      "unmarshal_signed js (Payload m) = Inr env" "unmarshal_status js (EventData env) = Inr d"
      "VerifyStatusChangedSignature str env d secret" "UserID n = Status_UserID d" "Data n = None"
proof (cases "Channel m = ''kyc.status_changed''")
  case True
  then obtain env d n' where "unmarshal_signed js (Payload m) = Inr env"
    "unmarshal_status js (EventData env) = Inr d" "VerifyStatusChangedSignature str env d secret"
    "MapKYCStatusChanged (new_id i) (now i) (envelope_of env) d = Inr n'" "n = n'"
    using assms by (auto simp: wanted_defs split: sum.splits if_splits)
  then show ?thesis using that(2) True map_status_ok by blast
next
  case False
  obtain env n' where e: "unmarshal_envelope js (Payload m) = Inr env"
    and m: "MapEventToNotification js (new_id i) (now i) (Channel m) env = Inr n'"
    and n: "n = (case Data n' of None \<Rightarrow> n'
        | Some d \<Rightarrow> if length d > maxPayloadBytes then n'\<lparr>Data := None\<rparr> else n')"
    using assms False by (auto simp: wanted_defs split: sum.splits if_splits)
  obtain t where "t \<noteq> ''KYC_STATUS_CHANGED''" "mapped_ok (new_id i) (now i) t env n'"
    using m by (rule map_event_ok)
  moreover from this have "mapped_ok (new_id i) (now i) t env n"
    by (auto simp: n mapped_ok_def split: option.splits)
  ultimately show ?thesis using that(1) False e by blast
qed

text \<open>The parts of a row no request changes.\<close>

definition stable :: "notification \<Rightarrow> uuid \<times> uuid \<times> string \<times> uuid option" where
  "stable r = (ID r, UserID r, Type r, SourceEventID r)"

lemma serve_stable: "map stable (snd (serve pg rf s)) = map stable s"
proof (rule inbox_step_state [of pg "request_op (fst rf) (snd rf)" s])
  assume "reads_only (op_owner (request_op (fst rf) (snd rf))) s
    (snd (inbox_step pg (request_op (fst rf) (snd rf)) s))"
  then have "map stable (snd (inbox_step pg (request_op (fst rf) (snd rf)) s)) = map stable s"
    by (rule reads_only_same) (simp add: stable_def)
  then show ?thesis by (simp add: serve_def)
next
  fix m f n assume "request_op (fst rf) (snd rf) = OpInsert f n"
  then show ?thesis by (cases "fst rf") simp_all
qed (simp add: serve_def)

lemma Insert_stable:
  "stable ` set (snd (Insert pg f n s)) \<subseteq> stable ` set s \<union> {stable n}"
  by (rule Insert_state [of pg f n s]) (auto simp: stable_def)

lemma service_step_rows:
  assumes "r \<in> set (fst (snd (service_step pg js str c e st)))"
  shows "stable r \<in> stable ` set (fst st) \<or>
    (\<exists>m i ci n. e = Redis m i ci \<and> wanted js str (kycHMACSecret c) m i = Some n \<and> stable r = stable n)"
proof (cases e)
  case (Redis m i ci)
  obtain s cs where st: "st = (s, cs)" by (cases st)
  show ?thesis
  proof (cases "wanted js str (kycHMACSecret c) m i")
    case None
    then show ?thesis using assms by (simp add: Redis st handle_wanted(1))
  next
    case (Some n)
    then have "stable r \<in> stable ` set s \<union> {stable n}"
      using assms Insert_stable [of pg "db_fault i" n s] by (auto simp: Redis st handle_wanted(1))
    then show ?thesis using Some Redis st by auto
  qed
next
  case (Api q f)
  obtain s cs where st: "st = (s, cs)" by (cases st)
  have "r \<in> set (snd (serve pg (q, f) s))" using assms by (simp add: Api st split_beta)
  then have "stable r \<in> set (map stable (snd (serve pg (q, f) s)))" by simp
  then show ?thesis unfolding serve_stable by (simp add: st)
qed

lemma run_rows:
  assumes "r \<in> set (fst (snd (run_steps (service_step pg js str c) es st)))"
  shows "stable r \<in> stable ` set (fst st) \<or>
    (\<exists>m i ci n. Redis m i ci \<in> set es \<and> wanted js str (kycHMACSecret c) m i = Some n \<and> stable r = stable n)"
  using assms
proof (induction es arbitrary: st)
  case (Cons e es)
  let ?st' = "snd (service_step pg js str c e st)"
  have "r \<in> set (fst (snd (run_steps (service_step pg js str c) es ?st')))"
    using Cons.prems by (simp add: run_steps_Cons del: run_steps.simps(2))
  from Cons.IH [OF this] show ?case
  proof
    assume "stable r \<in> stable ` set (fst ?st')"
    then obtain r' where "r' \<in> set (fst ?st')" "stable r = stable r'" by auto
    then show ?thesis using service_step_rows [of r' pg js str c e st] by auto
  qed auto
qed simp

text \<open>C4. No forged status change reaches an inbox. In any interleaving of deliveries and API
  requests, every \<open>KYC_STATUS_CHANGED\<close> row of the table goes back to a delivered message on
  \<open>kyc.status_changed\<close> whose signature verifies under the configured secret, for that row's user
  and event; with an empty secret there is no such row at all.\<close>

theorem status_rows_authentic:
  assumes "r \<in> set (fst (snd (run_steps (service_step pg js str c) es ([], cs))))"
    and "Type r = NotificationTypeKYCStatusChanged"
  shows "kycHMACSecret c \<noteq> [] \<and>
    (\<exists>m i ci env d. Redis m i ci \<in> set es \<and> Channel m = ''kyc.status_changed'' \<and>
      unmarshal_signed js (Payload m) = Inr env \<and> unmarshal_status js (EventData env) = Inr d \<and>
      Signature env = hmac_hex (kycHMACSecret c) (status_canonical str env d) \<and>
      UserID r = Status_UserID d \<and> SourceEventID r = Some (EventID env))"
proof -
  obtain m i ci n where e: "Redis m i ci \<in> set es" and w: "wanted js str (kycHMACSecret c) m i = Some n"
    and st: "stable r = stable n"
    using run_rows [OF assms(1)] by auto
  from w show ?thesis
  proof (rule wanted_mapped)
    fix env t assume "mapped_ok (new_id i) (now i) t env n" "t \<noteq> ''KYC_STATUS_CHANGED''"
    then show ?thesis using st assms(2)
      by (simp add: mapped_ok_def stable_def notification_type_defs)
  next
    fix env d
    assume a: "mapped_ok (new_id i) (now i) ''KYC_STATUS_CHANGED'' (envelope_of env) n"
      "Channel m = ''kyc.status_changed''" "unmarshal_signed js (Payload m) = Inr env"
      "unmarshal_status js (EventData env) = Inr d"
      "VerifyStatusChangedSignature str env d (kycHMACSecret c)" "UserID n = Status_UserID d"
    have "SourceEventID r = Some (EventID env)" "UserID r = Status_UserID d"
      using a st by (auto simp: mapped_ok_def stable_def envelope_of_def)
    then show ?thesis using e a(2-5)
      by (auto simp: verify_status_iff status_canonical_fields)
  qed
qed

definition sample_json :: json where
  "sample_json = \<lparr>json_Valid = (\<lambda>_. True), unmarshal_envelope = (\<lambda>_. Inl ''eof''),
     unmarshal_signed = (\<lambda>_. Inr (sign_status dec_uuid ''k'' sample_signed (sample_status ''DRAFT''))),
     unmarshal_tier = (\<lambda>_. Inl ''eof''), unmarshal_suspended = (\<lambda>_. Inl ''eof''),
     unmarshal_bid_received = (\<lambda>_. Inl ''eof''), unmarshal_bid_accepted = (\<lambda>_. Inl ''eof''),
     unmarshal_milestone = (\<lambda>_. Inl ''eof''), unmarshal_contract = (\<lambda>_. Inl ''eof''),
     unmarshal_status = (\<lambda>_. Inr (sample_status ''DRAFT''))\<rparr>"

definition sample_consumer :: "(unit, unit) consumer" where
  "sample_consumer = \<lparr>has_redis = True, commsHandler = None, kycHMACSecret = ''k''\<rparr>"

definition sample_message :: message where
  "sample_message = \<lparr>Channel = ''kyc.status_changed'', Payload = ''{}''\<rparr>"

definition sample_input :: "uuid \<Rightarrow> instant \<Rightarrow> input" where
  "sample_input u t = \<lparr>new_id = u, now = t, db_fault = NoFault\<rparr>"

definition sample_status_row :: notification where
  "sample_status_row = \<lparr>ID = 9, UserID = 1, Type = NotificationTypeKYCStatusChanged,
     Title = ''KYC Status Updated'', Body = ''Your KYC status has changed to A|1.'', Data = None,
     SourceEventID = Some 5, ReadAt = None, CreatedAt = 77\<rparr>"

lemma sample_wanted:
  "wanted sample_json dec_uuid (kycHMACSecret sample_consumer) sample_message (sample_input 9 77) =
     Some sample_status_row"
  using verify_sign_status [of "''k''" dec_uuid sample_signed "sample_status ''DRAFT''"]
  by (simp add: wanted_defs sample_message_def maxPayloadBytes_def commsSendRequestedChannel_def
      sample_json_def sample_consumer_def MapKYCStatusChanged_def)
    (simp add: sign_status_def envelope_of_def sample_signed_def sample_status_def
      sample_status_row_def sample_input_def)

lemma sample_handled:
  "handle plain_pg sample_json dec_uuid sample_consumer sample_message (sample_input 9 77) ci ([], cs) =
     (Created, [sample_status_row], cs)"
  using verify_sign_status [of "''k''" dec_uuid sample_signed "sample_status ''DRAFT''"]
  by (simp add: handle_def handleKYCStatusChanged_def sample_message_def maxPayloadBytes_def
      commsSendRequestedChannel_def sample_json_def sample_consumer_def MapKYCStatusChanged_def)
    (simp add: sign_status_def envelope_of_def sample_signed_def sample_status_def
      sample_status_row_def sample_input_def store_notification_def Insert_def insert_stmt_def
      bound_def bindable_def insert_row_def sample_defs notification_type_defs)

lemma status_rows_authentic_witness:
  "sample_status_row \<in> set (fst (snd (run_steps (service_step plain_pg sample_json dec_uuid sample_consumer)
     [Redis sample_message (sample_input 9 77) ()] ([], ())))) \<and>
   (\<exists>m i ci env d. Redis m i ci \<in> set [Redis sample_message (sample_input 9 77) ()] \<and>
      Channel m = ''kyc.status_changed'' \<and>
      unmarshal_signed sample_json (Payload m) = Inr env \<and> unmarshal_status sample_json (EventData env) = Inr d \<and>
      Signature env = hmac_hex ''k'' (status_canonical dec_uuid env d) \<and>
      UserID sample_status_row = Status_UserID d \<and> SourceEventID sample_status_row = Some (EventID env))"
proof -
  have m: "sample_status_row \<in> set (fst (snd (run_steps
      (service_step plain_pg sample_json dec_uuid sample_consumer)
      [Redis sample_message (sample_input 9 77) ()] ([], ()))))"
    by (simp add: sample_handled)
  have "kycHMACSecret sample_consumer = ''k''" by (simp add: sample_consumer_def)
  with m status_rows_authentic [OF m] show ?thesis
    by (simp add: sample_status_row_def del: run_steps.simps set_simps list.set)
qed

subsection \<open>Redelivery\<close>

lemma wanted_inputs:
  assumes "wanted js str secret m i = Some n"
  shows "wanted js str secret m i' = Some (n\<lparr>ID := new_id i', CreatedAt := now i'\<rparr>)"
proof -
  have st: "MapKYCStatusChanged (new_id i) (now i) env d = Inr n \<Longrightarrow>
      MapKYCStatusChanged (new_id i') (now i') env d = Inr (n\<lparr>ID := new_id i', CreatedAt := now i'\<rparr>)"
    for env d n
    by (auto simp: MapKYCStatusChanged_def split: if_splits)
  have ev: "MapEventToNotification js (new_id i) (now i) ch env = Inr n \<Longrightarrow>
      MapEventToNotification js (new_id i') (now i') ch env = Inr (n\<lparr>ID := new_id i', CreatedAt := now i'\<rparr>)"
    for ch env n
    by (simp add: MapEventToNotification_def mapper_defs split: if_splits sum.splits) auto
  show ?thesis using assms
    by (auto simp: wanted_defs st ev split: if_splits sum.splits option.splits)
qed

lemma wanted_row:
  assumes "wanted js str secret m i = Some n"
  shows "notifications_type_check (Type n) \<and> SourceEventID n \<noteq> None"
  using assms by (rule wanted_mapped) (auto simp: mapped_ok_def)

text \<open>A message whose row the table still holds is handled again without a trace.\<close>

lemma handled_stored:
  assumes "wanted js str (kycHMACSecret c) m i = Some n"
    and "handle pg js str c m i ci (s, cs) = (Created, st1)"
  shows "storable pg n \<and> (\<exists>r \<in> set (fst st1). same_source n r)"
proof -
  obtain e where e: "SourceEventID n = Some e" using wanted_row [OF assms(1)] by auto
  have st1: "fst (Insert pg (db_fault i) n s) = Inr ()" "snd (Insert pg (db_fault i) n s) = fst st1"
    using assms handle_wanted(1) [of pg js str c m i ci s cs] handle_wanted(2) [of pg js str c m i ci s cs] by auto
  then have "db_fault i = NoFault" "bindable [Type n, Title n, Body n]" "fst (insert_stmt pg n s) = Inr ()"
    by (simp_all add: Insert_done)
  moreover from this have "insert_stmt pg n s = (Inr (), fst st1)"
    using st1(2) by (simp add: Insert_def bound_def lift_db_def prod_eq_iff)
  note insert_stmt_done [OF this e]
  ultimately show ?thesis using e by (auto simp: same_source_def storable_def)
qed

lemma held_redelivery:
  assumes "wanted js str (kycHMACSecret c) m i = Some n" "\<exists>r \<in> set t. same_source n r" "storable pg n"
  shows "fst (snd (handle pg js str c m i' ci' (t, ct))) = t \<and>
    (db_fault i' = NoFault \<longrightarrow> handle pg js str c m i' ci' (t, ct) = (Created, t, ct))"
proof -
  let ?n = "n\<lparr>ID := new_id i', CreatedAt := now i'\<rparr>"
  obtain e where e: "SourceEventID n = Some e" and ty: "notifications_type_check (Type n)"
    using wanted_row [OF assms(1)] by auto
  have w': "wanted js str (kycHMACSecret c) m i' = Some ?n" by (rule wanted_inputs [OF assms(1)])
  have dup: "bound [Type n, Title n, Body n] (insert_stmt pg ?n) t = (Inr (), t)"
    using assms e ty insert_stmt_duplicate [of t ?n e pg] by (auto simp: bound_def same_source_def storable_def)
  have "fst (snd (handle pg js str c m i' ci' (t, ct))) = t"
    using w' dup by (cases "db_fault i'") (simp_all add: handle_wanted(1) Insert_def)
  moreover have "handle pg js str c m i' ci' (t, ct) = (Created, t, ct)" if "db_fault i' = NoFault"
    using that w' dup by (simp add: handle_some Insert_def)
  ultimately show ?thesis by simp
qed

subsection \<open>The loop\<close>

text \<open>No message stops the loop. Up to the first cancellation or the closing of the channel,
  \<open>Run\<close> handles every message delivered, in order, each to one outcome, whatever the messages
  are; afterwards it handles none. Without a Redis client it does nothing.\<close>

lemma run_handles_every_message:
  "stop \<in> {Ctx_Done, Channel_Closed} \<Longrightarrow>
   Run pg js str c (map (\<lambda>(m, i, ci). Deliver m i ci) ds @ stop # es) st =
     (if has_redis c then run_steps (\<lambda>(m, i, ci). handle pg js str c m i ci) ds st else ([], st))"
proof -
  assume stop: "stop \<in> {Ctx_Done, Channel_Closed}"
  have "run_loop pg js str c (map (\<lambda>(m, i, ci). Deliver m i ci) ds @ stop # es) st =
      run_steps (\<lambda>(m, i, ci). handle pg js str c m i ci) ds st"
  proof (induction ds arbitrary: st)
    case Nil
    then show ?case using stop by auto
  next
    case (Cons d ds)
    then show ?case by (cases d) (simp add: split_beta Let_def)
  qed
  then show ?thesis by (simp add: Run_def)
qed

lemma run_handles_every_message_witness:
  "Run plain_pg sample_json dec_uuid sample_consumer
     [Deliver sample_message (sample_input 9 77) (), Ctx_Done, Deliver sample_message (sample_input 10 78) ()]
     ([], ()) = ([Created], [sample_status_row], ())"
  using run_handles_every_message [of Ctx_Done plain_pg sample_json dec_uuid sample_consumer
      "[(sample_message, sample_input 9 77, ())]" "[Deliver sample_message (sample_input 10 78) ()]" "([], ())"]
  by (simp add: sample_handled) (simp add: sample_consumer_def)

end
