(* ===== verification/Comms_Event.thy ===== *)
theory Comms_Event
  imports Comms_Service Consumer
begin

text \<open>
  The event path into the send pipeline (\<open>internal/comms/event.go\<close>, \<open>eventhandler.go\<close>): the
  \<open>comms.send_requested\<close> envelope, its signature and freshness, its conversion to a request, and
  the handler the consumer routes such messages to.

  \<open>json.Marshal\<close> of the data and \<open>json.Unmarshal\<close> of the envelope are the record \<open>event_codec\<close>,
  next to \<open>UUID.String\<close>. \<open>time.Now()\<close> is an argument.
\<close>

subsection \<open>The envelope\<close>

definition ChannelSendRequested :: string where
  "ChannelSendRequested = ''comms.send_requested''"

record SendRequestedData =
  SR_Channel :: string
  SR_To :: string
  SR_TemplateID :: string
  SR_Locale :: string
  SR_Vars :: vars
  SR_IdempotencyKey :: string
  SR_UserID :: "uuid option"

record SendRequestedEvent =
  SR_EventID :: uuid
  SR_OccurredAt :: instant
  SR_Version :: int
  SR_Data :: SendRequestedData
  SR_Signature :: string

record event_codec =
  marshal_data :: "SendRequestedData \<Rightarrow> string + string"
  unmarshal_event :: "string \<Rightarrow> string + SendRequestedEvent"
  uuid_text :: "uuid \<Rightarrow> string"

definition sendRequestedCanonical :: "(uuid \<Rightarrow> string) \<Rightarrow> uuid \<Rightarrow> instant \<Rightarrow> int \<Rightarrow> string \<Rightarrow> string" where
  "sendRequestedCanonical str eventID occurredAt version rawData = join ''|''
     [str eventID, format_rfc3339nano occurredAt, itoa version, hex_encode (sha256 rawData)]"

definition computeSendRequestedSignature ::
  "(uuid \<Rightarrow> string) \<Rightarrow> uuid \<Rightarrow> instant \<Rightarrow> int \<Rightarrow> string \<Rightarrow> string \<Rightarrow> string" where
  "computeSendRequestedSignature str eventID occurredAt version rawData secret =
     hmac_hex secret (sendRequestedCanonical str eventID occurredAt version rawData)"

text \<open>Signing answers with the error, or with the signature and the signed event.\<close>

definition SignSendRequested ::
  "event_codec \<Rightarrow> SendRequestedEvent \<Rightarrow> string \<Rightarrow> string + string \<times> SendRequestedEvent" where
  "SignSendRequested codec evt secret =
     (case marshal_data codec (SR_Data evt) of
        Inl e \<Rightarrow> Inl e
      | Inr rawData \<Rightarrow>
          let sig = computeSendRequestedSignature (uuid_text codec) (SR_EventID evt) (SR_OccurredAt evt)
                (SR_Version evt) rawData secret
          in Inr (sig, evt\<lparr>SR_Signature := sig\<rparr>))"

definition VerifySendRequested :: "event_codec \<Rightarrow> SendRequestedEvent \<Rightarrow> string \<Rightarrow> bool" where
  "VerifySendRequested codec evt secret =
     (if SR_Signature evt = [] then False
      else (case marshal_data codec (SR_Data evt) of
          Inl e \<Rightarrow> False
        | Inr rawData \<Rightarrow> computeSendRequestedSignature (uuid_text codec) (SR_EventID evt)
            (SR_OccurredAt evt) (SR_Version evt) rawData secret = SR_Signature evt))"

definition maxEventAge :: int where "maxEventAge = 5 * minute"
definition eventClockSkew :: int where "eventClockSkew = minute"

definition IsSendRequestedFresh :: "SendRequestedEvent \<Rightarrow> instant \<Rightarrow> bool" where
  "IsSendRequestedFresh evt clock =
     (let age = time_sub clock (SR_OccurredAt evt) in age \<le> maxEventAge \<and> age \<ge> - eventClockSkew)"

definition ToSendRequest :: "(uuid \<Rightarrow> string) \<Rightarrow> SendRequestedEvent \<Rightarrow> SendRequest" where
  "ToSendRequest str e =
     (let idem = (if SR_IdempotencyKey (SR_Data e) = [] then ''evt:'' @ str (SR_EventID e)
        else SR_IdempotencyKey (SR_Data e))
      in \<lparr>Req_Channel = SR_Channel (SR_Data e), Req_To = SR_To (SR_Data e),
          Req_TemplateID = SR_TemplateID (SR_Data e), Req_Locale = SR_Locale (SR_Data e),
          Req_Vars = SR_Vars (SR_Data e), Req_IdempotencyKey = idem, Req_UserID = SR_UserID (SR_Data e)\<rparr>)"

subsection \<open>The handler\<close>

record event_handler =
  eh_service :: comms_service
  hmacSecret :: string

definition NewEventHandler :: "comms_service \<Rightarrow> string \<Rightarrow> event_handler" where
  "NewEventHandler svc secret = \<lparr>eh_service = svc, hmacSecret = secret\<rparr>"

text \<open>The log line the handler ends with.\<close>

datatype event_outcome =
    Event_Malformed string | Event_Forged | Event_Stale | Event_Send_Failed comms_error
  | Event_Processed SendResult

definition Handle ::
  "comms_lib \<Rightarrow> event_codec \<Rightarrow> event_handler \<Rightarrow> send_env \<Rightarrow> instant \<Rightarrow> string \<Rightarrow> comms_state \<Rightarrow>
   event_outcome \<times> comms_state" where
  "Handle lib codec h env clock payload st =
     (case unmarshal_event codec payload of
        Inl e \<Rightarrow> (Event_Malformed e, st)
      | Inr evt \<Rightarrow>
          if \<not> VerifySendRequested codec evt (hmacSecret h) then (Event_Forged, st)
          else if \<not> IsSendRequestedFresh evt clock then (Event_Stale, st)
          else (case Send lib (eh_service h) env (ToSendRequest (uuid_text codec) evt) st of
              ((res, Some e), st') \<Rightarrow> (Event_Send_Failed e, st')
            | ((res, None), st') \<Rightarrow> (Event_Processed res, st')))"

text \<open>As the consumer sees it: an input is the environment of a send and the clock.\<close>

definition comms_handler ::
  "comms_lib \<Rightarrow> event_codec \<Rightarrow> event_handler \<Rightarrow> send_env \<times> instant \<Rightarrow> string \<Rightarrow> comms_state \<Rightarrow> comms_state" where
  "comms_handler lib codec h i payload st = snd (Handle lib codec h (fst i) (snd i) payload st)"

subsection \<open>What the signature binds\<close>

definition event_join :: "string \<times> string \<times> string \<times> string \<Rightarrow> string" where
  "event_join = (\<lambda>(a, b, c, d). join ''|'' [a, b, c, d])"

definition event_wf :: "string \<times> string \<times> string \<times> string \<Rightarrow> bool" where
  "event_wf = (\<lambda>(a, b, c, d). \<forall>x \<in> {a, b, c, d}. CHR ''|'' \<notin> set x)"

interpretation send_requested: signed_message event_join event_wf
proof
  fix m n assume wf: "event_wf m" "event_wf n" and eq: "event_join m = event_join n"
  obtain a b c d a' b' c' d' where "m = (a, b, c, d)" "n = (a', b', c', d')" by (cases m; cases n) auto
  then show "m = n" using wf eq join_eq_iff [of "[a, b, c, d]" "[a', b', c', d']" "CHR ''|''"]
    by (auto simp: event_wf_def event_join_def)
qed

lemma hex_no_bar [no_bar]: "CHR ''|'' \<notin> set (hex_encode s)"
  using hex_encode_chars [of "CHR ''|''" s] by (auto simp: is_digit_def)

definition event_canonical :: "event_codec \<Rightarrow> SendRequestedEvent \<Rightarrow> string \<Rightarrow> string" where
  "event_canonical codec evt js = sendRequestedCanonical (uuid_text codec) (SR_EventID evt)
     (SR_OccurredAt evt) (SR_Version evt) js"

lemma event_canonical_join:
  "event_canonical codec evt js = event_join (uuid_text codec (SR_EventID evt),
     format_rfc3339nano (SR_OccurredAt evt), itoa (SR_Version evt), hex_encode (sha256 js))"
  by (simp add: event_canonical_def sendRequestedCanonical_def event_join_def)

text \<open>An accepted event has encodable data, and its signature is that of the four fields.\<close>

lemma verified_event:
  assumes "VerifySendRequested codec evt secret"
  obtains js where "marshal_data codec (SR_Data evt) = Inr js"
    "SR_Signature evt = hmac_hex secret (event_join (uuid_text codec (SR_EventID evt),
       format_rfc3339nano (SR_OccurredAt evt), itoa (SR_Version evt), hex_encode (sha256 js)))"
  using assms
  by (auto simp: VerifySendRequested_def computeSendRequestedSignature_def sendRequestedCanonical_def
      event_join_def split: if_splits sum.splits)

text \<open>C34. Signing and verifying agree: an event whose data can be encoded is accepted under the secret it was
  signed with. And a signature is worth one event: two accepted events with the same signature agree on the
  event id, the time, the version and the encoded data, unless SHA-256 or HMAC-SHA256 collides.\<close>

theorem send_event_signature:
  assumes "uuid_codec (uuid_text codec) parse"
  shows "(\<forall>sig evt'. SignSendRequested codec evt secret = Inr (sig, evt') \<longrightarrow>
            VerifySendRequested codec evt' secret \<and> evt' = evt\<lparr>SR_Signature := sig\<rparr>) \<and>
    (VerifySendRequested codec evt1 secret \<and> VerifySendRequested codec evt2 secret \<and>
     SR_Signature evt1 = SR_Signature evt2 \<longrightarrow>
       (\<exists>data1 data2. marshal_data codec (SR_Data evt1) = Inr data1 \<and> marshal_data codec (SR_Data evt2) = Inr data2 \<and>
         ((SR_EventID evt1, SR_OccurredAt evt1, SR_Version evt1) = (SR_EventID evt2, SR_OccurredAt evt2, SR_Version evt2) \<and>
           (data1 = data2 \<or> data1 \<noteq> data2 \<and> sha256 data1 = sha256 data2) \<or>
          hmac_collision secret (event_canonical codec evt1 data1) (event_canonical codec evt2 data2))))"
proof (intro conjI allI impI)
  fix sig evt' assume "SignSendRequested codec evt secret = Inr (sig, evt')"
  then show "VerifySendRequested codec evt' secret" "evt' = evt\<lparr>SR_Signature := sig\<rparr>"
    by (auto simp: SignSendRequested_def VerifySendRequested_def computeSendRequestedSignature_def Let_def
        split: sum.splits)
next
  assume a: "VerifySendRequested codec evt1 secret \<and> VerifySendRequested codec evt2 secret \<and>
     SR_Signature evt1 = SR_Signature evt2"
  obtain data1 where r1: "marshal_data codec (SR_Data evt1) = Inr data1" "SR_Signature evt1 = hmac_hex secret
      (event_join (uuid_text codec (SR_EventID evt1), format_rfc3339nano (SR_OccurredAt evt1),
        itoa (SR_Version evt1), hex_encode (sha256 data1)))"
    using a verified_event by blast
  obtain data2 where r2: "marshal_data codec (SR_Data evt2) = Inr data2" "SR_Signature evt2 = hmac_hex secret
      (event_join (uuid_text codec (SR_EventID evt2), format_rfc3339nano (SR_OccurredAt evt2),
        itoa (SR_Version evt2), hex_encode (sha256 data2)))"
    using a verified_event by blast
  let ?f = "\<lambda>e js. (uuid_text codec (SR_EventID e), format_rfc3339nano (SR_OccurredAt e),
      itoa (SR_Version e), hex_encode (sha256 js))"
  have wf: "event_wf (?f e js)" for e js
    using assms by (simp add: event_wf_def no_bar)
  have "hmac_hex secret (event_join (?f evt1 data1)) = hmac_hex secret (event_join (?f evt2 data2))"
    using a r1(2) r2(2) by simp
  from send_requested.same_signature [OF wf wf this]
  have "?f evt1 data1 = ?f evt2 data2 \<or> hmac_collision secret (event_join (?f evt1 data1)) (event_join (?f evt2 data2))" .
  then show "\<exists>data1 data2. marshal_data codec (SR_Data evt1) = Inr data1 \<and> marshal_data codec (SR_Data evt2) = Inr data2 \<and>
      ((SR_EventID evt1, SR_OccurredAt evt1, SR_Version evt1) = (SR_EventID evt2, SR_OccurredAt evt2, SR_Version evt2) \<and>
        (data1 = data2 \<or> data1 \<noteq> data2 \<and> sha256 data1 = sha256 data2) \<or>
       hmac_collision secret (event_canonical codec evt1 data1) (event_canonical codec evt2 data2))"
    using r1(1) r2(1) uuid_codec_inj [OF assms] by (auto simp: format_inj itoa_inj hex_encode_inj event_canonical_join)
qed
definition plain_codec :: event_codec where
  "plain_codec = \<lparr>marshal_data = (\<lambda>d. Inr (SR_To d)), unmarshal_event = (\<lambda>s. Inl ''no''), uuid_text = dec_uuid\<rparr>"

definition sample_event :: SendRequestedEvent where
  "sample_event = \<lparr>SR_EventID = 7, SR_OccurredAt = 0, SR_Version = 1,
     SR_Data = \<lparr>SR_Channel = ''SMS'', SR_To = ''1'', SR_TemplateID = ''otp'', SR_Locale = [],
       SR_Vars = Some [(''code'', ''123'')], SR_IdempotencyKey = [], SR_UserID = None\<rparr>, SR_Signature = []\<rparr>"

lemma send_event_signature_witness:
  "\<exists>sig evt. SignSendRequested plain_codec sample_event ''k'' = Inr (sig, evt) \<and>
     VerifySendRequested plain_codec evt ''k'' \<and>
     (SR_OccurredAt evt, SR_Version evt) = (0, 1)"
proof -
  obtain sig evt where s: "SignSendRequested plain_codec sample_event ''k'' = Inr (sig, evt)"
    by (simp add: SignSendRequested_def plain_codec_def Let_def)
  have "uuid_codec (uuid_text plain_codec) undec_uuid" by (simp add: plain_codec_def dec_uuid_codec)
  from send_event_signature [OF this] s have
    "VerifySendRequested plain_codec evt ''k'' \<and> evt = sample_event\<lparr>SR_Signature := sig\<rparr>" by blast
  then show ?thesis using s by (auto simp: sample_event_def)
qed

subsection \<open>Forged and stale events\<close>

text \<open>Freshness in plain arithmetic: the saturation of \<open>Time.Sub\<close> never turns a stale event into a fresh one.\<close>

lemma fresh_iff:
  "IsSendRequestedFresh evt clock \<longleftrightarrow> SR_OccurredAt evt - minute \<le> clock \<and> clock \<le> SR_OccurredAt evt + 5 * minute"
  by (auto simp: IsSendRequestedFresh_def time_sub_def maxEventAge_def eventClockSkew_def minute_def second_def
      Let_def)

definition accepted_event :: "event_codec \<Rightarrow> string \<Rightarrow> instant \<Rightarrow> string \<Rightarrow> SendRequestedEvent \<Rightarrow> bool" where
  "accepted_event codec secret clock payload evt \<longleftrightarrow> unmarshal_event codec payload = Inr evt \<and>
     VerifySendRequested codec evt secret \<and> IsSendRequestedFresh evt clock"

lemma Handle_accepted:
  "accepted_event codec (hmacSecret h) clock payload evt \<Longrightarrow>
   snd (Handle lib codec h env clock payload st) =
     snd (Send lib (eh_service h) env (ToSendRequest (uuid_text codec) evt) st)"
  by (auto simp: accepted_event_def Handle_def split: prod.splits option.splits)

lemma Handle_refused:
  "(\<And>evt. \<not> accepted_event codec (hmacSecret h) clock payload evt) \<Longrightarrow>
   snd (Handle lib codec h env clock payload st) = st"
  by (auto simp: accepted_event_def Handle_def split: sum.splits)

text \<open>A message changes the comms state only on \<open>comms.send_requested\<close>, if it has at most 64 KiB and decodes to an
  event with a valid signature whose time is at most five minutes old and at most one minute ahead; then exactly as
  the send the event asks for changes it.\<close>

lemma delivery_acts_on_accepted_event:
  assumes "commsHandler c = Some (comms_handler lib codec h)"
    and "snd (snd (handle pg js str c m i (env, clock) (s, cs))) \<noteq> cs"
  shows "\<exists>evt. Channel m = ''comms.send_requested'' \<and>
    length (Payload m) \<le> 65536 \<and> unmarshal_event codec (Payload m) = Inr evt \<and>
    VerifySendRequested codec evt (hmacSecret h) \<and>
    SR_OccurredAt evt - 60 * 1000000000 \<le> clock \<and> clock \<le> SR_OccurredAt evt + 300 * 1000000000 \<and>
    snd (snd (handle pg js str c m i (env, clock) (s, cs))) =
      snd (Send lib (eh_service h) env (ToSendRequest (uuid_text codec) evt) cs)"
proof -
  have routed: "Channel m = ''comms.send_requested''" "length (Payload m) \<le> 65536"
    "snd (snd (handle pg js str c m i (env, clock) (s, cs))) = snd (Handle lib codec h env clock (Payload m) cs)"
    using assms
    by (auto simp: handle_def commsSendRequestedChannel_def maxPayloadBytes_def comms_handler_def
        split: if_splits prod.splits)
  then obtain evt where a: "accepted_event codec (hmacSecret h) clock (Payload m) evt"
    using assms(2) Handle_refused by metis
  then have "SR_OccurredAt evt - 60 * 1000000000 \<le> clock" "clock \<le> SR_OccurredAt evt + 300 * 1000000000"
    by (simp_all add: accepted_event_def fresh_iff minute_def second_def)
  then show ?thesis using routed a Handle_accepted [OF a] by (auto simp: accepted_event_def)
qed

text \<open>A signed copy of an event is fresh and accepted whatever codec delivers it, and the send it asks for leaves a row.\<close>

definition signed_sample :: "string \<Rightarrow> SendRequestedEvent" where
  "signed_sample secret = sample_event\<lparr>SR_Signature := computeSendRequestedSignature dec_uuid 7 0 1 ''1'' secret\<rparr>"

definition sample_codec :: "string \<Rightarrow> event_codec" where
  "sample_codec secret = plain_codec\<lparr>unmarshal_event := (\<lambda>s. Inr (signed_sample secret))\<rparr>"

lemma sample_codec_text [simp]: "uuid_text (sample_codec secret) = dec_uuid"
  by (simp add: sample_codec_def plain_codec_def)

lemma signed_sample_accepted: "accepted_event (sample_codec secret) secret 60 payload (signed_sample secret)"
  by (simp add: accepted_event_def sample_codec_def VerifySendRequested_def plain_codec_def
      signed_sample_def sample_event_def fresh_iff minute_def second_def computeSendRequestedSignature_def)

lemma signed_sample_sends:
  "snd (Send sample_lib svc (sample_env 1) (ToSendRequest dec_uuid (signed_sample secret)) sample_state) \<noteq> sample_state"
proof -
  let ?req = "ToSendRequest dec_uuid (signed_sample secret)"
  have len: "length (dec (unat (7::uuid))) = 1" by (simp add: dec.simps)
  have "validateRequest sample_lib ?req = None"
    using len by (simp add: validateRequest_def ToSendRequest_def signed_sample_def sample_event_def
        channel_defs Channel_Valid_def request_caps varsMap_def dec_uuid_def)
  then have "Send sample_lib svc (sample_env 1) ?req sample_state =
      claimed_send sample_lib svc (sample_env 1) ?req 1
        (sample_state\<lparr>cs_log := [claimed_row svc (sample_env 1) ?req]\<rparr>)"
    using send_won [of sample_lib ?req "sample_env 1" sample_state svc]
    by (simp add: sample_env_def sample_state_def held_keys_def)
  moreover have "cs_log (snd (claimed_send sample_lib svc (sample_env 1) ?req (se_id (sample_env 1))
      (sample_state\<lparr>cs_log := [claimed_row svc (sample_env 1) ?req]\<rparr>))) \<noteq> []"
    by (subst claimed_send_log [where log = "[]"]) simp_all
  ultimately have "cs_log (snd (Send sample_lib svc (sample_env 1) ?req sample_state)) \<noteq> cs_log sample_state"
    by (simp add: sample_env_def sample_state_def)
  then show ?thesis by metis
qed

end
