(* ===== verification/Config.thy ===== *)
theory Config
  imports Go_Conv Go_Time
begin

text \<open>
  The configuration and its validation (\<open>internal/config/config.go\<close>).

  \<open>viper\<close> is an argument of \<open>Load\<close>: what it makes of the environment under the bindings and
  defaults the code gives it (binding a key that has a name cannot fail). \<open>net.ParseCIDR\<close> is an argument of the validation, answering with the
  size of the mask, and so is what \<open>%q\<close> prints. Validation answers with its list of messages and with
  the configuration, whose token map it fills in.
\<close>

subsection \<open>The configuration\<close>

record comms_config =
  Enabled :: bool
  S2STokensRaw :: string
  S2STokenMap :: "(string \<times> string) list"
  SendTimeout :: int
  EmailProvider :: string
  EmailSMTPHost :: string
  EmailSMTPPort :: int
  EmailFrom :: string
  EmailAppBaseURL :: string
  EmailSMTPUser :: string
  EmailSMTPPass :: string
  SMSProvider :: string
  SMSSenderID :: string
  SMSRegion :: string
  SMSAPIKey :: string
  SMSAPISecret :: string

record config =
  Port :: int
  PostgresDSN :: string
  PostgresSchema :: string
  DBMaxConns :: int
  DBMinConns :: int
  RedisURL :: string
  LogLevel :: string
  Env :: string
  EventHMACSecret :: string
  GatewayHMACSecret :: string
  UserRateLimitPerMin :: int
  UserRateLimitBurst :: int
  GatewayCIDR :: string
  Comms :: comms_config

definition IsDev :: "config \<Rightarrow> bool" where
  "IsDev c = equal_fold (Env c) ''development''"

definition minHMACSecretLen :: nat where "minHMACSecretLen = 32"
definition minS2STokenLen :: nat where "minS2STokenLen = 24"

definition devEventHMACSecret :: string where
  "devEventHMACSecret = ''dev-shared-event-hmac-secret-min32-0123456789''"

definition schema_char :: "char \<Rightarrow> bool" where
  "schema_char c \<longleftrightarrow> byte c \<in> {65..90} \<or> byte c \<in> {97..122} \<or> is_digit c \<or> c = CHR ''_''"

definition schemaNameRe :: "string \<Rightarrow> bool" where
  "schemaNameRe s \<longleftrightarrow> s \<noteq> [] \<and> list_all schema_char s"

subsection \<open>Its validation\<close>

definition validateEventHMAC :: "config \<Rightarrow> string list" where
  "validateEventHMAC c =
     (if IsDev c then []
      else let secret = trim_space (EventHMACSecret c) in
        if secret = [] then [''EVENT_HMAC_SECRET is required in non-development'']
        else if length secret < minHMACSecretLen
        then [''EVENT_HMAC_SECRET must be at least '' @ dec minHMACSecretLen @ '' characters'']
        else if secret = devEventHMACSecret
        then [''EVENT_HMAC_SECRET must not be a known development-default value'']
        else [])"

definition validateGatewayHMAC :: "config \<Rightarrow> string list" where
  "validateGatewayHMAC c =
     (if IsDev c then []
      else if GatewayHMACSecret c = [] then [''NOTIFICATION_GATEWAY_HMAC_SECRET is required in non-development'']
      else if length (GatewayHMACSecret c) < minHMACSecretLen
      then [''NOTIFICATION_GATEWAY_HMAC_SECRET must be at least '' @ dec minHMACSecretLen @ '' characters'']
      else [])"

definition validateGatewayCIDR :: "(string \<Rightarrow> string + nat) \<Rightarrow> config \<Rightarrow> string list" where
  "validateGatewayCIDR parse_cidr c =
     (if GatewayCIDR c = [] then []
      else (case parse_cidr (GatewayCIDR c) of
          Inl e \<Rightarrow> [''NOTIFICATION_GATEWAY_CIDR must be a valid CIDR block (e.g. 10.0.0.0/16): '' @ e]
        | Inr ones \<Rightarrow>
            if ones = 0
            then [''NOTIFICATION_GATEWAY_CIDR must not be a wildcard (0.0.0.0/0 or ::/0): '' @
              ''it lets any client spoof its IP via X-Forwarded-For'']
            else []))"

definition validateUserRateLimit :: "config \<Rightarrow> string list" where
  "validateUserRateLimit c =
     (if UserRateLimitPerMin c < 0 then [''NOTIFICATION_USER_RATE_LIMIT_PER_MIN must be >= 0 (0 = disabled)''] else []) @
     (if UserRateLimitPerMin c > 0 \<and> UserRateLimitBurst c \<le> 0
      then [''NOTIFICATION_USER_RATE_LIMIT_BURST must be > 0 when NOTIFICATION_USER_RATE_LIMIT_PER_MIN > 0''] else [])"

definition validEmailProviders :: "string list" where
  "validEmailProviders = [''smtp'', ''ses'', ''sendgrid'', ''stub'', []]"

definition validSMSProviders :: "string list" where
  "validSMSProviders = [''stub'', ''aws-sns'', ''huawei'', ''chunghwa'', []]"

definition quote_stub :: string where
  "quote_stub = CHR 0x27 # ''stub'' @ [CHR 0x27]"

definition validateCommsNonDev :: "config \<Rightarrow> string \<Rightarrow> string \<Rightarrow> string list" where
  "validateCommsNonDev c emailProv smsProv =
     (if emailProv = [] \<or> emailProv = ''stub''
      then [''NOTIFICATION_EMAIL_PROVIDER '' @ quote_stub @ '' is not allowed outside development''] else []) @
     (if smsProv = [] \<or> smsProv = ''stub''
      then [''NOTIFICATION_SMS_PROVIDER '' @ quote_stub @ '' is not allowed outside development''] else []) @
     (if emailProv = ''smtp''
      then (if EmailSMTPHost (Comms c) = []
            then [''NOTIFICATION_EMAIL_SMTP_HOST is required for the smtp email provider''] else []) @
           (if EmailFrom (Comms c) = []
            then [''NOTIFICATION_EMAIL_SMTP_FROM is required for the smtp email provider''] else [])
      else []) @
     (if smsProv = ''aws-sns''
      then (if SMSRegion (Comms c) = [] then [''NOTIFICATION_SMS_REGION is required for the aws-sns provider''] else [])
      else if smsProv = ''huawei'' \<or> smsProv = ''chunghwa''
      then (if SMSAPIKey (Comms c) = [] \<or> SMSAPISecret (Comms c) = []
            then [''NOTIFICATION_SMS_API_KEY and NOTIFICATION_SMS_API_SECRET are required for the '' @ smsProv @ '' provider'']
            else []) @
           (if SMSRegion (Comms c) = []
            then [''NOTIFICATION_SMS_REGION is required for the '' @ smsProv @ '' provider''] else [])
      else [])"

text \<open>One turn of the loop over the comma-separated entries: the token map and the messages so far.\<close>

definition token_entry ::
  "(string \<Rightarrow> string) \<Rightarrow> bool \<Rightarrow> string \<Rightarrow> (string \<times> string) list \<times> string list \<Rightarrow>
   (string \<times> string) list \<times> string list" where
  "token_entry quoted dev given = (\<lambda>(tokens, errs).
     let entry = trim_space given in
     if entry = [] then (tokens, errs)
     else (case cut CHR '':'' entry of
         None \<Rightarrow> (tokens, errs @ [''NOTIFICATION_S2S_TOKENS: invalid entry '' @ quoted entry @
           '' (expected service-id:token)''])
       | Some (before, after) \<Rightarrow>
           if before = [] then (tokens, errs @ [''NOTIFICATION_S2S_TOKENS: invalid entry '' @ quoted entry @
             '' (expected service-id:token)''])
           else let serviceID = trim_space before; token = trim_space after in
             if serviceID = []
             then (tokens, errs @ [''NOTIFICATION_S2S_TOKENS: service-id must not be empty''])
             else if token = []
             then (tokens, errs @ [''NOTIFICATION_S2S_TOKENS: token for '' @ quoted serviceID @ '' must not be empty''])
             else if \<not> dev \<and> length token < minS2STokenLen
             then (tokens, errs @ [''NOTIFICATION_S2S_TOKENS: token for '' @ quoted serviceID @
               '' must be at least '' @ dec minS2STokenLen @ '' characters''])
             else if map_of tokens serviceID \<noteq> None
             then (tokens, errs @ [''NOTIFICATION_S2S_TOKENS: duplicate service-id '' @ quoted serviceID])
             else (tokens @ [(serviceID, token)], errs)))"

definition parse_tokens :: "(string \<Rightarrow> string) \<Rightarrow> bool \<Rightarrow> string \<Rightarrow> (string \<times> string) list \<times> string list" where
  "parse_tokens quoted dev text = fold (token_entry quoted dev) (split_on CHR '','' text) ([], [])"

definition parseAndValidateS2STokens :: "(string \<Rightarrow> string) \<Rightarrow> config \<Rightarrow> bool \<Rightarrow> string list \<times> config" where
  "parseAndValidateS2STokens quoted c dev =
     (let text = trim_space (S2STokensRaw (Comms c)) in
      if text = []
      then ([''NOTIFICATION_S2S_TOKENS is required when comms is enabled (format: user-service:<tok>,...)''], c)
      else let (tokens, errs) = parse_tokens quoted dev text;
               errs = (if tokens = [] \<and> errs = []
                 then [''NOTIFICATION_S2S_TOKENS: at least one valid service-id:token pair is required''] else errs)
           in (errs, if errs = [] then c\<lparr>Comms := (Comms c)\<lparr>S2STokenMap := tokens\<rparr>\<rparr> else c))"

definition validateComms :: "(string \<Rightarrow> string) \<Rightarrow> config \<Rightarrow> string list \<times> config" where
  "validateComms quoted c =
     (if \<not> Enabled (Comms c) then ([], c)
      else let dev = IsDev c;
               emailProv = to_lower (trim_space (EmailProvider (Comms c)));
               smsProv = to_lower (trim_space (SMSProvider (Comms c)));
               e1 = (if emailProv \<notin> set validEmailProviders
                 then [''NOTIFICATION_EMAIL_PROVIDER must be smtp|ses|sendgrid|stub''] else []);
               e2 = (if smsProv \<notin> set validSMSProviders
                 then [''NOTIFICATION_SMS_PROVIDER must be stub|aws-sns|huawei|chunghwa''] else []);
               (e3, c') = parseAndValidateS2STokens quoted c dev;
               e4 = (if \<not> dev then validateCommsNonDev c' emailProv smsProv else [])
           in (e1 @ e2 @ e3 @ e4, c'))"

definition validate_basic :: "config \<Rightarrow> string list" where
  "validate_basic c =
     (if PostgresDSN c = [] then [''NOTIFICATION_POSTGRES_DSN is required''] else []) @
     (if Port c \<le> 0 \<or> Port c > 65535 then [''NOTIFICATION_PORT must be 1-65535''] else []) @
     (if to_upper (LogLevel c) \<notin> set [''DEBUG'', ''INFO'', ''WARN'', ''ERROR'']
      then [''NOTIFICATION_LOG_LEVEL must be DEBUG|INFO|WARN|ERROR''] else []) @
     (if to_lower (Env c) \<notin> set [''development'', ''production'', ''test'']
      then [''NOTIFICATION_ENV must be development|production|test''] else []) @
     (if PostgresSchema c \<noteq> [] \<and> \<not> schemaNameRe (PostgresSchema c)
      then [''NOTIFICATION_DB_SCHEMA must contain only [a-zA-Z0-9_] characters''] else []) @
     (if DBMaxConns c < 0 then [''NOTIFICATION_DB_MAX_CONNS must be >= 0 (0 = use default of 10)''] else []) @
     (if DBMinConns c < 0 then [''NOTIFICATION_DB_MIN_CONNS must be >= 0 (0 = use default of 2)''] else []) @
     (if DBMaxConns c > 0 \<and> DBMinConns c > 0 \<and> DBMinConns c > DBMaxConns c
      then [''NOTIFICATION_DB_MIN_CONNS must be <= NOTIFICATION_DB_MAX_CONNS''] else [])"

definition validate ::
  "(string \<Rightarrow> string) \<Rightarrow> (string \<Rightarrow> string + nat) \<Rightarrow> config \<Rightarrow> string option \<times> config" where
  "validate quoted parse_cidr c =
     (let (e5, c') = validateComms quoted c;
          errs = validate_basic c @ validateEventHMAC c @ validateGatewayHMAC c @
            validateGatewayCIDR parse_cidr c @ validateUserRateLimit c @ e5
      in (if errs \<noteq> [] then Some (''config validation failed: '' @ join ''; '' errs) else None, c'))"

subsection \<open>Loading\<close>

datatype default_value = D_Int int | D_String string | D_Bool bool | D_Duration int

definition bindings :: "(string \<times> string) list" where
  "bindings =
     [(''port'', ''NOTIFICATION_PORT''), (''postgres_dsn'', ''NOTIFICATION_POSTGRES_DSN''),
      (''postgres_schema'', ''NOTIFICATION_DB_SCHEMA''), (''db_max_conns'', ''NOTIFICATION_DB_MAX_CONNS''),
      (''db_min_conns'', ''NOTIFICATION_DB_MIN_CONNS''), (''redis_url'', ''NOTIFICATION_REDIS_URL''),
      (''log_level'', ''NOTIFICATION_LOG_LEVEL''), (''env'', ''NOTIFICATION_ENV''),
      (''event_hmac_secret'', ''EVENT_HMAC_SECRET''), (''gateway_hmac_secret'', ''NOTIFICATION_GATEWAY_HMAC_SECRET''),
      (''user_rate_limit_per_min'', ''NOTIFICATION_USER_RATE_LIMIT_PER_MIN''),
      (''user_rate_limit_burst'', ''NOTIFICATION_USER_RATE_LIMIT_BURST''), (''gateway_cidr'', ''NOTIFICATION_GATEWAY_CIDR''),
      (''comms_enabled'', ''NOTIFICATION_COMMS_ENABLED''), (''s2s_tokens_raw'', ''NOTIFICATION_S2S_TOKENS''),
      (''comms_send_timeout'', ''NOTIFICATION_COMMS_SEND_TIMEOUT''), (''email_provider'', ''NOTIFICATION_EMAIL_PROVIDER''),
      (''email_smtp_host'', ''NOTIFICATION_EMAIL_SMTP_HOST''), (''email_smtp_port'', ''NOTIFICATION_EMAIL_SMTP_PORT''),
      (''email_smtp_from'', ''NOTIFICATION_EMAIL_SMTP_FROM''), (''email_app_base_url'', ''NOTIFICATION_EMAIL_APP_BASE_URL''),
      (''email_smtp_username'', ''NOTIFICATION_EMAIL_SMTP_USERNAME''),
      (''email_smtp_password'', ''NOTIFICATION_EMAIL_SMTP_PASSWORD''), (''sms_provider'', ''NOTIFICATION_SMS_PROVIDER''),
      (''sms_sender_id'', ''NOTIFICATION_SMS_SENDER_ID''), (''sms_region'', ''NOTIFICATION_SMS_REGION''),
      (''sms_api_key'', ''NOTIFICATION_SMS_API_KEY''), (''sms_api_secret'', ''NOTIFICATION_SMS_API_SECRET'')]"

definition defaults :: "(string \<times> default_value) list" where
  "defaults = [(''port'', D_Int 8084), (''log_level'', D_String ''INFO''), (''env'', D_String ''development''),
     (''db_max_conns'', D_Int 10), (''db_min_conns'', D_Int 2), (''user_rate_limit_per_min'', D_Int 120),
     (''user_rate_limit_burst'', D_Int 20), (''comms_enabled'', D_Bool False),
     (''comms_send_timeout'', D_Duration (10 * second)), (''email_provider'', D_String ''stub''),
     (''sms_provider'', D_String ''stub'')]"

definition Load ::
  "(string \<Rightarrow> string) \<Rightarrow> (string \<Rightarrow> string + nat) \<Rightarrow>
   ((string \<times> string) list \<Rightarrow> (string \<times> default_value) list \<Rightarrow> string + config) \<Rightarrow> string + config" where
  "Load quoted parse_cidr viper =
     (case viper bindings defaults of
        Inl e \<Rightarrow> Inl (''unmarshal config: '' @ e)
      | Inr cfg \<Rightarrow> (case validate quoted parse_cidr cfg of
          (Some e, cfg') \<Rightarrow> Inl e
        | (None, cfg') \<Rightarrow> Inr cfg'))"

subsection \<open>The token map\<close>

definition token_ok :: "bool \<Rightarrow> string \<times> string \<Rightarrow> bool" where
  "token_ok dev = (\<lambda>(i, tok). i \<noteq> [] \<and> tok \<noteq> [] \<and> (dev \<or> 24 \<le> length tok))"

lemma token_entry_ok:
  assumes "token_entry quoted dev x (tokens, errs) = (tokens', errs')"
    and "list_all (token_ok dev) tokens" "distinct (map fst tokens)"
  shows "list_all (token_ok dev) tokens' \<and> distinct (map fst tokens') \<and> (\<exists>es. errs' = errs @ es)"
  using assms
  by (auto simp: token_entry_def token_ok_def minS2STokenLen_def Let_def map_of_eq_None_iff
      split: if_splits option.splits prod.splits)

lemma token_fold_ok:
  "fold (token_entry quoted dev) xs (tokens, errs) = (tokens', errs') \<Longrightarrow>
   list_all (token_ok dev) tokens \<Longrightarrow> distinct (map fst tokens) \<Longrightarrow>
   list_all (token_ok dev) tokens' \<and> distinct (map fst tokens') \<and> (\<exists>es. errs' = errs @ es)"
proof (induction xs arbitrary: tokens errs)
  case (Cons x xs)
  obtain t1 e1 where s: "token_entry quoted dev x (tokens, errs) = (t1, e1)" by force
  note ok = token_entry_ok [OF s Cons.prems(2,3)]
  have "fold (token_entry quoted dev) xs (t1, e1) = (tokens', errs')" using Cons.prems(1) s by simp
  from Cons.IH [OF this] ok show ?case by auto
qed simp

lemma parse_tokens_ok:
  "parse_tokens quoted dev text = (tokens, errs) \<Longrightarrow> list_all (token_ok dev) tokens \<and> distinct (map fst tokens)"
  using token_fold_ok [of quoted dev "split_on CHR '','' text" "[]" "[]" tokens errs]
  by (simp add: parse_tokens_def)

lemma parsed_config:
  assumes "parseAndValidateS2STokens quoted c dev = ([], c')"
  shows "S2STokenMap (Comms c') \<noteq> [] \<and> list_all (token_ok dev) (S2STokenMap (Comms c')) \<and>
    distinct (map fst (S2STokenMap (Comms c')))"
    "\<exists>m. c' = c\<lparr>Comms := (Comms c)\<lparr>S2STokenMap := m\<rparr>\<rparr>"
proof -
  obtain tokens errs where p: "parse_tokens quoted dev (trim_space (S2STokensRaw (Comms c))) = (tokens, errs)" by force
  have "tokens \<noteq> [] \<and> c' = c\<lparr>Comms := (Comms c)\<lparr>S2STokenMap := tokens\<rparr>\<rparr>"
    using assms p by (auto simp: parseAndValidateS2STokens_def Let_def split: if_splits)
  then show "S2STokenMap (Comms c') \<noteq> [] \<and> list_all (token_ok dev) (S2STokenMap (Comms c')) \<and>
      distinct (map fst (S2STokenMap (Comms c')))" "\<exists>m. c' = c\<lparr>Comms := (Comms c)\<lparr>S2STokenMap := m\<rparr>\<rparr>"
    using parse_tokens_ok [OF p] by auto
qed

text \<open>The text an operator writes for a list of services and tokens, and the conditions under which it reads
  back as that list: no separators where they would be read as such, no space at the ends.\<close>

definition token_text :: "(string \<times> string) list \<Rightarrow> string" where
  "token_text ps = join '','' (map (\<lambda>(i, tok). i @ CHR '':'' # tok) ps)"

definition plain_pair :: "bool \<Rightarrow> string \<times> string \<Rightarrow> bool" where
  "plain_pair dev = (\<lambda>(i, tok). i \<noteq> [] \<and> tok \<noteq> [] \<and> CHR '':'' \<notin> set i \<and> CHR '','' \<notin> set i \<union> set tok \<and>
     trim_space i = i \<and> trim_space tok = tok \<and> trim_space (i @ CHR '':'' # tok) = i @ CHR '':'' # tok \<and>
     (dev \<or> 24 \<le> length tok))"

lemma token_entry_plain:
  assumes "plain_pair dev (i, tok)" "i \<notin> fst ` set tokens"
  shows "token_entry quoted dev (i @ CHR '':'' # tok) (tokens, errs) = (tokens @ [(i, tok)], errs)"
  using assms
  by (auto simp: token_entry_def plain_pair_def cut_append minS2STokenLen_def map_of_eq_None_iff Let_def)

lemma token_fold_plain:
  "\<forall>p \<in> set ps. plain_pair dev p \<Longrightarrow> distinct (map fst (tokens @ ps)) \<Longrightarrow>
   fold (token_entry quoted dev) (map (\<lambda>(i, tok). i @ CHR '':'' # tok) ps) (tokens, errs) = (tokens @ ps, errs)"
proof (induction ps arbitrary: tokens)
  case (Cons p ps)
  obtain i tok where p: "p = (i, tok)" by (cases p)
  have "token_entry quoted dev (i @ CHR '':'' # tok) (tokens, errs) = (tokens @ [(i, tok)], errs)"
    by (rule token_entry_plain) (use Cons.prems p in auto)
  then show ?case using Cons.IH [of "tokens @ [(i, tok)]"] Cons.prems p by simp
qed simp

text \<open>C38. The service tokens read back as written: the text for any non-empty list of services with distinct
  ids parses to exactly that list without a message. And whatever text is accepted, its map is not empty,
  names no service twice, and holds no empty id, no empty token and, outside development, no token shorter
  than 24 bytes.\<close>

theorem s2s_tokens_roundtrip:
  assumes "\<forall>p \<in> set ps. plain_pair dev p" "distinct (map fst ps)" "ps \<noteq> []"
  shows "parse_tokens quoted dev (token_text ps) = (ps, []) \<and>
    (\<forall>c c'. parseAndValidateS2STokens quoted c dev = ([], c') \<longrightarrow>
       (let m = S2STokenMap (Comms c') in m \<noteq> [] \<and> distinct (map fst m) \<and>
         (\<forall>(i, tok) \<in> set m. i \<noteq> [] \<and> tok \<noteq> [] \<and> (dev \<or> 24 \<le> length tok))))"
proof (intro conjI allI impI)
  let ?xs = "map (\<lambda>(i, tok). i @ CHR '':'' # tok) ps"
  have "split_on CHR '','' (token_text ps) = ?xs"
    unfolding token_text_def by (rule split_on_join) (use assms(1,3) in \<open>auto simp: plain_pair_def\<close>)
  then show "parse_tokens quoted dev (token_text ps) = (ps, [])"
    using token_fold_plain [of ps dev "[]" quoted "[]"] assms by (simp add: parse_tokens_def)
next
  fix c c' assume "parseAndValidateS2STokens quoted c dev = ([], c')"
  from parsed_config(1) [OF this] show "let m = S2STokenMap (Comms c') in m \<noteq> [] \<and> distinct (map fst m) \<and>
      (\<forall>(i, tok) \<in> set m. i \<noteq> [] \<and> tok \<noteq> [] \<and> (dev \<or> 24 \<le> length tok))"
    by (auto simp: Let_def token_ok_def list_all_iff)
qed

lemma s2s_tokens_roundtrip_witness:
  "parse_tokens id True ''user-service:t:1,b:u'' = ([(''user-service'', ''t:1''), (''b'', ''u'')], [])"
proof -
  have a: "\<forall>p \<in> set [(''user-service'', ''t:1''), (''b'', ''u'')]. plain_pair True p"
    by (simp add: plain_pair_def ascii_eval)
  have "token_text [(''user-service'', ''t:1''), (''b'', ''u'')] = ''user-service:t:1,b:u''"
    by (simp add: token_text_def)
  with s2s_tokens_roundtrip [OF a, of id] show ?thesis by simp
qed

end
