(* ===== verification/Provider_Settings.thy ===== *)
theory Provider_Settings
  imports Comms_Types
begin

text \<open>
  The table of non-secret provider settings (\<open>internal/comms/provider/settings.go\<close> on
  \<open>migrations/000003\<close>), and the boundary it enforces: no key that looks like a credential is stored.

  \<open>encoding/json\<close> on a \<open>map[string]string\<close> is the record \<open>values_codec\<close>. A map is an association
  list without duplicate keys, whose order stands for the order in which the code ranges over it.
\<close>

record Settings =
  St_Channel :: string
  St_Provider :: string
  St_Enabled :: bool
  St_Values :: "(string \<times> string) list option"

record settings_row =
  sr_enabled :: bool
  sr_settings :: string
  sr_updated_at :: instant

type_synonym settings_table = "string \<times> string \<Rightarrow> settings_row option"

record values_codec =
  marshal_values :: "(string \<times> string) list \<Rightarrow> string + string"
  unmarshal_values :: "string \<Rightarrow> string + (string \<times> string) list option"

definition secretKeyFragments :: "string list" where
  "secretKeyFragments =
     [''password'', ''secret'', ''api_key'', ''apikey'', ''token'', ''credential'', ''private'']"

definition looksSecret :: "string \<Rightarrow> bool" where
  "looksSecret key = list_ex (\<lambda>frag. contains (to_lower key) frag) secretKeyFragments"

text \<open>Absent settings are \<open>(nil, nil)\<close>, here \<open>Inr None\<close>.\<close>

definition Get_Settings ::
  "values_codec \<Rightarrow> fault \<Rightarrow> string \<Rightarrow> string \<Rightarrow> settings_table \<Rightarrow> comms_error + Settings option" where
  "Get_Settings codec f channel name t =
     (case fst (db_exec f (\<lambda>t. (Inr (t (channel, name)), t)) t) of
        Inl m \<Rightarrow> Inl (foreign_error (''get provider settings: '' @ m))
      | Inr None \<Rightarrow> Inr None
      | Inr (Some row) \<Rightarrow>
          let out = \<lparr>St_Channel = channel, St_Provider = name, St_Enabled = sr_enabled row, St_Values = None\<rparr> in
          if sr_settings row \<noteq> []
          then (case unmarshal_values codec (sr_settings row) of
              Inl m \<Rightarrow> Inl (foreign_error (''decode provider settings json: '' @ m))
            | Inr vs \<Rightarrow> Inr (Some (out\<lparr>St_Values := vs\<rparr>)))
          else Inr (Some out))"

text \<open>The CHECK on the channel, and the column's own idea of the document.\<close>

definition settings_stmt ::
  "pg \<Rightarrow> instant \<Rightarrow> string \<Rightarrow> string \<Rightarrow> bool \<Rightarrow> string \<Rightarrow> settings_table \<Rightarrow> (string + unit) \<times> settings_table" where
  "settings_stmt pg db_now channel name enabled js t =
     (case pg_jsonb pg js of
        None \<Rightarrow> (Inl ''invalid input syntax for type json'', t)
      | Some js' \<Rightarrow>
          if channel \<notin> set [''EMAIL'', ''SMS'', ''PUSH'', ''INAPP'', ''LINE'']
          then (Inl ''new row violates check constraint comms_provider_settings_channel_check'', t)
          else (Inr (), t((channel, name) \<mapsto>
            \<lparr>sr_enabled = enabled, sr_settings = js', sr_updated_at = db_now\<rparr>)))"

definition Upsert_Settings ::
  "(string \<Rightarrow> string) \<Rightarrow> pg \<Rightarrow> values_codec \<Rightarrow> fault \<Rightarrow> instant \<Rightarrow> Settings \<Rightarrow> settings_table \<Rightarrow>
   (comms_error + unit) \<times> settings_table" where
  "Upsert_Settings quoted pg codec f db_now st t =
     (if \<not> Channel_Valid (St_Channel st)
      then (Inl (detailed ErrValidation (''invalid channel '' @ quoted (St_Channel st))), t)
      else if St_Provider st = [] then (Inl (detailed ErrValidation ''provider is required''), t)
      else (case List.find looksSecret (map fst (case St_Values st of None \<Rightarrow> [] | Some vs \<Rightarrow> vs)) of
          Some k \<Rightarrow> (Inl (detailed ErrValidation (''settings key '' @ quoted k @
            '' looks like a secret; secrets are env-only'')), t)
        | None \<Rightarrow>
            (case marshal_values codec (case St_Values st of None \<Rightarrow> [] | Some vs \<Rightarrow> vs) of
               Inl m \<Rightarrow> (Inl (foreign_error (''encode provider settings json: '' @ m)), t)
             | Inr rawJSON \<Rightarrow>
                 (case db_exec f (settings_stmt pg db_now (St_Channel st) (St_Provider st) (St_Enabled st) rawJSON) t of
                    (Inl m, t') \<Rightarrow> (Inl (foreign_error (''upsert provider settings: '' @ m)), t')
                  | (Inr u, t') \<Rightarrow> (Inr (), t')))))"

subsection \<open>No secrets\<close>

text \<open>Documented behaviour of the codec and the column: an encoding is not empty, and what decoding gives
  back has keys that were encoded, except that the codec replaces invalid UTF-8 by U+FFFD, as
  \<open>strings.ToLower\<close> does too.\<close>

definition values_law :: "pg \<Rightarrow> values_codec \<Rightarrow> bool" where
  "values_law pg codec \<longleftrightarrow> (\<forall>vs js js'. marshal_values codec vs = Inr js \<and> pg_jsonb pg js = Some js' \<longrightarrow>
     js' \<noteq> [] \<and> (\<exists>vs'. unmarshal_values codec js' = Inr (Some vs') \<and>
       (\<forall>k \<in> fst ` set vs'. \<exists>l \<in> fst ` set vs. to_lower k = to_lower l)))"

definition row_clean :: "values_codec \<Rightarrow> settings_row \<Rightarrow> bool" where
  "row_clean codec r \<longleftrightarrow> sr_settings r \<noteq> [] \<and>
     (\<exists>vs. unmarshal_values codec (sr_settings r) = Inr (Some vs) \<and> (\<forall>(k, v) \<in> set vs. \<not> looksSecret k))"

lemma upsert_settings_state:
  assumes "values_law pg codec"
  shows "snd (Upsert_Settings quoted pg codec f db_now st t) = t \<or>
    (\<exists>r. snd (Upsert_Settings quoted pg codec f db_now st t) = t((St_Channel st, St_Provider st) \<mapsto> r) \<and>
       row_clean codec r)"
proof -
  let ?vs = "case St_Values st of None \<Rightarrow> [] | Some vs \<Rightarrow> vs"
  let ?goal = "\<lambda>t'. t' = t \<or> (\<exists>r. t' = t((St_Channel st, St_Provider st) \<mapsto> r) \<and> row_clean codec r)"
  show ?thesis
  proof (cases "Channel_Valid (St_Channel st) \<and> St_Provider st \<noteq> [] \<and> List.find looksSecret (map fst ?vs) = None")
    case True
    show ?thesis
    proof (cases "marshal_values codec ?vs")
      case (Inr js)
      let ?stmt = "settings_stmt pg db_now (St_Channel st) (St_Provider st) (St_Enabled st) js"
      have clean: "\<forall>(k, v) \<in> set ?vs. \<not> looksSecret k" using True by (force simp: find_None_iff)
      have "?goal (snd (?stmt t))"
      proof (cases "pg_jsonb pg js")
        case (Some js')
        then obtain vs' where "js' \<noteq> []" "unmarshal_values codec js' = Inr (Some vs')"
            "\<forall>k \<in> fst ` set vs'. \<exists>l \<in> fst ` set ?vs. to_lower k = to_lower l"
          using assms Inr unfolding values_law_def by blast
        moreover from this have "\<forall>(k, v) \<in> set vs'. \<not> looksSecret k"
          using clean unfolding looksSecret_def by fastforce
        ultimately have "row_clean codec \<lparr>sr_enabled = e, sr_settings = js', sr_updated_at = u\<rparr>" for e u
          by (simp add: row_clean_def)
        then show ?thesis using Some by (auto simp: settings_stmt_def)
      qed (simp add: settings_stmt_def)
      then have "?goal (snd (db_exec f ?stmt t))" by (intro db_exec_inv [where P = ?goal]) simp_all
      moreover have "snd (Upsert_Settings quoted pg codec f db_now st t) = snd (db_exec f ?stmt t)"
        using True Inr by (auto simp: Upsert_Settings_def split: sum.splits prod.splits)
      ultimately show ?thesis by simp
    qed (use True in \<open>simp add: Upsert_Settings_def\<close>)
  qed (auto simp: Upsert_Settings_def split: option.splits)
qed

definition upsert_step ::
  "(string \<Rightarrow> string) \<Rightarrow> pg \<Rightarrow> values_codec \<Rightarrow> fault \<times> instant \<times> Settings \<Rightarrow> settings_table \<Rightarrow>
   (comms_error + unit) \<times> settings_table" where
  "upsert_step quoted pg codec = (\<lambda>(f, db_now, st). Upsert_Settings quoted pg codec f db_now st)"

text \<open>C37. No credential enters the settings table: after any upserts into an empty table, with any faults,
  whatever \<open>Get\<close> returns for any provider has no key that contains, in any case, one of the forbidden
  fragments; and an upsert with such a key is refused as a validation error with the table unchanged.\<close>

theorem settings_hold_no_secrets:
  assumes "values_law pg codec"
    and "Get_Settings codec f ch name (snd (run_steps (upsert_step quoted pg codec) ops Map.empty)) = Inr (Some st)"
  shows "(\<forall>vs. St_Values st = Some vs \<longrightarrow> (\<forall>(k, v) \<in> set vs. \<forall>frag \<in> set [''password'', ''secret'', ''api_key'',
        ''apikey'', ''token'', ''credential'', ''private'']. \<not> contains (to_lower k) frag)) \<and>
    (\<forall>vs k v g now st2 t. St_Values st2 = Some vs \<and> (k, v) \<in> set vs \<and> looksSecret k \<longrightarrow>
       (\<exists>e. Is e = ErrValidation \<and> Upsert_Settings quoted pg codec g now st2 t = (Inl e, t)))"
proof (intro conjI allI impI)
  let ?P = "\<lambda>t :: settings_table. \<forall>k r. t k = Some r \<longrightarrow> row_clean codec r"
  have step: "?P (snd (upsert_step quoted pg codec a t))" if p: "?P t" for a t
  proof -
    obtain g now st2 where a: "a = (g, now, st2)" by (cases a)
    show ?thesis using upsert_settings_state [OF assms(1), of quoted g now st2 t] p
      by (auto simp: a upsert_step_def split: if_splits)
  qed
  have "?P (snd (run_steps (upsert_step quoted pg codec) ops Map.empty))"
    by (rule run_steps_inv [where P = ?P, OF step]) simp_all
  then obtain r where r: "row_clean codec r" "Get_Settings codec f ch name
      (snd (run_steps (upsert_step quoted pg codec) ops Map.empty)) = Inr (Some st)"
    "snd (run_steps (upsert_step quoted pg codec) ops Map.empty) (ch, name) = Some r"
    using assms(2) by (cases f) (auto simp: Get_Settings_def split: option.splits)
  fix vs assume "St_Values st = Some vs"
  then have "\<forall>(k, v) \<in> set vs. \<not> looksSecret k"
    using r \<open>St_Values st = Some vs\<close> by (cases f) (simp_all add: Get_Settings_def row_clean_def, force)
  then show "\<forall>(k, v) \<in> set vs. \<forall>frag \<in> set [''password'', ''secret'', ''api_key'',
      ''apikey'', ''token'', ''credential'', ''private'']. \<not> contains (to_lower k) frag"
    unfolding looksSecret_def secretKeyFragments_def list_ex_iff by blast
next
  fix vs k v g now t and st2 :: Settings
  assume a: "St_Values st2 = Some vs \<and> (k, v) \<in> set vs \<and> looksSecret k"
  then have "k \<in> set (map fst vs)" "looksSecret k" by force+
  then have "List.find looksSecret (map fst vs) \<noteq> None" unfolding find_None_iff by blast
  then show "\<exists>e. Is e = ErrValidation \<and> Upsert_Settings quoted pg codec g now st2 t = (Inl e, t)"
    using a by (auto simp: Upsert_Settings_def detailed_def)
qed

text \<open>A codec of single entries for the witness: the value stands behind a separator no key contains.\<close>

definition one_codec :: values_codec where
  "one_codec = \<lparr>marshal_values = (\<lambda>vs. case vs of [(k, v)] \<Rightarrow>
       if CHR ''='' \<in> set k then Inl ''no'' else Inr (CHR ''{'' # k @ CHR ''='' # v) | _ \<Rightarrow> Inl ''no''),
     unmarshal_values = (\<lambda>s. case cut CHR ''='' (tl s) of None \<Rightarrow> Inl ''no'' | Some kv \<Rightarrow> Inr (Some [kv]))\<rparr>"

lemma one_codec_law: "values_law plain_pg one_codec"
  by (auto simp: values_law_def one_codec_def plain_pg_def cut_append split: list.splits if_splits)

definition region_settings :: Settings where
  "region_settings = \<lparr>St_Channel = ''SMS'', St_Provider = ''aws-sns'', St_Enabled = True,
     St_Values = Some [(''region'', ''eu'')]\<rparr>"

lemma region_not_secret: "\<not> looksSecret ''region''"
proof -
  have "to_lower ''region'' = ''region''" by (simp add: ascii_eval)
  moreover have "\<not> list_ex (\<lambda>frag. contains ''region'' frag) secretKeyFragments" by code_simp
  ultimately show ?thesis by (simp add: looksSecret_def)
qed

lemma settings_hold_no_secrets_witness:
  "\<exists>st. Get_Settings one_codec NoFault ''SMS'' ''aws-sns''
     (snd (run_steps (upsert_step id plain_pg one_codec) [(NoFault, 0, region_settings)] Map.empty)) = Inr (Some st) \<and>
     St_Values st = Some [(''region'', ''eu'')] \<and> \<not> contains (to_lower ''region'') ''secret''"
proof -
  let ?t = "snd (run_steps (upsert_step id plain_pg one_codec) [(NoFault, 0, region_settings)] Map.empty)"
  have "Upsert_Settings id plain_pg one_codec NoFault 0 region_settings Map.empty =
      (Inr (), Map.empty((''SMS'', ''aws-sns'') \<mapsto> \<lparr>sr_enabled = True, sr_settings = ''{region=eu'', sr_updated_at = 0\<rparr>))"
    by (simp add: Upsert_Settings_def region_settings_def Channel_Valid_def channel_defs region_not_secret one_codec_def
        settings_stmt_def plain_pg_def)
  then have "?t = Map.empty((''SMS'', ''aws-sns'') \<mapsto> \<lparr>sr_enabled = True, sr_settings = ''{region=eu'', sr_updated_at = 0\<rparr>)"
    by (simp add: upsert_step_def)
  then have g: "Get_Settings one_codec NoFault ''SMS'' ''aws-sns'' ?t = Inr (Some region_settings)"
    by (simp add: Get_Settings_def one_codec_def region_settings_def)
  from settings_hold_no_secrets [OF one_codec_law g] g show ?thesis by (auto simp: region_settings_def)
qed

end
