(* ===== verification/Boot.thy ===== *)
theory Boot
  imports Router Comms_Event Consumer Config Provider_Settings
begin

text \<open>
  How the service is put together (\<open>cmd/server/main.go\<close>, \<open>internal/store/postgres/pool.go\<close>,
  \<open>internal/platform/logger\<close>): from the configuration to the pool, the messaging module, the consumer and
  the router, and what a validated configuration guarantees of them.

  The record \<open>world\<close> holds what the process meets: the environment as \<open>viper\<close> reads it, the libraries'
  constructors (each answering with its error, if any) and the result of each call made at start. The
  signal handling and the shutdown, the goroutines and the flags are not modelled; the router's panic at a
  network it cannot parse ends the process like an error, and is \<open>Inl\<close> too.
\<close>

subsection \<open>Logging\<close>

datatype level = LevelDebug | LevelInfo | LevelWarn | LevelError

definition logger_New :: "string \<Rightarrow> level" where
  "logger_New level =
     (let l = to_upper level in
      if l = ''DEBUG'' then LevelDebug else if l = ''WARN'' then LevelWarn
      else if l = ''ERROR'' then LevelError else LevelInfo)"

type_synonym log_context = "string \<Rightarrow> string option"

definition WithRequestID :: "log_context \<Rightarrow> string \<Rightarrow> log_context" where
  "WithRequestID ctx i = ctx(''request_id'' \<mapsto> i)"

definition WithUserID :: "log_context \<Rightarrow> string \<Rightarrow> log_context" where
  "WithUserID ctx i = ctx(''user_id'' \<mapsto> i)"

definition FromContext :: "log_context \<Rightarrow> (string \<times> string) list" where
  "FromContext ctx =
     (case ctx ''request_id'' of None \<Rightarrow> [] | Some rid \<Rightarrow> if rid \<noteq> [] then [(''request_id'', rid)] else []) @
     (case ctx ''user_id'' of None \<Rightarrow> [] | Some uid \<Rightarrow> if uid \<noteq> [] then [(''user_id'', uid)] else [])"

lemma logged_ids:
  "i \<noteq> [] \<Longrightarrow> u \<noteq> [] \<Longrightarrow> FromContext (WithUserID (WithRequestID ctx i) u) = [(''request_id'', i), (''user_id'', u)]"
  by (simp add: FromContext_def WithUserID_def WithRequestID_def)

subsection \<open>The connection pool\<close>

text \<open>The conversion to \<open>int32\<close> keeps the low 32 bits.\<close>

definition int32 :: "int \<Rightarrow> int" where
  "int32 x = (x + 2 ^ 31) mod 2 ^ 32 - 2 ^ 31"

record PoolConfig =
  pc_MaxConns :: int
  pc_MinConns :: int

record pool =
  ps_MaxConns :: int
  ps_MinConns :: int
  ps_MaxConnLifetime :: int
  ps_MaxConnIdleTime :: int
  ps_HealthCheckPeriod :: int
  ps_AfterConnect :: "string option"

record pgx =
  px_ParseConfig :: "string \<Rightarrow> string option"
  px_Sanitize :: "string \<Rightarrow> string"
  px_NewWithConfig :: "pool \<Rightarrow> string option"
  px_Exec :: "string \<Rightarrow> string option"
  px_Ping :: "string option"

definition NewPool ::
  "(string \<Rightarrow> string) \<Rightarrow> pgx \<Rightarrow> string \<Rightarrow> string \<Rightarrow> PoolConfig option \<Rightarrow> string + pool" where
  "NewPool quoted px dsn schema opts =
     (case px_ParseConfig px dsn of
        Some m \<Rightarrow> Inl (''parse pgx config: '' @ m)
      | None \<Rightarrow>
          let pc = (case opts of None \<Rightarrow> \<lparr>pc_MaxConns = 0, pc_MinConns = 0\<rparr> | Some o1 \<Rightarrow> o1);
              cfg = \<lparr>ps_MaxConns = (if pc_MaxConns pc > 0 then pc_MaxConns pc else 10),
                ps_MinConns = (if pc_MinConns pc > 0 then pc_MinConns pc else 2),
                ps_MaxConnLifetime = 30 * minute, ps_MaxConnIdleTime = 5 * minute, ps_HealthCheckPeriod = minute,
                ps_AfterConnect = (if schema \<noteq> [] then Some (''SET search_path = '' @ px_Sanitize px schema) else None)\<rparr>
          in case px_NewWithConfig px cfg of
               Some m \<Rightarrow> Inl (''create pgxpool: '' @ m)
             | None \<Rightarrow>
                 (case (if schema \<noteq> [] then px_Exec px (''CREATE SCHEMA IF NOT EXISTS '' @ px_Sanitize px schema) else None) of
                    Some m \<Rightarrow> Inl (''create schema '' @ quoted schema @ '': '' @ m)
                  | None \<Rightarrow> (case px_Ping px of
                      Some m \<Rightarrow> Inl (''ping postgres: '' @ m)
                    | None \<Rightarrow> Inr cfg)))"

lemma NewPool_limits:
  assumes "NewPool quoted px dsn schema (Some pc) = Inr p"
  shows "ps_MaxConns p = (if pc_MaxConns pc > 0 then pc_MaxConns pc else 10)"
    "ps_MinConns p = (if pc_MinConns pc > 0 then pc_MinConns pc else 2)"
  using assms by (auto simp: NewPool_def Let_def split: option.splits)

subsection \<open>The messaging module\<close>

definition email_config_of :: "config \<Rightarrow> email_config" where
  "email_config_of cfg = (let c = Comms cfg in \<lparr>EC_Provider = EmailProvider c, EC_Host = EmailSMTPHost c,
     EC_Port = EmailSMTPPort c, EC_Username = EmailSMTPUser c, EC_Password = EmailSMTPPass c, EC_From = EmailFrom c,
     EC_AppBaseURL = EmailAppBaseURL c, EC_SendTimeout = SendTimeout c\<rparr>)"

definition sms_config_of :: "config \<Rightarrow> sms_config" where
  "sms_config_of cfg = (let c = Comms cfg in \<lparr>SC_Provider = SMSProvider c, SC_SenderID = SMSSenderID c,
     SC_Region = SMSRegion c, SC_APIKey = SMSAPIKey c, SC_APISecret = SMSAPISecret c, SC_SendTimeout = SendTimeout c\<rparr>)"

definition buildCommsService ::
  "(string \<Rightarrow> string) \<Rightarrow> (string \<Rightarrow> mail_option list \<Rightarrow> string option) \<Rightarrow> instant \<Rightarrow> fault list \<Rightarrow> config \<Rightarrow>
   template_table \<Rightarrow> (string + comms_service) \<times> template_table" where
  "buildCommsService quoted new_client db_now faults cfg t =
     (case Seed quoted db_now faults t of
        (Inl e, t') \<Rightarrow> (Inl (''seed comms templates: '' @ ErrorText e), t')
      | (Inr u, t') \<Rightarrow>
          (case NewEmailSender quoted new_client (email_config_of cfg) of
             Inl e \<Rightarrow> (Inl (''init email sender: '' @ ErrorText e), t')
           | Inr emailSnd \<Rightarrow> (case NewSMSSender quoted (sms_config_of cfg) of
               Inl e \<Rightarrow> (Inl (''init sms sender: '' @ ErrorText e), t')
             | Inr smsSnd \<Rightarrow> (Inr (NewService \<lparr>d_emailSender = Some emailSnd, d_smsSender = Some smsSnd,
                 d_EmailProvider = EmailProvider (Comms cfg), d_SMSProvider = SMSProvider (Comms cfg),
                 d_SendTimeout = SendTimeout (Comms cfg)\<rparr>), t'))))"

subsection \<open>Starting the service\<close>

record ('r, 'c, 'b) world =
  w_quoted :: "string \<Rightarrow> string"
  w_parse_cidr :: "string \<Rightarrow> string + nat"
  w_viper :: "(string \<times> string) list \<Rightarrow> (string \<times> default_value) list \<Rightarrow> string + config"
  w_pgx :: pgx
  w_parse_redis :: "string \<Rightarrow> string option"
  w_redis :: "'r redis"
  w_redis_ping :: "string option"
  w_new_client :: "string \<Rightarrow> mail_option list \<Rightarrow> string option"
  w_db_now :: instant
  w_seed_faults :: "fault list"
  w_set_trusted :: "string list \<Rightarrow> string option"
  w_limiter :: "('c, 'b) limiter_lib"
  w_comms_lib :: comms_lib
  w_codec :: event_codec

record 'r started =
  st_config :: config
  st_level :: level
  st_pool :: pool
  st_consumer :: "(send_env \<times> instant, comms_state) consumer"
  st_router :: "'r engine"
  st_addr :: string
  st_ReadTimeout :: int
  st_WriteTimeout :: int
  st_IdleTimeout :: int

text \<open>A Redis that does not answer its ping is not used.\<close>

definition connect_redis :: "('r, 'c, 'b) world \<Rightarrow> config \<Rightarrow> string + 'r redis option" where
  "connect_redis w cfg =
     (if RedisURL cfg = [] then Inr None
      else (case w_parse_redis w (RedisURL cfg) of
          Some m \<Rightarrow> Inl (''parse redis url: '' @ m)
        | None \<Rightarrow> Inr (if w_redis_ping w \<noteq> None then None else Some (w_redis w))))"

definition connect_comms ::
  "('r, 'c, 'b) world \<Rightarrow> config \<Rightarrow> template_table \<Rightarrow> (string + comms_service option) \<times> template_table" where
  "connect_comms w cfg t =
     (if \<not> Enabled (Comms cfg) then (Inr None, t)
      else (case buildCommsService (w_quoted w) (w_new_client w) (w_db_now w) (w_seed_faults w) cfg t of
          (Inl m, t') \<Rightarrow> (Inl (''init comms module: '' @ m), t')
        | (Inr svc, t') \<Rightarrow> (Inr (Some svc), t')))"

definition consumer_of ::
  "('r, 'c, 'b) world \<Rightarrow> config \<Rightarrow> 'r redis option \<Rightarrow> comms_service option \<Rightarrow>
   (send_env \<times> instant, comms_state) consumer" where
  "consumer_of w cfg rdb svc = (case svc of
     Some s \<Rightarrow> NewConsumerWithComms (rdb \<noteq> None)
       (comms_handler (w_comms_lib w) (w_codec w) (NewEventHandler s (EventHMACSecret cfg))) (EventHMACSecret cfg)
   | None \<Rightarrow> NewConsumer (rdb \<noteq> None) (EventHMACSecret cfg))"

definition router_config_of :: "config \<Rightarrow> 'r redis option \<Rightarrow> comms_service option \<Rightarrow> 'r router_config" where
  "router_config_of cfg rdb svc = \<lparr>rc_WaitlistStore = True, rc_Redis = rdb,
     rc_GatewayHMACSecret = GatewayHMACSecret cfg, rc_UserRateLimitPerMin = UserRateLimitPerMin cfg,
     rc_UserRateLimitBurst = UserRateLimitBurst cfg, rc_GatewayCIDR = GatewayCIDR cfg, rc_CommsService = svc,
     rc_S2STokenMap = S2STokenMap (Comms cfg)\<rparr>"

definition run :: "('r, 'c, 'b) world \<Rightarrow> template_table \<Rightarrow> (string + 'r started) \<times> template_table" where
  "run w t =
     (case Load (w_quoted w) (w_parse_cidr w) (w_viper w) of
        Inl m \<Rightarrow> (Inl (''load config: '' @ m), t)
      | Inr cfg \<Rightarrow>
          (case NewPool (w_quoted w) (w_pgx w) (PostgresDSN cfg) (PostgresSchema cfg)
              (Some \<lparr>pc_MaxConns = int32 (DBMaxConns cfg), pc_MinConns = int32 (DBMinConns cfg)\<rparr>) of
             Inl m \<Rightarrow> (Inl (''connect postgres: '' @ m), t)
           | Inr pool \<Rightarrow> (case connect_redis w cfg of
               Inl m \<Rightarrow> (Inl m, t)
             | Inr rdb \<Rightarrow> (case connect_comms w cfg t of
                 (Inl m, t') \<Rightarrow> (Inl m, t')
               | (Inr svc, t') \<Rightarrow> (case NewRouter (w_limiter w) (w_set_trusted w) (router_config_of cfg rdb svc) of
                   Inl m \<Rightarrow> (Inl m, t')
                 | Inr en \<Rightarrow> (Inr \<lparr>st_config = cfg, st_level = logger_New (LogLevel cfg), st_pool = pool,
                     st_consumer = consumer_of w cfg rdb svc, st_router = en, st_addr = CHR '':'' # itoa (Port cfg),
                     st_ReadTimeout = 10 * second, st_WriteTimeout = 30 * second, st_IdleTimeout = 60 * second\<rparr>, t'))))))"

text \<open>The container's health check: the port, as written, and the status of the answer.\<close>

definition runHealthCheck :: "string \<Rightarrow> (string \<Rightarrow> string + nat) \<Rightarrow> string option" where
  "runHealthCheck port get =
     (let url = ''http://127.0.0.1:'' @ (if port = [] then ''8084'' else port) @ ''/healthz'' in
      case get url of
        Inl m \<Rightarrow> Some (''GET '' @ url @ '': '' @ m)
      | Inr status \<Rightarrow> if status \<noteq> 200 then Some (''unexpected status '' @ dec status @ '' from '' @ url) else None)"

subsection \<open>What validation leaves\<close>

lemma comms_config:
  assumes "validateComms quoted c = (e, cfg)" "e = []"
  shows "\<exists>m. cfg = c\<lparr>Comms := (Comms c)\<lparr>S2STokenMap := m\<rparr>\<rparr>"
proof (cases "Enabled (Comms c)")
  case True
  then have "parseAndValidateS2STokens quoted c (IsDev c) = ([], cfg)"
    using assms by (auto simp: validateComms_def Let_def split: prod.splits if_splits)
  then show ?thesis by (rule parsed_config(2))
next
  case False
  then have "cfg = c\<lparr>Comms := (Comms c)\<lparr>S2STokenMap := S2STokenMap (Comms c)\<rparr>\<rparr>"
    using assms(1) by (simp add: validateComms_def)
  then show ?thesis by blast
qed

lemma validated:
  assumes "validate quoted parse_cidr c = (None, cfg)"
  shows "validate_basic cfg = []" "validateEventHMAC cfg = []" "validateGatewayHMAC cfg = []"
    "validateGatewayCIDR parse_cidr cfg = []" "validateUserRateLimit cfg = []"
    "Enabled (Comms cfg) \<Longrightarrow> to_lower (trim_space (EmailProvider (Comms cfg))) \<in> set validEmailProviders \<and>
       to_lower (trim_space (SMSProvider (Comms cfg))) \<in> set validSMSProviders \<and>
       (\<not> IsDev cfg \<longrightarrow> validateCommsNonDev cfg (to_lower (trim_space (EmailProvider (Comms cfg))))
         (to_lower (trim_space (SMSProvider (Comms cfg)))) = []) \<and>
       S2STokenMap (Comms cfg) \<noteq> [] \<and> distinct (map fst (S2STokenMap (Comms cfg))) \<and>
       list_all (token_ok (IsDev cfg)) (S2STokenMap (Comms cfg))"
proof -
  obtain e5 where v: "validateComms quoted c = (e5, cfg)" "e5 = []" "validate_basic c = []" "validateEventHMAC c = []"
    "validateGatewayHMAC c = []" "validateGatewayCIDR parse_cidr c = []" "validateUserRateLimit c = []"
    using assms by (auto simp: validate_def Let_def split: prod.splits if_splits)
  obtain m where m: "cfg = c\<lparr>Comms := (Comms c)\<lparr>S2STokenMap := m\<rparr>\<rparr>"
    using comms_config [OF v(1,2)] by blast
  have "validate_basic cfg = validate_basic c" "validateEventHMAC cfg = validateEventHMAC c"
    "validateGatewayHMAC cfg = validateGatewayHMAC c" "validateGatewayCIDR parse_cidr cfg = validateGatewayCIDR parse_cidr c"
    "validateUserRateLimit cfg = validateUserRateLimit c"
    by (simp_all add: m validate_basic_def validateEventHMAC_def validateGatewayHMAC_def validateGatewayCIDR_def
        validateUserRateLimit_def IsDev_def)
  then show "validate_basic cfg = []" "validateEventHMAC cfg = []" "validateGatewayHMAC cfg = []"
    "validateGatewayCIDR parse_cidr cfg = []" "validateUserRateLimit cfg = []"
    using v by simp_all
  assume "Enabled (Comms cfg)"
  then have "Enabled (Comms c)" by (simp add: m)
  then obtain e3 where p: "parseAndValidateS2STokens quoted c (IsDev c) = (e3, cfg)" "e3 = []"
    and rest: "to_lower (trim_space (EmailProvider (Comms c))) \<in> set validEmailProviders"
      "to_lower (trim_space (SMSProvider (Comms c))) \<in> set validSMSProviders"
      "\<not> IsDev c \<longrightarrow> validateCommsNonDev cfg (to_lower (trim_space (EmailProvider (Comms c))))
         (to_lower (trim_space (SMSProvider (Comms c)))) = []"
    using v(1,2) by (auto simp: validateComms_def Let_def split: prod.splits if_splits)
  have "IsDev c = IsDev cfg" by (simp add: m IsDev_def)
  then show "to_lower (trim_space (EmailProvider (Comms cfg))) \<in> set validEmailProviders \<and>
       to_lower (trim_space (SMSProvider (Comms cfg))) \<in> set validSMSProviders \<and>
       (\<not> IsDev cfg \<longrightarrow> validateCommsNonDev cfg (to_lower (trim_space (EmailProvider (Comms cfg))))
         (to_lower (trim_space (SMSProvider (Comms cfg)))) = []) \<and>
       S2STokenMap (Comms cfg) \<noteq> [] \<and> distinct (map fst (S2STokenMap (Comms cfg))) \<and>
       list_all (token_ok (IsDev cfg)) (S2STokenMap (Comms cfg))"
    using parsed_config(1) [OF p(1) [unfolded p(2)]] rest by (simp add: m)
qed

definition real_email :: "email_sender \<Rightarrow> bool" where
  "real_email s \<longleftrightarrow> (case s of DevLogSender \<Rightarrow> False
     | SMTPSender c \<Rightarrow> trim_space (EC_Host c) \<noteq> [] \<and> trim_space (EC_From c) \<noteq> [] | _ \<Rightarrow> True)"

definition real_sms :: "sms_sender \<Rightarrow> bool" where
  "real_sms s \<longleftrightarrow> (case s of StubSender \<Rightarrow> False | SpySender e \<Rightarrow> False | _ \<Rightarrow> True)"

lemma nondev_providers:
  assumes "validateCommsNonDev cfg e s = []"
  shows "e \<noteq> []" "e \<noteq> ''stub''" "s \<noteq> []" "s \<noteq> ''stub''"
  using assms by (auto simp: validateCommsNonDev_def split: if_splits)

lemma built_senders:
  assumes "fst (buildCommsService quoted new_client db_now faults cfg t) = Inr svc"
    and "validateCommsNonDev cfg (to_lower (trim_space (EmailProvider (Comms cfg))))
      (to_lower (trim_space (SMSProvider (Comms cfg)))) = []"
  shows "\<exists>e s. emailSender svc = Some e \<and> real_email e \<and> smsSender svc = Some s \<and> real_sms s"
proof -
  obtain e s where n: "NewEmailSender quoted new_client (email_config_of cfg) = Inr e"
    "NewSMSSender quoted (sms_config_of cfg) = Inr s" "emailSender svc = Some e" "smsSender svc = Some s"
    using assms(1) by (auto simp: buildCommsService_def NewService_def split: sum.splits prod.splits)
  have "real_email e" using n(1) nondev_providers [OF assms(2)]
    by (auto simp: NewEmailSender_def NewSMTPSender_def email_config_of_def real_email_def Let_def split: if_splits option.splits)
  moreover have "real_sms s" using n(2) nondev_providers [OF assms(2)]
    by (auto simp: NewSMSSender_def newSNSSender_def newHuaweiSender_def newChunghwaSender_def sms_config_of_def
        real_sms_def Let_def split: if_splits)
  ultimately show ?thesis using n by blast
qed

lemma started_parts:
  assumes "fst (run w t) = Inr st"
  obtains c rdb svc where "validate (w_quoted w) (w_parse_cidr w) c = (None, st_config st)"
    "fst (connect_comms w (st_config st) t) = Inr svc"
    "NewPool (w_quoted w) (w_pgx w) (PostgresDSN (st_config st)) (PostgresSchema (st_config st))
       (Some \<lparr>pc_MaxConns = int32 (DBMaxConns (st_config st)), pc_MinConns = int32 (DBMinConns (st_config st))\<rparr>) = Inr (st_pool st)"
    "NewRouter (w_limiter w) (w_set_trusted w) (router_config_of (st_config st) rdb svc) = Inr (st_router st)"
    "st_consumer st = consumer_of w (st_config st) rdb svc"
  using assms by (auto simp: run_def Load_def split: sum.splits prod.splits option.splits)

lemma router_parts:
  assumes "NewRouter lib trust cfg = Inr en"
  shows "en_config en = cfg" "en_routes en = route_table cfg"
    "en_trusted en = (if rc_GatewayCIDR cfg \<noteq> [] then [rc_GatewayCIDR cfg] else [])"
  using assms by (auto simp: NewRouter_def Let_def split: if_splits option.splits)

text \<open>C8. A service that starts outside development is locked. Its gateway secret has at least 32 bytes; the
  secret that authenticates events has at least 32 without its surrounding space and is not the published
  development value; it trusts no proxy or one network that is not everything. If the messaging module runs, its
  senders are real (no stub that reports success and sends nothing; SMTP with a host and a sender), and every
  caller has an id and a token of at least 24 bytes. If it does not run, there is no messaging route and the
  consumer does not subscribe to the messaging channel.\<close>

theorem production_boot_is_locked:
  assumes "fst (run w t) = Inr st" "\<not> IsDev (st_config st)"
  shows "32 \<le> length (rc_GatewayHMACSecret (en_config (st_router st))) \<and>
    32 \<le> length (trim_space (kycHMACSecret (st_consumer st))) \<and>
    trim_space (kycHMACSecret (st_consumer st)) \<noteq> ''dev-shared-event-hmac-secret-min32-0123456789'' \<and>
    (\<forall>p \<in> set (en_trusted (st_router st)). \<exists>n. w_parse_cidr w p = Inr n \<and> n \<noteq> 0) \<and>
    (case rc_CommsService (en_config (st_router st)) of
       Some svc \<Rightarrow> (\<exists>e s. emailSender svc = Some e \<and> real_email e \<and> smsSender svc = Some s \<and> real_sms s) \<and>
         (let m = rc_S2STokenMap (en_config (st_router st)) in m \<noteq> [] \<and> distinct (map fst m) \<and>
           (\<forall>(i, tok) \<in> set m. i \<noteq> [] \<and> 24 \<le> length tok))
     | None \<Rightarrow> (\<forall>(m, p, e) \<in> set (en_routes (st_router st)). \<not> is_comms e) \<and>
         channels (st_consumer st) = inboxChannels)"
proof -
  let ?cfg = "st_config st"
  obtain c rdb svc where v: "validate (w_quoted w) (w_parse_cidr w) c = (None, ?cfg)"
    and svc: "fst (connect_comms w ?cfg t) = Inr svc"
    and router: "NewRouter (w_limiter w) (w_set_trusted w) (router_config_of ?cfg rdb svc) = Inr (st_router st)"
    and consumer: "st_consumer st = consumer_of w ?cfg rdb svc"
    by (rule started_parts [OF assms(1)])
  note ok = validated [OF v] and parts = router_parts [OF router]
  have "32 \<le> length (GatewayHMACSecret ?cfg)"
    using ok(3) assms(2) by (auto simp: validateGatewayHMAC_def minHMACSecretLen_def split: if_splits)
  moreover have "32 \<le> length (trim_space (EventHMACSecret ?cfg))"
    "trim_space (EventHMACSecret ?cfg) \<noteq> ''dev-shared-event-hmac-secret-min32-0123456789''"
    using ok(2) assms(2) unfolding validateEventHMAC_def minHMACSecretLen_def devEventHMACSecret_def
    by (auto simp: Let_def split: if_splits)
  moreover have "GatewayCIDR ?cfg \<noteq> [] \<Longrightarrow> \<exists>n. w_parse_cidr w (GatewayCIDR ?cfg) = Inr n \<and> n \<noteq> 0"
    using ok(4) by (auto simp: validateGatewayCIDR_def split: if_splits sum.splits)
  moreover have "case svc of
       Some s \<Rightarrow> (\<exists>e k. emailSender s = Some e \<and> real_email e \<and> smsSender s = Some k \<and> real_sms k) \<and>
         (let m = S2STokenMap (Comms ?cfg) in m \<noteq> [] \<and> distinct (map fst m) \<and>
           (\<forall>(i, tok) \<in> set m. i \<noteq> [] \<and> 24 \<le> length tok))
     | None \<Rightarrow> True"
  proof (cases svc)
    case (Some s)
    then have en: "Enabled (Comms ?cfg)" and b: "fst (buildCommsService (w_quoted w) (w_new_client w) (w_db_now w)
        (w_seed_faults w) ?cfg t) = Inr s"
      using svc by (auto simp: connect_comms_def split: if_splits sum.splits prod.splits)
    from ok(6) [OF en] assms(2) built_senders [OF b] show ?thesis
      by (auto simp: Some Let_def token_ok_def list_all_iff)
  qed simp
  ultimately show ?thesis
    by (cases svc) (auto simp: parts consumer consumer_of_def new_consumer_defs router_config_of_def route_table_def channels_def Let_def)
qed

definition sample_secret :: string where
  "sample_secret = ''0123456789abcdef0123456789abcdef''"

definition prod_config :: config where
  "prod_config = \<lparr>Port = 8084, PostgresDSN = ''d'', PostgresSchema = [], DBMaxConns = 1, DBMinConns = 0, RedisURL = [],
     LogLevel = ''INFO'', Env = ''production'', EventHMACSecret = sample_secret, GatewayHMACSecret = sample_secret,
     UserRateLimitPerMin = 120, UserRateLimitBurst = 20, GatewayCIDR = ''10.0.0.0/16'',
     Comms = \<lparr>Enabled = True, S2STokensRaw = ''u:abcdefghijklmnopqrstuvwxyz'', S2STokenMap = [], SendTimeout = 0,
       EmailProvider = ''ses'', EmailSMTPHost = [], EmailSMTPPort = 0, EmailFrom = [], EmailAppBaseURL = [],
       EmailSMTPUser = [], EmailSMTPPass = [], SMSProvider = ''aws-sns'', SMSSenderID = [], SMSRegion = ''eu'',
       SMSAPIKey = [], SMSAPISecret = []\<rparr>\<rparr>"

lemma prod_ascii:
  "trim_space sample_secret = sample_secret" "trim_space ''u:abcdefghijklmnopqrstuvwxyz'' = ''u:abcdefghijklmnopqrstuvwxyz''"
  "trim_space ''u'' = ''u''" "trim_space ''abcdefghijklmnopqrstuvwxyz'' = ''abcdefghijklmnopqrstuvwxyz''"
  "to_lower (trim_space ''ses'') = ''ses''" "to_lower (trim_space ''aws-sns'') = ''aws-sns''"
  "to_lower ''production'' = ''production''"
  by (simp_all add: sample_secret_def ascii_eval)

lemma prod_more: "to_upper ''INFO'' = ''INFO''" "\<not> equal_fold ''production'' ''development''"
  by (simp_all add: to_upper_def upper_rune_def equal_fold_def fold_rune_def ascii_eval)

definition prod_world :: "(unit, unit, unit) world" where
  "prod_world = \<lparr>w_quoted = id, w_parse_cidr = (\<lambda>_. Inr 16), w_viper = (\<lambda>_ _. Inr prod_config),
     w_pgx = \<lparr>px_ParseConfig = (\<lambda>_. None), px_Sanitize = id, px_NewWithConfig = (\<lambda>_. None), px_Exec = (\<lambda>_. None),
       px_Ping = None\<rparr>, w_parse_redis = (\<lambda>_. None),
     w_redis = \<lparr>r_SetNX = (\<lambda>_ _ _ r. (Inr True, r)), r_IncrExpireNX = (\<lambda>_ _ _ r. (Inr 1, r))\<rparr>, w_redis_ping = None,
     w_new_client = (\<lambda>_ _. None), w_db_now = 0, w_seed_faults = [NoFault, NoFault, NoFault], w_set_trusted = (\<lambda>_. None),
     w_limiter = no_buckets, w_comms_lib = sample_lib, w_codec = plain_codec\<rparr>"

lemma prod_loads:
  "\<exists>cfg. Load id (\<lambda>_. Inr 16) (\<lambda>_ _. Inr prod_config) = Inr cfg \<and>
     cfg = prod_config\<lparr>Comms := (Comms prod_config)\<lparr>S2STokenMap := [(''u'', ''abcdefghijklmnopqrstuvwxyz'')]\<rparr>\<rparr>"
proof -
  have dev: "\<not> IsDev prod_config" by (simp add: IsDev_def prod_config_def prod_more)
  have "parse_tokens id False ''u:abcdefghijklmnopqrstuvwxyz'' = ([(''u'', ''abcdefghijklmnopqrstuvwxyz'')], [])"
    by (simp add: parse_tokens_def token_entry_def Let_def prod_ascii minS2STokenLen_def)
  then have "parseAndValidateS2STokens id prod_config False =
      ([], prod_config\<lparr>Comms := (Comms prod_config)\<lparr>S2STokenMap := [(''u'', ''abcdefghijklmnopqrstuvwxyz'')]\<rparr>\<rparr>)"
    by (simp add: parseAndValidateS2STokens_def prod_config_def prod_ascii)
  then have "validateComms id prod_config =
      ([], prod_config\<lparr>Comms := (Comms prod_config)\<lparr>S2STokenMap := [(''u'', ''abcdefghijklmnopqrstuvwxyz'')]\<rparr>\<rparr>)"
    using dev by (simp add: validateComms_def prod_config_def prod_ascii validEmailProviders_def validSMSProviders_def
        validateCommsNonDev_def)
  moreover have "validate_basic prod_config = []"
    by (simp add: validate_basic_def prod_config_def prod_more prod_ascii)
  moreover have "validateEventHMAC prod_config = []" "validateGatewayHMAC prod_config = []"
    using dev by (simp_all add: validateEventHMAC_def validateGatewayHMAC_def prod_config_def prod_ascii Let_def
        minHMACSecretLen_def devEventHMACSecret_def) (simp_all add: sample_secret_def)
  moreover have "validateGatewayCIDR (\<lambda>_. Inr 16) prod_config = []" "validateUserRateLimit prod_config = []"
    by (simp_all add: validateGatewayCIDR_def validateUserRateLimit_def prod_config_def)
  ultimately show ?thesis by (simp add: Load_def validate_def)
qed

lemma prod_seeds: "\<exists>t. Seed id 0 [NoFault, NoFault, NoFault] Map.empty = (Inr (), t)"
  by (simp add: Seed_def DefaultTemplates_def Upsert_def upsert_stmt_def Channel_Valid_def channel_defs
      email_verify_body_def password_reset_body_def phone_otp_body_def Let_def)

lemma prod_starts_with:
  "\<exists>st svc. fst (run (prod_world\<lparr>w_codec := codec\<rparr>) Map.empty) = Inr st \<and> \<not> IsDev (st_config st) \<and> DBMaxConns (st_config st) = 1 \<and>
     DBMinConns (st_config st) = 0 \<and> rc_CommsService (en_config (st_router st)) = Some svc \<and>
     commsHandler (st_consumer st) = Some (comms_handler sample_lib codec (NewEventHandler svc sample_secret)) \<and>
     EventHMACSecret (st_config st) = sample_secret"
proof -
  let ?w = "prod_world\<lparr>w_codec := codec\<rparr>"
  let ?cfg = "prod_config\<lparr>Comms := (Comms prod_config)\<lparr>S2STokenMap := [(''u'', ''abcdefghijklmnopqrstuvwxyz'')]\<rparr>\<rparr>"
  have load: "Load (w_quoted ?w) (w_parse_cidr ?w) (w_viper ?w) = Inr ?cfg"
    using prod_loads by (simp add: prod_world_def)
  obtain pool where pool: "NewPool (w_quoted ?w) (w_pgx ?w) (PostgresDSN ?cfg) (PostgresSchema ?cfg)
      (Some \<lparr>pc_MaxConns = int32 (DBMaxConns ?cfg), pc_MinConns = int32 (DBMinConns ?cfg)\<rparr>) = Inr pool"
    by (simp add: NewPool_def prod_world_def prod_config_def Let_def)
  have redis: "connect_redis ?w ?cfg = Inr None" by (simp add: connect_redis_def prod_config_def)
  obtain t where seed: "Seed id 0 [NoFault, NoFault, NoFault] Map.empty = (Inr (), t)" using prod_seeds by blast
  have "to_lower (trim_space ''ses'') = ''ses''" "to_lower (trim_space ''aws-sns'') = ''aws-sns''" by (fact prod_ascii)+
  then obtain svc where svc: "connect_comms ?w ?cfg Map.empty = (Inr (Some svc), t)"
    using seed by (simp add: connect_comms_def buildCommsService_def prod_world_def prod_config_def NewEmailSender_def
        NewSMSSender_def newSNSSender_def email_config_of_def sms_config_of_def Let_def)
  have "\<exists>en. NewRouter (w_limiter ?w) (w_set_trusted ?w) (router_config_of ?cfg (None :: unit redis option) (Some svc)) = Inr en"
    by (simp add: NewRouter_def Let_def prod_world_def)
  then obtain en where en: "NewRouter (w_limiter ?w) (w_set_trusted ?w)
      (router_config_of ?cfg (None :: unit redis option) (Some svc)) = Inr en" by blast
  have facts: "\<not> IsDev ?cfg" "DBMaxConns ?cfg = 1" "DBMinConns ?cfg = 0" "EventHMACSecret ?cfg = sample_secret"
    by (simp_all add: IsDev_def prod_config_def prod_more)
  define cfg where "cfg = ?cfg"
  note parts = load pool redis svc en facts
  note parts = parts [folded cfg_def]
  have "rc_CommsService (en_config en) = Some svc"
    unfolding router_parts(1) [OF en] by (simp add: router_config_of_def)
  moreover have "w_comms_lib ?w = sample_lib" "w_codec ?w = codec" by (simp_all add: prod_world_def)
  ultimately show ?thesis using parts by (simp add: run_def consumer_of_def new_consumer_defs)
qed

lemma prod_starts:
  "\<exists>st svc. fst (run prod_world Map.empty) = Inr st \<and> \<not> IsDev (st_config st) \<and> DBMaxConns (st_config st) = 1 \<and>
     DBMinConns (st_config st) = 0 \<and> rc_CommsService (en_config (st_router st)) = Some svc"
proof -
  have "prod_world\<lparr>w_codec := plain_codec\<rparr> = prod_world" by (simp add: prod_world_def)
  then show ?thesis using prod_starts_with [of plain_codec] by metis
qed

lemma production_boot_is_locked_witness:
  "\<exists>st svc. fst (run prod_world Map.empty) = Inr st \<and> 32 \<le> length (rc_GatewayHMACSecret (en_config (st_router st))) \<and>
     rc_CommsService (en_config (st_router st)) = Some svc \<and> (\<exists>s. smsSender svc = Some s \<and> real_sms s)"
proof -
  obtain st svc where r: "fst (run prod_world Map.empty) = Inr st" "\<not> IsDev (st_config st)"
    "rc_CommsService (en_config (st_router st)) = Some svc" using prod_starts by blast
  from production_boot_is_locked [OF r(1,2)] r show ?thesis by auto
qed

text \<open>C40. The pool's limits in a process that starts. They are the configured ones, or the defaults 10 and 2 for zero, while the
  configured ones fit in 32 bits, and the minimum then respects the maximum if both are set. The two ways out:
  a maximum of 1 with the minimum left at 0 makes a pool with a minimum of 2, and from 2^31 on the conversion
  changes the number (2^32 + 5 gives 5, 2^31 gives the default).\<close>

theorem pool_limits:
  assumes "fst (run w t) = Inr st"
  shows "1 \<le> ps_MaxConns (st_pool st) \<and> 1 \<le> ps_MinConns (st_pool st) \<and>
    (DBMaxConns (st_config st) < 2 ^ 31 \<and> DBMinConns (st_config st) < 2 ^ 31 \<longrightarrow>
       ps_MaxConns (st_pool st) = (if DBMaxConns (st_config st) = 0 then 10 else DBMaxConns (st_config st)) \<and>
       ps_MinConns (st_pool st) = (if DBMinConns (st_config st) = 0 then 2 else DBMinConns (st_config st)) \<and>
       (DBMaxConns (st_config st) \<noteq> 0 \<and> DBMinConns (st_config st) \<noteq> 0 \<longrightarrow> ps_MinConns (st_pool st) \<le> ps_MaxConns (st_pool st))) \<and>
    (DBMaxConns (st_config st) = 1 \<and> DBMinConns (st_config st) = 0 \<longrightarrow> ps_MaxConns (st_pool st) = 1 \<and> ps_MinConns (st_pool st) = 2) \<and>
    (DBMaxConns (st_config st) = 2 ^ 32 + 5 \<longrightarrow> ps_MaxConns (st_pool st) = 5) \<and>
    (DBMaxConns (st_config st) = 2 ^ 31 \<longrightarrow> ps_MaxConns (st_pool st) = 10)"
proof -
  let ?cfg = "st_config st"
  obtain c where v: "validate (w_quoted w) (w_parse_cidr w) c = (None, ?cfg)"
    and pool: "NewPool (w_quoted w) (w_pgx w) (PostgresDSN ?cfg) (PostgresSchema ?cfg)
      (Some \<lparr>pc_MaxConns = int32 (DBMaxConns ?cfg), pc_MinConns = int32 (DBMinConns ?cfg)\<rparr>) = Inr (st_pool st)"
    by (rule started_parts [OF assms])
  have range: "0 \<le> DBMaxConns ?cfg" "0 \<le> DBMinConns ?cfg"
    "DBMaxConns ?cfg > 0 \<and> DBMinConns ?cfg > 0 \<longrightarrow> DBMinConns ?cfg \<le> DBMaxConns ?cfg"
    using validated(1) [OF v] by (auto simp: validate_basic_def split: if_splits)
  have p: "ps_MaxConns (st_pool st) = (if int32 (DBMaxConns ?cfg) > 0 then int32 (DBMaxConns ?cfg) else 10)"
    "ps_MinConns (st_pool st) = (if int32 (DBMinConns ?cfg) > 0 then int32 (DBMinConns ?cfg) else 2)"
    using NewPool_limits [OF pool] by simp_all
  have id: "0 \<le> x \<Longrightarrow> x < 2 ^ 31 \<Longrightarrow> int32 x = x" for x by (simp add: int32_def)
  show ?thesis using range by (auto simp: p id) (auto simp: int32_def)
qed

lemma pool_limits_witness:
  "\<exists>st. fst (run prod_world Map.empty) = Inr st \<and> ps_MaxConns (st_pool st) = 1 \<and> ps_MinConns (st_pool st) = 2"
proof -
  obtain st where r: "fst (run prod_world Map.empty) = Inr st" "DBMaxConns (st_config st) = 1" "DBMinConns (st_config st) = 0"
    using prod_starts by blast
  from pool_limits [OF r(1)] r show ?thesis by simp
qed

end
