(* ===== verification/Service.thy ===== *)
theory Service
  imports Boot
begin

text \<open>
  The running service: HTTP requests, messages from Redis and retention runs in any order on the tables of a
  service that \<open>run\<close> has started, and the invariant they keep.
\<close>

datatype event =
    Request request_env ctx
  | Delivery message input "send_env \<times> instant"
  | Retention fault instant "instant option"

fun service_event ::
  "('c, 'b) router_lib \<Rightarrow> (route list \<Rightarrow> ctx \<Rightarrow> endpoint option) \<Rightarrow> json \<Rightarrow> 'r started \<Rightarrow> event \<Rightarrow>
   ('r, 'c, 'b) service_state \<Rightarrow> unit \<times> ('r, 'c, 'b) service_state" where
  "service_event lib gin_find js st (Request q c) s = ((), snd (ServeHTTP lib gin_find (st_router st) (q, c) s))"
| "service_event lib gin_find js st (Delivery m i ci) s =
     (case snd (handle (rt_pg lib) js (rt_str lib) (st_consumer st) m i ci (sv_inbox s, sv_comms s)) of
        (t, cs) \<Rightarrow> ((), s\<lparr>sv_inbox := t, sv_comms := cs\<rparr>))"
| "service_event lib gin_find js st (Retention f t cutoff) s =
     ((), s\<lparr>sv_comms := (sv_comms s)\<lparr>cs_log := purge_log (rt_pg lib) f t cutoff (cs_log (sv_comms s))\<rparr>\<rparr>)"

definition service_ok :: "pg \<Rightarrow> ('r, 'c, 'b) service_state \<Rightarrow> bool" where
  "service_ok pg s \<longleftrightarrow> inbox_ok (sv_inbox s) \<and> waitlist_ok pg (sv_waitlist s) \<and> log_ok (cs_log (sv_comms s))"

lemma service_ok_data: "data_of s = data_of t \<Longrightarrow> service_ok pg s = service_ok pg t"
  by (simp add: service_ok_def data_of_def)

subsection \<open>Each part keeps its own invariant\<close>

lemma mark_log_ok: "log_ok (cs_log st) \<Longrightarrow> log_ok (cs_log (mark lib env i s e st))"
  using log_step_ok [of "cs_log st" plain_pg "lib_quoted lib" "lib_uuid lib" "LMark (se_mark env) (se_mark_now env) i s [] e"]
  by (simp add: mark_def)

lemma claimed_log_ok:
  assumes "log_ok (cs_log st)"
  shows "log_ok (cs_log (snd (claimed_send lib svc env req i st)))"
proof -
  have "log_ok (cs_log st2)" if "dispatch ctx svc env req subject body st = (e, st2)" for ctx subject body e st2
    using dispatch_calls [OF that] assms by simp
  then show ?thesis using assms
    by (auto simp: claimed_send_def mark_log_ok split: sum.splits option.splits prod.splits)
qed

lemma send_log_ok:
  assumes "log_ok (cs_log st)"
  shows "log_ok (cs_log (snd (Send lib svc env req st)))"
proof -
  have "log_ok log" if "Reserve f f' i t r (cs_log st) = (x, log)" for f f' i t r x log
    using log_step_ok [OF assms, of plain_pg id dec_uuid "LReserve f f' i t r"] that by simp
  then show ?thesis using assms
    by (auto simp: Send_claimed claimed_log_ok split: option.splits sum.splits prod.splits)
qed

lemma send_handler_log_ok:
  "log_ok (cs_log st) \<Longrightarrow> log_ok (cs_log (snd (Send_Handler decode parse lib svc env c st)))"
  using send_log_ok [of st lib svc env]
  by (auto simp: Send_Handler_def split: sum.splits option.splits prod.splits) (metis snd_conv)+

lemma event_log_ok: "log_ok (cs_log st) \<Longrightarrow> log_ok (cs_log (comms_handler lib codec h i payload st))"
  using send_log_ok [of st lib "eh_service h" "fst i"]
  by (auto simp: comms_handler_def Handle_def split: sum.splits option.splits prod.splits) (metis snd_conv)+

lemma capture_ok: "waitlist_ok pg t \<Longrightarrow> waitlist_ok pg (snd (Capture binding pg env c t))"
  using capture_state [of binding pg env c t] by (auto simp: waitlist_ok_def listed_def)

lemma inbox_handlers_ok:
  assumes "inbox_ok t"
  shows "inbox_ok (snd (List_Handler pg env c t))" "inbox_ok (snd (UnreadCount_Handler env c t))"
    "inbox_ok (snd (MarkAllRead_Handler pg env c t))" "inbox_ok (snd (MarkRead_Handler pg env c t))"
proof -
  have "inbox_ok (snd (List_Handler pg env c t)) \<and> inbox_ok (snd (UnreadCount_Handler env c t)) \<and>
      inbox_ok (snd (MarkAllRead_Handler pg env c t)) \<and> inbox_ok (snd (MarkRead_Handler pg env c t))"
  proof (cases "IdentityFromCtx c")
    case None
    then show ?thesis using assms
      by (simp add: List_Handler_def UnreadCount_Handler_def MarkAllRead_Handler_def MarkRead_Handler_def)
  next
    case (Some i)
    note h = inbox_handlers_read_only [OF Some]
    show ?thesis using h(1,2) reads_only_ok [OF h(3) assms] reads_only_ok [OF h(4) assms] assms by simp
  qed
  then show "inbox_ok (snd (List_Handler pg env c t))" "inbox_ok (snd (UnreadCount_Handler env c t))"
    "inbox_ok (snd (MarkAllRead_Handler pg env c t))" "inbox_ok (snd (MarkRead_Handler pg env c t))" by blast+
qed

lemma handler_ok:
  assumes "handler_of lib en q found c s = (r, s')" "service_ok (rt_pg lib) s"
  shows "service_ok (rt_pg lib) s'"
proof -
  have ok: "inbox_ok (sv_inbox s)" "waitlist_ok (rt_pg lib) (sv_waitlist s)" "log_ok (cs_log (sv_comms s))"
    using assms(2) by (simp_all add: service_ok_def)
  note keep = inbox_handlers_ok [OF ok(1)] capture_ok [OF ok(2)] send_handler_log_ok [OF ok(3)]
  show ?thesis using assms ok
    by (auto simp: handler_of_def on_inbox_def service_ok_def Let_def case_prod_unfold keep
        split: option.splits endpoint.splits)
qed

lemma delivery_ok:
  assumes "inbox_ok t" "\<forall>h ci p cs. commsHandler c = Some h \<longrightarrow> log_ok (cs_log cs) \<longrightarrow> log_ok (cs_log (h ci p cs))"
    and "log_ok (cs_log cs)"
  shows "inbox_ok (fst (snd (handle pg js str c m i ci (t, cs))))"
    "log_ok (cs_log (snd (snd (handle pg js str c m i ci (t, cs)))))"
proof -
  have "inbox_ok (snd (Insert pg f n t))" for f n using inbox_step_ok [OF assms(1), of pg "OpInsert f n"] by (cases "Insert pg f n t") simp
  then show "inbox_ok (fst (snd (handle pg js str c m i ci (t, cs))))"
    using assms(1) by (simp add: handle_wanted(1) split: option.splits)
  show "log_ok (cs_log (snd (snd (handle pg js str c m i ci (t, cs)))))"
    using assms(2,3) by (auto simp: handle_def split: option.splits prod.splits)
qed

lemma service_event_ok:
  assumes "fst (run w t) = Inr st" "service_ok (rt_pg lib) s"
  shows "service_ok (rt_pg lib) (snd (service_event lib gin_find js st e s))"
proof (cases e)
  case (Request q c)
  obtain out s' where s': "ServeHTTP lib gin_find (st_router st) (q, c) s = (out, s')" by (metis surj_pair)
  have "service_ok (rt_pg lib) s'"
  proof (rule served_cases [OF s'])
    assume "data_of s' = data_of s"
    then show ?thesis using service_ok_data [of s' s] assms(2) by simp
  next
    fix c1 s1 r
    assume "data_of s1 = data_of s" and
      h: "handler_of lib (st_router st) q (gin_find (en_routes (st_router st)) c) c1 s1 = (r, s')"
    then have "service_ok (rt_pg lib) s1" using service_ok_data [of s1 s] assms(2) by simp
    then show ?thesis by (rule handler_ok [OF h])
  qed
  then show ?thesis by (simp add: Request s')
next
  case (Delivery m i ci)
  obtain rdb svc where c: "st_consumer st = consumer_of w (st_config st) rdb svc" by (rule started_parts [OF assms(1)])
  have h: "\<forall>h ci p cs. commsHandler (st_consumer st) = Some h \<longrightarrow> log_ok (cs_log cs) \<longrightarrow> log_ok (cs_log (h ci p cs))"
    by (auto simp: c consumer_of_def new_consumer_defs intro: event_log_ok split: option.splits)
  have "inbox_ok (sv_inbox s)" "log_ok (cs_log (sv_comms s))" using assms(2) by (simp_all add: service_ok_def)
  from delivery_ok [OF this(1) h this(2), of "rt_pg lib" js "rt_str lib" m i ci] show ?thesis
    using assms(2) by (simp add: Delivery service_ok_def case_prod_unfold)
next
  case (Retention f u cutoff)
  then show ?thesis using assms(2) log_step_ok [of "cs_log (sv_comms s)" "rt_pg lib" id dec_uuid "LPurge f u cutoff"]
    by (simp add: service_ok_def)
qed

text \<open>C2. The started service keeps its tables in shape, whatever happens to it: any requests on any paths, any
  messages on any channels and any retention runs, in any order, with any losses at the database, Redis and the
  mail server. The inbox keeps its ids distinct, one row per user and source event and the listed types; the
  waitlist its clean, distinct entries; the send log its distinct ids and keys, its statuses and its clean errors.\<close>

theorem service_keeps_its_tables:
  assumes "fst (run w t) = Inr st" "service_ok (rt_pg lib) s"
  shows "service_ok (rt_pg lib) (snd (run_steps (service_event lib gin_find js st) evs s))"
  by (rule run_steps_inv [where P = "service_ok (rt_pg lib)"])
    (use assms service_event_ok [OF assms(1)] in auto)

lemma service_keeps_its_tables_witness:
  "\<exists>st. fst (run prod_world Map.empty) = Inr st \<and>
     service_ok plain_pg (snd (run_steps (service_event sample_router_lib (\<lambda>_ _. Some Inbox_ReadAll) sample_json st)
       [Request sample_rq (sample_ctx ''0''), Retention NoFault 7 None] sample_sv))"
proof -
  obtain st where st: "fst (run prod_world Map.empty) = Inr st" using prod_starts by blast
  have pg: "rt_pg sample_router_lib = plain_pg" by (simp add: sample_router_lib_def)
  have "service_ok plain_pg sample_sv"
    by (simp add: service_ok_def sample_sv_def sample_state_def inbox_ok_def waitlist_ok_def log_ok_def sample_row_def
        notifications_type_check_def)
  then show ?thesis using service_keeps_its_tables [OF st, of sample_router_lib] st pg by metis
qed

end
