(* ===== verification/Durability.thy ===== *)
theory Durability
  imports Service
begin

text \<open>
  From an event to the user: what a handled message leaves in the inbox stays there, whatever the service does
  afterwards. No operation of the service deletes a notification or changes it, except for reading it once.
  (Old rows are pruned by the scheduled \<open>db:gc\<close> task of the Taskfile, ninety days later; it is not part of
  the service, whose own retention, \<open>PurgeExpired\<close>, leaves the inbox alone.)
\<close>

subsection \<open>Rows stay\<close>

text \<open>Every row of the first table is in the second, as it was or read in between.\<close>

definition read_later :: "notification \<Rightarrow> notification \<Rightarrow> bool" where
  "read_later r r' \<longleftrightarrow> r' = r \<or> ReadAt r = None \<and> (\<exists>t. r' = r\<lparr>ReadAt := Some t\<rparr>)"

definition rows_stay :: "inbox \<Rightarrow> inbox \<Rightarrow> bool" where
  "rows_stay s s' \<longleftrightarrow> (\<forall>r \<in> set s. \<exists>r' \<in> set s'. read_later r r')"

lemma read_laterI [intro]: "read_later r r" "ReadAt r = None \<Longrightarrow> read_later r (r\<lparr>ReadAt := Some t\<rparr>)"
  unfolding read_later_def by simp_all blast

lemma read_later_trans: "read_later r r1 \<Longrightarrow> read_later r1 r2 \<Longrightarrow> read_later r r2"
  unfolding read_later_def by (elim disjE conjE exE; simp; blast)

lemma read_later_same [simp]:
  "read_later r r' \<Longrightarrow> UserID r' = UserID r" "read_later r r' \<Longrightarrow> SourceEventID r' = SourceEventID r"
  "read_later r r' \<Longrightarrow> ID r' = ID r" "read_later r r' \<Longrightarrow> Type r' = Type r"
  "read_later r r' \<Longrightarrow> Title r' = Title r" "read_later r r' \<Longrightarrow> notification.Body r' = notification.Body r"
  unfolding read_later_def by (elim disjE conjE exE; simp)+

lemma rows_stay_refl [simp]: "rows_stay s s" "rows_stay s (s @ ys)"
  by (auto simp: rows_stay_def)

lemma rows_stay_trans: "rows_stay s s1 \<Longrightarrow> rows_stay s1 s2 \<Longrightarrow> rows_stay s s2"
  unfolding rows_stay_def by (meson read_later_trans)

lemma reads_only_stay:
  assumes "reads_only u s s'"
  shows "rows_stay s s'"
proof -
  obtain hit at where h: "\<And>r. hit r \<Longrightarrow> unread u r"
    and s': "s' = map (\<lambda>r. if hit r then r\<lparr>ReadAt := Some at\<rparr> else r) s"
    using assms by (auto simp: reads_only_def)
  have "read_later r (if hit r then r\<lparr>ReadAt := Some at\<rparr> else r)" for r using h [of r] by (auto simp: unread_def)
  then show ?thesis unfolding rows_stay_def s' set_map by blast
qed

lemma Insert_stays: "rows_stay s (snd (Insert pg f n s))"
  by (rule Insert_state [of pg f n s]) auto

lemma handlers_stay:
  "rows_stay t (snd (List_Handler pg env c t))" "rows_stay t (snd (UnreadCount_Handler env c t))"
  "rows_stay t (snd (MarkAllRead_Handler pg env c t))" "rows_stay t (snd (MarkRead_Handler pg env c t))"
proof -
  have "rows_stay t (snd (List_Handler pg env c t)) \<and> rows_stay t (snd (UnreadCount_Handler env c t)) \<and>
      rows_stay t (snd (MarkAllRead_Handler pg env c t)) \<and> rows_stay t (snd (MarkRead_Handler pg env c t))"
  proof (cases "IdentityFromCtx c")
    case None
    then show ?thesis by (simp add: List_Handler_def UnreadCount_Handler_def MarkAllRead_Handler_def MarkRead_Handler_def)
  next
    case (Some i)
    note h = inbox_handlers_read_only [OF Some]
    show ?thesis using h(1,2) reads_only_stay [OF h(3)] reads_only_stay [OF h(4)] by simp
  qed
  then show "rows_stay t (snd (List_Handler pg env c t))" "rows_stay t (snd (UnreadCount_Handler env c t))"
    "rows_stay t (snd (MarkAllRead_Handler pg env c t))" "rows_stay t (snd (MarkRead_Handler pg env c t))" by blast+
qed

lemma event_stays: "rows_stay (sv_inbox s) (sv_inbox (snd (service_event lib gin_find js st e s)))"
proof (cases e)
  case (Request q c)
  obtain out s' where s': "ServeHTTP lib gin_find (st_router st) (q, c) s = (out, s')" by (metis surj_pair)
  have "rows_stay (sv_inbox s) (sv_inbox s')"
  proof (rule served_cases [OF s'])
    fix c1 s1 r
    assume "data_of s1 = data_of s" and
      h: "handler_of lib (st_router st) q (gin_find (en_routes (st_router st)) c) c1 s1 = (r, s')"
    then show ?thesis using h
      by (auto simp: handler_of_def on_inbox_def data_of_def Let_def case_prod_unfold handlers_stay
          split: option.splits endpoint.splits)
  qed (simp add: data_of_def)
  then show ?thesis by (simp add: Request s')
next
  case (Delivery m i ci)
  then show ?thesis by (simp add: handle_wanted(1) case_prod_unfold Insert_stays split: option.splits)
qed simp

lemma events_stay:
  "rows_stay (sv_inbox s) (sv_inbox (snd (run_steps (service_event lib gin_find js st) evs s)))"
  by (rule run_steps_inv [where P = "\<lambda>t. rows_stay (sv_inbox s) (sv_inbox t)"])
    (use event_stays rows_stay_trans in blast, simp)

subsection \<open>A handled message is in the inbox\<close>

lemma set_whole_inbox_iff: "r \<in> set (whole_inbox u s) \<longleftrightarrow> r \<in> set s \<and> UserID r = u"
  by (simp add: whole_inbox_def owned_def)

text \<open>The row a statement without a fault leaves for the notification.\<close>

lemma insert_leaves_row:
  assumes "notifications_type_check (Type n)" "SourceEventID n = Some e" "ID n \<notin> ID ` set s"
    and "storable pg n"
  shows "\<exists>s'. Insert pg NoFault n s = (Inr (), s') \<and>
    (\<exists>r \<in> set s'. UserID r = UserID n \<and> SourceEventID r = Some e \<and>
      ((\<forall>x \<in> set s. \<not> same_source n x) \<longrightarrow>
        ID r = ID n \<and> Type r = Type n \<and> Title r = Title n \<and> notification.Body r = notification.Body n))"
proof (cases "\<exists>x \<in> set s. same_source n x")
  case True
  then obtain x where x: "x \<in> set s" "UserID x = UserID n" "SourceEventID x = Some e"
    using assms(2) by (auto simp: same_source_def)
  then have "insert_stmt pg n s = (Inr (), s)"
    using insert_stmt_duplicate [of s n e pg] assms by (auto simp: storable_def)
  then show ?thesis using x True assms(4) by (auto simp: Insert_def bound_def storable_def)
next
  case False
  let ?st = "n\<lparr>CreatedAt := pg_time pg (CreatedAt n), ReadAt := map_option (pg_time pg) (ReadAt n)\<rparr>"
  obtain x where x: "insert_stmt pg n s = insert_row x s" "x = ?st \<or> (\<exists>d. x = ?st\<lparr>Data := Some d\<rparr>)"
  proof (cases "Data n")
    case None
    then show thesis using that [of ?st] by (simp add: insert_stmt_def)
  next
    case (Some d)
    then obtain d' where "pg_jsonb pg d = Some d'" using assms(4) by (auto simp: storable_def)
    then show thesis using that [of "?st\<lparr>Data := Some d'\<rparr>"] Some by (auto simp: insert_stmt_def)
  qed
  have kept: "ID x = ID n" "UserID x = UserID n" "Type x = Type n" "SourceEventID x = SourceEventID n" "Title x = Title n"
    "notification.Body x = notification.Body n" using x(2) by (elim disjE exE; simp)+
  have "\<forall>r \<in> set s. ID r \<noteq> ID n" using assms(3) by (metis imageI)
  then have "insert_row x s = (Inr (), s @ [x])"
    using False assms(1) kept by (auto simp: insert_row_def same_source_def)
  then show ?thesis using x(1) kept assms(2,4) by (auto simp: Insert_def bound_def storable_def)
qed

text \<open>C9. An event reaches its user, for good, or is refused whole. Take a message that asks for a notification (for
  a status change, one with a valid signature), with a fresh id, handled while no fault comes between the service and
  the database. If Postgres takes the values (no NUL byte in a text, data that \<open>jsonb\<close> accepts), it is answered as
  created; and after anything the service does from then on, the inbox its user pages through holds a row for that
  event: with the id, type and text the message asked for where the event was new, and the earlier row where it was
  not. If Postgres does not take them, the message is answered as failed and leaves the inbox as it was. In either
  case no row of any user that was there is gone: each is as it was, or has been read since.\<close>

theorem events_reach_their_user:
  assumes "wanted js (rt_str lib) (kycHMACSecret (st_consumer st)) m i = Some n"
    and "db_fault i = NoFault" "ID n \<notin> ID ` set (sv_inbox s)"
    and "s1 = snd (service_event lib gin_find js st (Delivery m i ci) s)"
    and "s' = snd (run_steps (service_event lib gin_find js st) evs s1)"
  shows "(if bindable [Type n, Title n, notification.Body n] \<and> (\<forall>d. Data n = Some d \<longrightarrow> pg_jsonb (rt_pg lib) d \<noteq> None)
     then fst (handle (rt_pg lib) js (rt_str lib) (st_consumer st) m i ci (sv_inbox s, sv_comms s)) = Created \<and>
       (\<exists>r \<in> set (whole_inbox (UserID n) (sv_inbox s')). SourceEventID r = SourceEventID n \<and>
         ((\<forall>x \<in> set (sv_inbox s). \<not> same_source n x) \<longrightarrow>
           ID r = ID n \<and> Type r = Type n \<and> Title r = Title n \<and> notification.Body r = notification.Body n))
     else (\<exists>e. fst (handle (rt_pg lib) js (rt_str lib) (st_consumer st) m i ci (sv_inbox s, sv_comms s)) = Insert_Failed e) \<and>
       sv_inbox s1 = sv_inbox s) \<and>
    rows_stay (sv_inbox s) (sv_inbox s')"
proof -
  let ?ask = "handle (rt_pg lib) js (rt_str lib) (st_consumer st) m i ci (sv_inbox s, sv_comms s)"
  have ask: "?ask = (case fst (Insert (rt_pg lib) NoFault n (sv_inbox s)) of Inl e \<Rightarrow> Insert_Failed e | Inr u \<Rightarrow> Created,
      snd (Insert (rt_pg lib) NoFault n (sv_inbox s)), sv_comms s)"
    using handle_some [OF assms(1)] by (simp add: assms(2))
  then have s1: "sv_inbox s1 = snd (Insert (rt_pg lib) NoFault n (sv_inbox s))" by (simp add: assms(4))
  have stay: "rows_stay (sv_inbox s1) (sv_inbox s')" using events_stay assms(5) by metis
  have all: "rows_stay (sv_inbox s) (sv_inbox s')"
    using Insert_stays [of "sv_inbox s" "rt_pg lib" NoFault n] stay s1 rows_stay_trans by metis
  show ?thesis
  proof (cases "storable (rt_pg lib) n")
    case True
    obtain e where e: "SourceEventID n = Some e" and ty: "notifications_type_check (Type n)"
      using wanted_row [OF assms(1)] by auto
    obtain t r where t: "Insert (rt_pg lib) NoFault n (sv_inbox s) = (Inr (), t)" and
      r: "r \<in> set t" "UserID r = UserID n" "SourceEventID r = Some e"
        "(\<forall>x \<in> set (sv_inbox s). \<not> same_source n x) \<longrightarrow>
          ID r = ID n \<and> Type r = Type n \<and> Title r = Title n \<and> notification.Body r = notification.Body n"
      using insert_leaves_row [OF ty e assms(3) True] by blast
    obtain r' where r': "r' \<in> set (sv_inbox s')" "read_later r r'" using stay r(1) s1 t by (auto simp: rows_stay_def)
    have "r' \<in> set (whole_inbox (UserID n) (sv_inbox s'))" using r' r(2) by (simp add: set_whole_inbox_iff)
    moreover have "SourceEventID r' = SourceEventID n \<and> ((\<forall>x \<in> set (sv_inbox s). \<not> same_source n x) \<longrightarrow>
        ID r' = ID n \<and> Type r' = Type n \<and> Title r' = Title n \<and> notification.Body r' = notification.Body n)"
      using r(3,4) r'(2) e by simp
    ultimately show ?thesis using True ask t all by (auto simp: storable_def)
  next
    case False
    obtain e where "Insert (rt_pg lib) NoFault n (sv_inbox s) = (Inl e, sv_inbox s)" using Insert_unstorable [OF False] by blast
    then show ?thesis using False ask s1 all by (auto simp: storable_def)
  qed
qed

text \<open>A signed status change of user 1 is handled; a request of user 7 and a retention run later it is in user 1's
  inbox.\<close>

lemma events_reach_their_user_witness:
  "\<exists>(st :: unit started) s'. s' = snd (run_steps (service_event sample_router_lib (\<lambda>_ _. Some Inbox_ReadAll) sample_json st)
       [Request sample_rq (sample_ctx ''0''), Retention NoFault 7 None]
       (snd (service_event sample_router_lib (\<lambda>_ _. Some Inbox_ReadAll) sample_json st
         (Delivery sample_message (Consumer.sample_input 9 77) (sample_env 1, 0)) sample_sv))) \<and>
     (\<exists>r \<in> set (whole_inbox 1 (sv_inbox s')). ID r = 9 \<and> Type r = ''KYC_STATUS_CHANGED'' \<and> SourceEventID r = Some 5)"
proof -
  obtain st0 :: "unit started" where st0: "fst (run prod_world Map.empty) = Inr st0" using prod_starts by blast
  define st where "st = st0\<lparr>st_consumer := \<lparr>has_redis = True, commsHandler = None, kycHMACSecret = ''k''\<rparr>\<rparr>"
  have "kycHMACSecret (st_consumer st) = kycHMACSecret Consumer.sample_consumer" by (simp add: st_def Consumer.sample_consumer_def)
  moreover have "rt_str sample_router_lib = dec_uuid" "rt_pg sample_router_lib = plain_pg" by (simp_all add: sample_router_lib_def)
  ultimately have w: "wanted sample_json (rt_str sample_router_lib) (kycHMACSecret (st_consumer st)) sample_message (Consumer.sample_input 9 77) =
      Some sample_status_row" using sample_wanted by simp
  have new: "\<forall>x \<in> set (sv_inbox sample_sv). \<not> same_source sample_status_row x" "ID sample_status_row \<notin> ID ` set (sv_inbox sample_sv)"
    "db_fault (Consumer.sample_input 9 77) = NoFault"
    by (simp_all add: sample_sv_def sample_row_def sample_status_row_def Consumer.sample_input_def same_source_def)
  have taken: "bindable [Type sample_status_row, Title sample_status_row, notification.Body sample_status_row]"
    "\<forall>d. Data sample_status_row = Some d \<longrightarrow> pg_jsonb (rt_pg sample_router_lib) d \<noteq> None"
    by (simp_all add: sample_status_row_def bindable_def notification_type_defs)
  show ?thesis
    using events_reach_their_user [OF w new(3,2) refl refl, where gin_find = "\<lambda>_ _. Some Inbox_ReadAll" and ci = "(sample_env 1, 0)"
        and evs = "[Request sample_rq (sample_ctx ''0''), Retention NoFault 7 None]"] new(1) taken
    by (simp add: sample_status_row_def notification_type_defs del: run_steps.simps service_event.simps) blast
qed

end
