(* ===== verification/Lifecycle.thy ===== *)
theory Lifecycle
  imports Durability
begin

text \<open>
  The process (\<open>cmd/server/main.go\<close>): the health-check mode, starting, serving, and stopping on a signal.

  \<open>run\<close> of \<open>Boot\<close> says what a process starts with; here is what it does then. The signal, the end of the
  listener and the end of \<open>Shutdown\<close> are events, among the requests and messages of \<open>Service\<close>. On a signal
  the consumer is cancelled, then the HTTP server drains: requests in flight, and a message whose delivery the
  consumer's \<open>select\<close> prefers to its cancelled context, may still be handled until \<open>Shutdown\<close> returns, at the
  latest after \<open>shutdownTimeout\<close>.
\<close>

subsection \<open>The process\<close>

datatype process_event = Happens event | Signal | Listen_Ended "string option" | Shutdown_Ended "string option"

datatype phase = Serving | Draining | Exited nat

text \<open>\<open>ErrServerClosed\<close> is not an error of the listener (\<open>None\<close> here); after the exit nothing happens.\<close>

fun process_step ::
  "('c, 'b) router_lib \<Rightarrow> (route list \<Rightarrow> ctx \<Rightarrow> endpoint option) \<Rightarrow> json \<Rightarrow> 'r started \<Rightarrow> process_event \<Rightarrow>
   phase \<times> ('r, 'c, 'b) service_state \<Rightarrow> unit \<times> phase \<times> ('r, 'c, 'b) service_state" where
  "process_step lib gin_find js st e (Exited n, s) = ((), Exited n, s)"
| "process_step lib gin_find js st (Happens e) (p, s) = ((), p, snd (service_event lib gin_find js st e s))"
| "process_step lib gin_find js st (Listen_Ended r) (p, s) = ((), if r = None then p else Exited 1, s)"
| "process_step lib gin_find js st Signal (p, s) = ((), Draining, s)"
| "process_step lib gin_find js st (Shutdown_Ended r) (Serving, s) = ((), Serving, s)"
| "process_step lib gin_find js st (Shutdown_Ended r) (Draining, s) = ((), Exited (if r = None then 0 else 1), s)"

definition shutdownTimeout :: int where "shutdownTimeout = 30 * second"

text \<open>\<open>main\<close>: with the flag, the health check and its exit code; otherwise \<open>run\<close>, which fails at once or serves.\<close>

definition process_main ::
  "bool \<Rightarrow> string \<Rightarrow> (string \<Rightarrow> string + nat) \<Rightarrow> ('r, 'c, 'b) world \<Rightarrow> template_table \<Rightarrow> nat + 'r started" where
  "process_main healthcheck port get w t =
     (if healthcheck then Inl (if runHealthCheck port get \<noteq> None then 1 else 0)
      else (case fst (run w t) of Inl m \<Rightarrow> Inl 1 | Inr st \<Rightarrow> Inr st))"

subsection \<open>Stopping\<close>


text \<open>The tables keep their shape to the end of the process.\<close>

lemma process_step_ok:
  assumes "fst (run w t) = Inr st" "service_ok (rt_pg lib) (snd c)"
  shows "service_ok (rt_pg lib) (snd (snd (process_step lib gin_find js st e c)))"
  using assms(2) service_event_ok [OF assms(1)]
  by (cases c; cases "(lib, gin_find, js, st, e, c)" rule: process_step.cases) auto

lemma process_keeps_tables:
  assumes "process_main healthcheck port get w t = Inr st" "service_ok (rt_pg lib) s"
  shows "service_ok (rt_pg lib) (snd (snd (run_steps (process_step lib gin_find js st) es (p, s))))"
proof -
  have started: "fst (run w t) = Inr st" using assms(1) by (auto simp: process_main_def split: if_splits sum.splits)
  show ?thesis
    by (rule run_steps_inv [where P = "\<lambda>c. service_ok (rt_pg lib) (snd c)"])
      (use assms(2) process_step_ok [OF started] in auto)
qed

text \<open>An exit without an error: nothing but a signal and a clean shutdown after it leads to code 0.\<close>

lemma exit_zero:
  assumes "fst (snd (run_steps (process_step lib gin_find js st) es (Serving, s))) = Exited 0"
  shows "Signal \<in> set es \<and> Shutdown_Ended None \<in> set es"
proof -
  have step: "fst (snd (process_step lib gin_find js st e (p, s))) = Exited 0 \<Longrightarrow> p = Exited 0 \<or> p = Draining \<and> e = Shutdown_Ended None"
    "fst (snd (process_step lib gin_find js st e (p, s))) = Draining \<Longrightarrow> p = Draining \<or> e = Signal" for e p s
    by (cases "(lib, gin_find, js, st, e, p, s)" rule: process_step.cases; auto split: if_splits)+
  have "fst (snd (run_steps (process_step lib gin_find js st) es (p, s))) = Exited 0 \<Longrightarrow> p \<noteq> Exited 0 \<Longrightarrow>
      (p = Draining \<or> Signal \<in> set es) \<and> Shutdown_Ended None \<in> set es" for p
  proof (induction es arbitrary: p s)
    case (Cons e es)
    obtain p1 s1 where e: "process_step lib gin_find js st e (p, s) = ((), p1, s1)" by (metis surj_pair old.unit.exhaust)
    show ?case using Cons.IH [of p1 s1] Cons.prems step [of e p s] e by (auto simp: run_steps_Cons simp del: run_steps.simps)
  qed simp
  from this [OF assms] show ?thesis by simp
qed

end
