(* ===== verification/Isolation.thy ===== *)
theory Isolation
  imports Router
begin

text \<open>
  What a request of the inbox API can see. \<open>Notification_Store\<close> isolates the users of the store; here the
  same is shown of whole requests: middlewares, handlers and responses.
\<close>

subsection \<open>What a request can depend on\<close>

definition rest_of :: "('r, 'c, 'b) service_state \<Rightarrow>
    'r \<times> ('c, 'b) buckets \<times> ('c, 'b) buckets \<times> ('c, 'b) buckets \<times> ('c, 'b) user_limiter" where
  "rest_of s = (sv_redis s, sv_ip s, sv_wl s, sv_svc s, sv_users s)"

text \<open>The rows of the user the request names, and what the middlewares keep: Redis and the limiters' buckets.\<close>

definition caller_rows :: "('c, 'b) router_lib \<Rightarrow> ctx \<Rightarrow> inbox \<Rightarrow> inbox" where
  "caller_rows lib c rows = (case rt_parse lib (Header c headerUserID) of None \<Rightarrow> [] | Some u \<Rightarrow> owned u rows)"

definition same_view :: "('c, 'b) router_lib \<Rightarrow> ctx \<Rightarrow> ('r, 'c, 'b) service_state \<Rightarrow> ('r, 'c, 'b) service_state \<Rightarrow> bool" where
  "same_view lib c s t \<longleftrightarrow> caller_rows lib c (sv_inbox s) = caller_rows lib c (sv_inbox t) \<and> rest_of s = rest_of t"

text \<open>A middleware is blind if what it decides and keeps does not depend on the tables.\<close>

definition blind :: "('r, 'c, 'b) mw \<Rightarrow> bool" where
  "blind m \<longleftrightarrow> (\<forall>c s t. rest_of s = rest_of t \<longrightarrow>
     fst (m c s) = fst (m c t) \<and> rest_of (snd (m c s)) = rest_of (snd (m c t)))"

lemma blind_pass:
  "list_all blind ms \<Longrightarrow> rest_of s = rest_of t \<Longrightarrow> pass ms c s = (v, s') \<Longrightarrow>
     \<exists>t'. pass ms c t = (v, t') \<and> rest_of s' = rest_of t'"
proof (induction ms arbitrary: c s t)
  case (Cons m ms)
  obtain w s1 where s1: "m c s = (w, s1)" by force
  obtain w' t1 where t1: "m c t = (w', t1)" by force
  have "w' = w \<and> rest_of s1 = rest_of t1"
    using Cons.prems(1,2) s1 t1 unfolding blind_def list.pred_inject by (metis fst_conv snd_conv)
  then show ?case using Cons.IH [of s1 t1] Cons.prems(1,3) s1 t1 by (auto split: verdict.splits)
qed simp

lemma limited_blind:
  assumes "\<And>f s t. rest_of s = rest_of t \<Longrightarrow> rest_of (put f s) = rest_of (put f t)"
    and "\<And>s t. rest_of s = rest_of t \<Longrightarrow> get s = get t"
  shows "blind (limited get put lib rd rl q)"
proof -
  have "fst (limited get put lib rd rl q c s) = fst (limited get put lib rd rl q c t) \<and>
      rest_of (snd (limited get put lib rd rl q c s)) = rest_of (snd (limited get put lib rd rl q c t))"
    if r: "rest_of s = rest_of t" for c s t
  proof -
    obtain v x f where h: "RateLimiter_Handler (rt_limiter lib) rd rl (rq_clock q) c (sv_redis s, get s) = (v, x, f)"
      by (metis surj_pair)
    have "rest_of (put f (s\<lparr>sv_redis := x\<rparr>)) = rest_of (put f (t\<lparr>sv_redis := x\<rparr>))"
      by (rule assms(1)) (use r in \<open>simp add: rest_of_def\<close>)
    moreover have "(sv_redis t, get t) = (sv_redis s, get s)" using r assms(2) [OF r] by (simp add: rest_of_def)
    ultimately show ?thesis by (simp add: limited_def h)
  qed
  then show ?thesis unfolding blind_def by blast
qed

lemma blind_middlewares:
  "blind (stateless m)" "blind (user_limited lib q)" "blind (gateway_verified en q)"
  "blind (ip_limited lib en q)" "blind (wl_limited lib en q)" "blind (svc_limited lib en q)"
proof -
  show "blind (stateless m)" by (simp add: blind_def stateless_def)
  show "blind (user_limited lib q)" by (auto simp: blind_def user_limited_def rest_of_def split: prod.splits)
  show "blind (gateway_verified en q)" by (auto simp: blind_def gateway_verified_def rest_of_def split: prod.splits)
qed (unfold ip_limited_def wl_limited_def svc_limited_def, (rule limited_blind; simp add: rest_of_def)+)

lemma chain_blind: "list_all blind (chain_of lib en q found)"
  by (simp add: chain_of_def base_chain_def group_chain_def blind_middlewares split: option.splits)

subsection \<open>The handlers\<close>

lemma store_own:
  assumes "owned u s = owned u t"
  shows "LP_UserID p = u \<Longrightarrow> fst (List pg f b p s) = fst (List pg f b p t)"
    and "fst (UnreadCount f u s) = fst (UnreadCount f u t)"
    and "fst (MarkRead pg f clock n u s) = fst (MarkRead pg f clock n u t)"
    and "owned u (snd (MarkRead pg f clock n u s)) = owned u (snd (MarkRead pg f clock n u t))"
    and "fst (MarkAllRead pg f clock u s) = fst (MarkAllRead pg f clock u t)"
    and "owned u (snd (MarkAllRead pg f clock u s)) = owned u (snd (MarkAllRead pg f clock u t))"
  using serve_own [OF assms, of "(Req_List b p, f)" pg] serve_own [OF assms, of "(Req_UnreadCount u, f)" pg]
    serve_own [OF assms, of "(Req_MarkRead clock n u, f)" pg] serve_own [OF assms, of "(Req_MarkAllRead clock u, f)" pg]
  by (simp_all add: serve_def requester_def)

lemma answer_parts:
  "(case x of (Inl e, t) \<Rightarrow> (f e, t) | (Inr a, t) \<Rightarrow> (g a, t)) = (case fst x of Inl e \<Rightarrow> f e | Inr a \<Rightarrow> g a, snd x)"
  by (simp split: prod.splits sum.splits)

lemma inbox_handlers_own:
  assumes "IdentityFromCtx c = Some i" "owned (Ident_UserID i) s = owned (Ident_UserID i) t"
    and "h \<in> {List_Handler pg env, UnreadCount_Handler env, MarkAllRead_Handler pg env, MarkRead_Handler pg env}"
  shows "fst (h c s) = fst (h c t)" "owned (Ident_UserID i) (snd (h c s)) = owned (Ident_UserID i) (snd (h c t))"
    "u \<noteq> Ident_UserID i \<Longrightarrow> owned u (snd (h c s)) = owned u s"
proof -
  note own = store_own [OF assms(2)]
  have "fst (h c s) = fst (h c t) \<and> owned (Ident_UserID i) (snd (h c s)) = owned (Ident_UserID i) (snd (h c t))"
    using assms(3)
  proof (elim insertE emptyE)
    assume h: "h = List_Handler pg env"
    show ?thesis using assms(2) own(1)
      by (simp add: h List_Handler_def Let_def assms(1) answer_parts split: option.splits)
  next
    assume h: "h = UnreadCount_Handler env"
    show ?thesis using assms(2) own(2) by (simp add: h UnreadCount_Handler_def assms(1) answer_parts)
  next
    assume h: "h = MarkAllRead_Handler pg env"
    show ?thesis using own(5,6) by (simp add: h MarkAllRead_Handler_def assms(1) answer_parts)
  next
    assume h: "h = MarkRead_Handler pg env"
    show ?thesis using assms(2) own(3,4)
      by (simp add: h MarkRead_Handler_def assms(1) answer_parts split: option.splits)
  qed
  then show "fst (h c s) = fst (h c t)" "owned (Ident_UserID i) (snd (h c s)) = owned (Ident_UserID i) (snd (h c t))" by auto
  note ro = inbox_handlers_read_only [OF assms(1)]
  show "owned u (snd (h c s)) = owned u s" if "u \<noteq> Ident_UserID i"
    using assms(3) ro(1,2) owned_reads_only [OF ro(3)] owned_reads_only [OF ro(4)] that by auto
qed

text \<open>Every inbox endpoint runs one of the four handlers on the table of the inbox.\<close>

lemma inbox_handler_of:
  assumes "is_inbox e"
  shows "\<exists>h \<in> {List_Handler (rt_pg lib) (inbox_env_of lib q), UnreadCount_Handler (inbox_env_of lib q),
      MarkAllRead_Handler (rt_pg lib) (inbox_env_of lib q), MarkRead_Handler (rt_pg lib) (inbox_env_of lib q)}.
    \<forall>c s. handler_of lib en q (Some e) c s = (Some (fst (h c (sv_inbox s))), s\<lparr>sv_inbox := snd (h c (sv_inbox s))\<rparr>)"
  using assms by (cases e) (auto simp: handler_of_def on_inbox_def Let_def case_prod_unfold)

text \<open>C10. A request of the inbox API sees the rows of the user it names and nothing else of the tables. In two
  states of the service that agree on those rows and on Redis and the limiters, the same request gets the same
  response, headers and log line, whether it passes or a middleware refuses it; afterwards the states agree as
  before; and everybody else's rows are as they were. Which notifications other users have, how many, or whether
  an id exists at all, cannot be told from outside.\<close>

theorem requests_see_own_rows:
  assumes "gin_find (en_routes en) c = Some e" "is_inbox e" "same_view lib c s t"
    and "ServeHTTP lib gin_find en (q, c) s = (out, s')" "ServeHTTP lib gin_find en (q, c) t = (out', t')"
  shows "out' = out \<and> same_view lib c s' t' \<and>
    (\<forall>u. rt_parse lib (Header c headerUserID) \<noteq> Some u \<longrightarrow> owned u (sv_inbox s') = owned u (sv_inbox s))"
proof -
  obtain v s1 where p: "pass (chain_of lib en q (Some e)) c s = (v, s1)" by force
  obtain t1 where pt: "pass (chain_of lib en q (Some e)) c t = (v, t1)" "rest_of s1 = rest_of t1"
    using blind_pass [OF chain_blind _ p, of t] assms(3) by (auto simp: same_view_def)
  have d: "sv_inbox s1 = sv_inbox s" "sv_inbox t1 = sv_inbox t"
    using transparent_pass [OF chain_transparent p] transparent_pass [OF chain_transparent pt(1)] by (simp_all add: data_of_def)
  show ?thesis
  proof (cases v)
    case (Abort c1 r)
    then have "out' = out" "s' = s1" "t' = t1" using assms(1,4,5) p pt(1) by (auto simp: ServeHTTP_def Let_def run_chain_pass)
    then show ?thesis using assms(3) d pt(2) by (simp add: same_view_def)
  next
    case (Next c1)
    obtain i where i: "IdentityFromCtx c1 = Some i" "rt_parse lib (Header c headerUserID) = Some (Ident_UserID i)"
      using inbox_identity [OF p [unfolded Next] assms(2)] by metis
    obtain h where h: "h \<in> {List_Handler (rt_pg lib) (inbox_env_of lib q), UnreadCount_Handler (inbox_env_of lib q),
        MarkAllRead_Handler (rt_pg lib) (inbox_env_of lib q), MarkRead_Handler (rt_pg lib) (inbox_env_of lib q)}"
      and run: "\<And>c s. handler_of lib en q (Some e) c s =
        (Some (fst (h c (sv_inbox s))), s\<lparr>sv_inbox := snd (h c (sv_inbox s))\<rparr>)"
      using inbox_handler_of [OF assms(2), of lib q en] by blast
    have own: "owned (Ident_UserID i) (sv_inbox s) = owned (Ident_UserID i) (sv_inbox t)"
      using assms(3) i(2) by (simp add: same_view_def caller_rows_def)
    have s': "s' = s1\<lparr>sv_inbox := snd (h c1 (sv_inbox s))\<rparr>" "t' = t1\<lparr>sv_inbox := snd (h c1 (sv_inbox t))\<rparr>"
      using assms(1,4,5) p pt(1) Next d by (simp_all add: ServeHTTP_def Let_def run_chain_pass run)
    have "out' = out" using assms(1,4,5) p pt(1) Next d inbox_handlers_own(1) [OF i(1) own h]
      by (auto simp: ServeHTTP_def Let_def run_chain_pass run)
    moreover have "rest_of s' = rest_of t'" using pt(2) by (simp add: s' rest_of_def)
    ultimately show ?thesis using s' i(2) inbox_handlers_own(2,3) [OF i(1) own h]
      by (simp add: same_view_def caller_rows_def)
  qed
qed

text \<open>User 7's request for the unread count is answered the same with another user's notification in the table.\<close>

lemma requests_see_own_rows_witness:
  "\<exists>out s' t'. ServeHTTP sample_router_lib (\<lambda>_ _. Some Inbox_Unread) sample_engine (sample_rq, sample_ctx ''0'') sample_sv = (out, s') \<and>
     ServeHTTP sample_router_lib (\<lambda>_ _. Some Inbox_Unread) sample_engine (sample_rq, sample_ctx ''0'')
       (sample_sv\<lparr>sv_inbox := [sample_row 1 7 None, sample_row 2 8 None]\<rparr>) = (out, t')"
proof -
  let ?serve = "ServeHTTP sample_router_lib (\<lambda>_ _. Some Inbox_Unread) sample_engine (sample_rq, sample_ctx ''0'')"
  let ?t = "sample_sv\<lparr>sv_inbox := [sample_row 1 7 None, sample_row 2 8 None]\<rparr>"
  obtain out s' where s: "?serve sample_sv = (out, s')" by (metis surj_pair)
  obtain out' t' where t: "?serve ?t = (out', t')" by (metis surj_pair)
  have "rt_parse sample_router_lib (Header (sample_ctx ''0'') headerUserID) = Some 7"
    by (simp add: sample_ctx_parts sample_router_lib_def undec_uuid_def undec_def digit_val_def)
  then have "same_view sample_router_lib (sample_ctx ''0'') sample_sv ?t"
    by (simp add: same_view_def caller_rows_def rest_of_def owned_def) (simp add: sample_sv_def sample_row_def)
  from requests_see_own_rows [OF _ _ this s t] have "out' = out" by simp
  then show ?thesis using s t by blast
qed

end
