(* ===== verification/Api_Types.thy ===== *)
theory Api_Types
  imports Service
begin

text \<open>
  The types of the answers: the response structs of \<open>internal/handler\<close> and \<open>internal/platform/httpx\<close>
  with their JSON tags, and which endpoint answers with which of them at which status.

  A \<open>json_type\<close> is what \<open>encoding/json\<close> writes for a Go type: a struct is its fields in order, a field
  tagged \<open>omitempty\<close> may be missing, a nil pointer without that tag is null. The error codes and the
  lists of constants stand in the types, since clients branch on them.
\<close>

subsection \<open>JSON types\<close>

datatype json_type =
    T_String
  | T_OneOf "string list"
  | T_Bool
  | T_Int
  | T_Count
  | T_UUID
  | T_Raw
  | T_Nullable json_type
  | T_Array nat json_type
  | T_Struct "(string \<times> bool \<times> json_type) list"

text \<open>The second component of a field says whether it is always there; the number of an array is the most
  items it has.\<close>

fun has_type :: "json_type \<Rightarrow> json_value \<Rightarrow> bool"
  and has_fields :: "(string \<times> bool \<times> json_type) list \<Rightarrow> (string \<times> json_value) list \<Rightarrow> bool" where
  "has_type T_String v = (case v of J_String s \<Rightarrow> True | _ \<Rightarrow> False)"
| "has_type (T_OneOf xs) v = (case v of J_String s \<Rightarrow> s \<in> set xs | _ \<Rightarrow> False)"
| "has_type T_Bool v = (case v of J_Bool b \<Rightarrow> True | _ \<Rightarrow> False)"
| "has_type T_Int v = (case v of J_Int n \<Rightarrow> True | _ \<Rightarrow> False)"
| "has_type T_Count v = (case v of J_Int n \<Rightarrow> 0 \<le> n | _ \<Rightarrow> False)"
| "has_type T_UUID v = (case v of J_UUID u \<Rightarrow> True | _ \<Rightarrow> False)"
| "has_type T_Raw v = (case v of J_Raw d \<Rightarrow> d \<noteq> [] | _ \<Rightarrow> False)"
| "has_type (T_Nullable t) v = (v = J_Null \<or> has_type t v)"
| "has_type (T_Array n t) v = (case v of J_Array vs \<Rightarrow> length vs \<le> n \<and> list_all (has_type t) vs | _ \<Rightarrow> False)"
| "has_type (T_Struct fs) v = (case v of J_Object kvs \<Rightarrow> has_fields fs kvs | _ \<Rightarrow> False)"
| "has_fields [] kvs = (kvs = [])"
| "has_fields ((k, required, t) # fs) [] = (\<not> required \<and> has_fields fs [])"
| "has_fields ((k, required, t) # fs) ((k', v) # kvs) =
     (if k' = k then has_type t v \<and> has_fields fs kvs else \<not> required \<and> has_fields fs ((k', v) # kvs))"

subsection \<open>The response structs\<close>

definition notificationTypes :: "string list" where
  "notificationTypes = [''KYC_TIER_CHANGED'', ''BID_RECEIVED'', ''BID_ACCEPTED'', ''MILESTONE_REACHED'',
     ''CONTRACT_SIGNED'', ''ACCOUNT_SUSPENDED'', ''KYC_STATUS_CHANGED'']"

definition notificationResponse :: json_type where
  "notificationResponse = T_Struct
     [(''id'', True, T_UUID), (''type'', True, T_OneOf notificationTypes), (''title'', True, T_String),
      (''body'', True, T_String), (''data'', False, T_Raw), (''sourceEventId'', False, T_UUID),
      (''readAt'', True, T_Nullable T_String), (''createdAt'', True, T_String)]"

definition listResponse :: json_type where
  "listResponse = T_Struct [(''items'', True, T_Array 100 notificationResponse), (''nextCursor'', False, T_String)]"

definition sendResponse :: json_type where
  "sendResponse = T_Struct [(''sendId'', True, T_UUID),
     (''status'', True, T_OneOf [StatusPending, StatusSent, StatusFailed, StatusDead]), (''deduped'', True, T_Bool)]"

definition dataEnvelope :: "json_type \<Rightarrow> json_type" where
  "dataEnvelope t = T_Struct [(''data'', True, t)]"

text \<open>\<open>ErrorResponse\<close> around an \<open>ErrorBody\<close>, for one code; only the KYC guard gives details.\<close>

definition tierDetails :: json_type where
  "tierDetails = T_Struct [(''requiredTier'', True, T_Int), (''currentTier'', True, T_Int)]"

definition ErrorBody :: "string \<Rightarrow> json_type" where
  "ErrorBody code = T_Struct [(''code'', True, T_OneOf [code]), (''message'', True, T_String), (''details'', False, tierDetails)]"

definition ErrorResponse :: "string \<Rightarrow> json_type" where
  "ErrorResponse code = T_Struct [(''error'', True, ErrorBody code)]"

definition probeResponse :: "string \<Rightarrow> (string \<times> bool \<times> json_type) list \<Rightarrow> json_type" where
  "probeResponse status checks = T_Struct ((''status'', True, T_OneOf [status]) # checks)"

lemmas json_type_defs = notificationResponse_def listResponse_def sendResponse_def dataEnvelope_def tierDetails_def
  ErrorBody_def ErrorResponse_def probeResponse_def

subsection \<open>Who answers with what\<close>

text \<open>An answer is a status and a type of body, or no body.\<close>

definition error_answer :: "nat \<Rightarrow> string \<Rightarrow> nat \<times> json_type option" where
  "error_answer status code = (status, Some (ErrorResponse code))"

text \<open>What the middlewares before an endpoint may answer in its place.\<close>

definition refusals :: "endpoint option \<Rightarrow> (nat \<times> json_type option) list" where
  "refusals found =
     (if found = Some Healthz \<or> found = Some Readyz then [] else [error_answer 429 ''RATE_LIMITED'']) @
     (case found of None \<Rightarrow> [] | Some e \<Rightarrow>
        if is_inbox e then [error_answer 401 ''UNAUTHORIZED'', error_answer 413 ''BODY_TOO_LARGE'',
          error_answer 403 ''KYC_TIER_REQUIRED'']
        else if is_comms e then [error_answer 401 ''UNAUTHORIZED''] else [])"

definition postgres_check :: "string \<Rightarrow> (string \<times> bool \<times> json_type) list" where
  "postgres_check state = [(''checks'', True, T_Struct [(''postgres'', True, T_OneOf [state])])]"

fun endpoint_answers :: "endpoint \<Rightarrow> (nat \<times> json_type option) list" where
  "endpoint_answers Healthz = [(200, Some (probeResponse ''ok'' []))]"
| "endpoint_answers Readyz = [(200, Some (probeResponse ''ready'' (postgres_check ''ok''))),
     (503, Some (probeResponse ''not_ready'' (postgres_check ''down'')))]"
| "endpoint_answers Waitlist_Capture = [(202, Some (dataEnvelope (T_Struct [(''ok'', True, T_Bool)]))),
     error_answer 400 ''VALIDATION_ERROR'', error_answer 500 ''INTERNAL_ERROR'']"
| "endpoint_answers Inbox_List = [(200, Some (dataEnvelope listResponse)), error_answer 401 ''UNAUTHORIZED'',
     error_answer 400 ''VALIDATION_ERROR'', error_answer 500 ''INTERNAL_ERROR'']"
| "endpoint_answers Inbox_Unread = [(200, Some (dataEnvelope (T_Struct [(''count'', True, T_Count)]))),
     error_answer 401 ''UNAUTHORIZED'', error_answer 500 ''INTERNAL_ERROR'']"
| "endpoint_answers Inbox_ReadAll = [(204, None), error_answer 401 ''UNAUTHORIZED'', error_answer 500 ''INTERNAL_ERROR'']"
| "endpoint_answers Inbox_Read = [(204, None), error_answer 401 ''UNAUTHORIZED'', error_answer 400 ''VALIDATION_ERROR'',
     error_answer 404 ''NOTIFICATION_NOT_FOUND'', error_answer 500 ''INTERNAL_ERROR'']"
| "endpoint_answers Comms_Send = [(202, Some (dataEnvelope sendResponse)), error_answer 400 ''VALIDATION_ERROR'',
     error_answer 500 ''PROVIDER_UNAVAILABLE'', error_answer 500 ''INTERNAL_ERROR'']"
| "endpoint_answers Comms_Receipts = [error_answer 501 ''NOT_IMPLEMENTED'']"

definition typed_answer :: "(nat \<times> json_type option) list \<Rightarrow> response \<Rightarrow> bool" where
  "typed_answer answers r \<longleftrightarrow> (\<exists>t. (rs_status r, t) \<in> set answers \<and>
     (case t of None \<Rightarrow> rs_body r = None | Some u \<Rightarrow> (\<exists>v. rs_body r = Some v \<and> has_type u v)))"

lemma typed_answer_append [simp]:
  "typed_answer (xs @ ys) r \<longleftrightarrow> typed_answer xs r \<or> typed_answer ys r"
  by (auto simp: typed_answer_def)

lemma typed_answer_Cons [simp]:
  "\<not> typed_answer [] r"
  "typed_answer ((n, t) # xs) r \<longleftrightarrow> rs_status r = n \<and>
     (case t of None \<Rightarrow> rs_body r = None | Some u \<Rightarrow> (\<exists>v. rs_body r = Some v \<and> has_type u v)) \<or> typed_answer xs r"
  by (auto simp: typed_answer_def)

lemma error_response_typed:
  "has_type (ErrorResponse code) (error_body code' m None) \<longleftrightarrow> code' = code"
  by (simp add: json_type_defs error_body_def)

lemma typed_error [simp]:
  "typed_answer [error_answer n code] (ErrCode n' code' m None) \<longleftrightarrow> n' = n \<and> code' = code"
  by (auto simp: error_answer_def ErrCode_def error_response_typed)

lemma typed_error_Cons [simp]:
  "typed_answer (error_answer n code # xs) (ErrCode n' code' m None) \<longleftrightarrow>
     n' = n \<and> code' = code \<or> typed_answer xs (ErrCode n' code' m None)"
  by (auto simp: error_answer_def ErrCode_def error_response_typed)

subsection \<open>The middlewares\<close>

definition refuses_with :: "(nat \<times> json_type option) list \<Rightarrow> ('r, 'c, 'b) mw \<Rightarrow> bool" where
  "refuses_with answers m \<longleftrightarrow> (\<forall>c s. case fst (m c s) of Next c' \<Rightarrow> True | Abort c' r \<Rightarrow> typed_answer answers r)"

lemma refused_chain:
  "list_all (refuses_with answers) ms \<Longrightarrow> pass ms c s = (Abort c' r, s') \<Longrightarrow> typed_answer answers r"
proof (induction ms arbitrary: c s)
  case (Cons m ms)
  have "case fst (m c s) of Next c' \<Rightarrow> True | Abort c' r \<Rightarrow> typed_answer answers r"
    using Cons.prems(1) by (simp add: refuses_with_def)
  then show ?case using Cons by (auto split: prod.splits verdict.splits)
qed simp

lemma refuses_weaken: "refuses_with xs m \<Longrightarrow> set xs \<subseteq> set ys \<Longrightarrow> refuses_with ys m"
  unfolding refuses_with_def typed_answer_def by (fastforce split: verdict.splits)

lemma limiter_refuses:
  "refuses_with [error_answer 429 ''RATE_LIMITED''] (limited get put lib rd rl q)"
  "refuses_with [error_answer 429 ''RATE_LIMITED''] (user_limited lib q)"
  by (auto simp: refuses_with_def limited_def user_limited_def RateLimiter_Handler_def UserRateLimiter_Handler_def
      rate_limited_def Let_def split: option.splits sum.splits prod.splits verdict.splits)

lemma gateway_refuses:
  "refuses_with [error_answer 401 ''UNAUTHORIZED'', error_answer 413 ''BODY_TOO_LARGE''] (gateway_verified en q)"
  by (auto simp: refuses_with_def gateway_verified_def VerifyGatewaySignature_def abortUnauthorized_def Let_def
      split: option.splits buffered.splits prod.splits verdict.splits)

lemma stateless_refuses:
  "refuses_with [error_answer 401 ''UNAUTHORIZED''] (stateless (RequireValidIdentity p))"
  "refuses_with [error_answer 401 ''UNAUTHORIZED''] (stateless (RequireServiceIdentity tokens))"
  "refuses_with [] (stateless (RequestID f))" "refuses_with [] (stateless SecurityHeaders)"
  by (auto simp: refuses_with_def stateless_def RequireValidIdentity_def RequireServiceIdentity_def RequestID_def
      SecurityHeaders_def Let_def split: option.splits verdict.splits)

lemma tier_refuses:
  "refuses_with [error_answer 403 ''KYC_TIER_REQUIRED'', error_answer 401 ''UNAUTHORIZED''] (stateless (RequireTier n))"
  by (auto simp: refuses_with_def stateless_def RequireTier_def error_answer_def ErrCode_def error_body_def json_type_defs
      split: option.splits key_value.splits verdict.splits)

lemmas refuses_in = limiter_refuses [THEN refuses_weaken] gateway_refuses [THEN refuses_weaken]
  stateless_refuses [THEN refuses_weaken] tier_refuses [THEN refuses_weaken]

lemma chain_refuses: "list_all (refuses_with (refusals found)) (chain_of lib en q found)"
  by (cases found) (simp_all add: chain_of_def base_chain_def group_chain_def refusals_def ip_limited_def wl_limited_def
      svc_limited_def refuses_in)

subsection \<open>The handlers\<close>

lemma row_typed:
  "notifications_type_check (Type n) \<Longrightarrow> has_type notificationResponse (toResponse zone n)"
  by (auto simp: notificationResponse_def toResponse_def notifications_type_check_def notificationTypes_def split: option.splits)

lemma page_typed:
  assumes "\<forall>n \<in> set rows. notifications_type_check (Type n)" "length rows \<le> 100"
  shows "has_type listResponse (page_json (make_page str zone limit rows))"
proof -
  have "list_all (has_type notificationResponse) (map (toResponse zone) rows)"
    using assms(1) row_typed by (auto simp: list_all_iff)
  then show ?thesis using assms(2) by (auto simp: listResponse_def page_json_def make_page_def)
qed

lemma listed_rows:
  assumes "List pg f broken p s = (Inr rows, s')"
  shows "set rows \<subseteq> set s" "length rows \<le> 100"
proof -
  have sel: "set (select_after u k n s) \<subseteq> set s" "length (select_after u k n s) \<le> n" for u k n
    using set_take_subset [of n] by (fastforce simp: select_after_def)+
  have "fst (list_stmt pg p s) = Inr rows"
    using assms by (cases f) (auto simp: List_def lift_db_def split: sum.splits prod.splits dest: read_rows_Inr)
  then obtain u k where "rows = select_after u k (nat (clamp_limit (LP_Limit p))) s"
    by (auto simp: list_stmt_def Let_def split: option.splits)
  moreover have "nat (clamp_limit (LP_Limit p)) \<le> 100" by (simp add: clamp_limit_def nat_le_iff)
  ultimately show "set rows \<subseteq> set s" "length rows \<le> 100" using sel order_trans by blast+
qed

lemma data_typed [simp]:
  "rs_status (httpx_OK v) = 200" "rs_body (httpx_OK v) = Some (J_Object [(''data'', v)])"
  "has_type (dataEnvelope t) (J_Object [(''data'', v)]) \<longleftrightarrow> has_type t v"
  by (simp_all add: httpx_OK_def dataEnvelope_def)

lemma list_typed:
  assumes "\<forall>n \<in> set s. notifications_type_check (Type n)"
  shows "typed_answer (endpoint_answers Inbox_List) (fst (List_Handler pg env c s))"
proof -
  have "has_type listResponse (page_json (make_page str zone limit rows))"
    if "List pg f broken p s = (Inr rows, s')" for f broken p rows s' str zone limit
    using page_typed listed_rows [OF that] assms by blast
  then show ?thesis
    by (auto simp: List_Handler_def unauthenticated_def internal_error_def Let_def split: option.splits sum.splits prod.splits)
qed

lemma unread_typed: "typed_answer (endpoint_answers Inbox_Unread) (fst (UnreadCount_Handler env c s))"
proof -
  have "0 \<le> n" if "UnreadCount f u s = (Inr n, s')" for f u n s'
    using that by (cases f) (auto simp: UnreadCount_def lift_db_def count_stmt_def split: sum.splits)
  then show ?thesis
    by (auto simp: UnreadCount_Handler_def unauthenticated_def internal_error_def split: option.splits sum.splits prod.splits)
qed

lemma mark_typed:
  "typed_answer (endpoint_answers Inbox_ReadAll) (fst (MarkAllRead_Handler pg env c s))"
  "typed_answer (endpoint_answers Inbox_Read) (fst (MarkRead_Handler pg env c s))"
proof -
  have "typed_answer (endpoint_answers Inbox_Read) (Http.Err e)" for e
    by (cases e) (auto simp: Http.Err_def error_answer_def error_response_typed)
  then show "typed_answer (endpoint_answers Inbox_ReadAll) (fst (MarkAllRead_Handler pg env c s))"
    "typed_answer (endpoint_answers Inbox_Read) (fst (MarkRead_Handler pg env c s))"
    by (auto simp: MarkAllRead_Handler_def MarkRead_Handler_def unauthenticated_def internal_error_def NoContent_def
        simp del: endpoint_answers.simps split: option.splits sum.splits prod.splits)
      simp_all
qed

lemma capture_typed: "typed_answer (endpoint_answers Waitlist_Capture) (fst (Capture binding pg env c s))"
  by (auto simp: Capture_def dataEnvelope_def split: sum.splits waitlist_error.splits prod.splits)

lemma send_status:
  assumes "log_ok (cs_log st)" "Send lib svc env req st = ((res, None), st')"
  shows "Res_Status res \<in> set [StatusPending, StatusSent, StatusFailed, StatusDead]"
proof -
  have held: "status_check (Log_Status row)"
    if "log_ok log" "getByIdempotencyKey f k log = Inr row" for log f k row
    using that by (cases f) (auto simp: getByIdempotencyKey_def select_key_stmt_def read_row_def log_ok_def list_all_iff
        log_row_ok_def find_Some_iff split: option.splits dest!: nth_mem)
  have kept: "log_ok log" if "db_exec f (reserve_stmt i t r) (cs_log st) = (x, log)" for f i t r x log
    using that reserve_ok [OF assms(1), of i t r] by (cases f) (auto simp: assms(1))
  have "claimed_send lib svc env req i st1 = ((res, None), st') \<Longrightarrow> Res_Status res = StatusSent" for i st1
    by (auto simp: claimed_send_def split: sum.splits option.splits prod.splits)
  then have "Res_Status res = StatusSent \<or>
      (\<exists>log f k row. log_ok log \<and> getByIdempotencyKey f k log = Inr row \<and> Res_Status res = Log_Status row)"
    using assms(2) kept by (auto simp: Send_cases split: option.splits sum.splits prod.splits if_splits) (metis+)?
  moreover have "status_check StatusSent" by (simp add: status_check_def status_defs)
  ultimately have "status_check (Res_Status res)" using held by metis
  then show ?thesis by (simp add: status_check_def status_defs)
qed

lemma send_typed:
  assumes "log_ok (cs_log st)"
  shows "typed_answer (endpoint_answers Comms_Send) (fst (Send_Handler decode parse lib svc env c st))"
proof -
  have "typed_answer (endpoint_answers Comms_Send) (accepted res)"
    if "Send lib svc env req st = ((res, None), st')" for req res st'
    using send_status [OF assms that] by (simp add: accepted_def dataEnvelope_def sendResponse_def)
  moreover have "typed_answer (endpoint_answers Comms_Send) (writeSendError e)" for e
    by (simp add: writeSendError_def)
  ultimately show ?thesis
    by (auto simp: Send_Handler_def simp del: endpoint_answers.simps split: option.splits sum.splits prod.splits) simp_all
qed

subsection \<open>Every answer\<close>

lemma handler_typed:
  assumes "handler_of lib en q (Some e) c s = (r, s')" "service_ok (rt_pg lib) s"
  shows "typed_answer (endpoint_answers e @ [error_answer 500 ''INTERNAL_ERROR'']) (Recover r)"
proof -
  have ok: "\<forall>n \<in> set (sv_inbox s). notifications_type_check (Type n)" "log_ok (cs_log (sv_comms s))"
    using assms(2) by (simp_all add: service_ok_def inbox_ok_def)
  have "Recover None = ErrCode 500 ''INTERNAL_ERROR'' ''internal server error'' None"
    by (simp add: Recover_def ErrCode_def)
  moreover have "r = None \<or> (\<exists>x. r = Some x \<and> typed_answer (endpoint_answers e) x)"
  proof (cases e)
    case Inbox_List
    then show ?thesis using assms(1) list_typed [OF ok(1), of "rt_pg lib" "inbox_env_of lib q" c]
      by (auto simp: handler_of_def Let_def on_inbox_def simp del: endpoint_answers.simps split: prod.splits)
  next
    case Inbox_Unread
    then show ?thesis using assms(1) unread_typed [of "inbox_env_of lib q" c "sv_inbox s"]
      by (auto simp: handler_of_def Let_def on_inbox_def simp del: endpoint_answers.simps split: prod.splits)
  next
    case Inbox_ReadAll
    then show ?thesis using assms(1) mark_typed(1) [of "rt_pg lib" "inbox_env_of lib q" c "sv_inbox s"]
      by (auto simp: handler_of_def Let_def on_inbox_def simp del: endpoint_answers.simps split: prod.splits)
  next
    case Inbox_Read
    then show ?thesis using assms(1) mark_typed(2) [of "rt_pg lib" "inbox_env_of lib q" c "sv_inbox s"]
      by (auto simp: handler_of_def Let_def on_inbox_def simp del: endpoint_answers.simps split: prod.splits)
  next
    case Waitlist_Capture
    then show ?thesis using assms(1) capture_typed [of "rt_capture lib" "rt_pg lib" "rq_capture q" c "sv_waitlist s"]
      by (auto simp: handler_of_def Let_def simp del: endpoint_answers.simps split: prod.splits)
  next
    case Readyz
    then show ?thesis using assms(1)
      by (cases "rq_ping q") (auto simp: handler_of_def Readiness_def probeResponse_def postgres_check_def)
  next
    case Comms_Send
    then show ?thesis using assms(1) send_typed [OF ok(2), of "rt_decode lib" "rt_parse lib" "rt_comms lib" _ "rq_send q" c]
      by (auto simp: handler_of_def Let_def simp del: endpoint_answers.simps split: prod.splits option.splits) (metis fst_conv)
  qed (use assms(1) in \<open>auto simp: handler_of_def Let_def Liveness_def Receipts_def probeResponse_def\<close>)
  ultimately show ?thesis by (auto simp: Recover_def simp del: endpoint_answers.simps)
qed

text \<open>C11. Every answer is of a declared type. Whatever the request, if the tables are in shape (as they always are
  in a started service) the answer's status and body are one of those its endpoint or the middlewares before it
  declare: the envelope with the struct of that endpoint, with at most 100 notifications of the seven types or a
  status of the four, or the error envelope with the code that goes with the status. No handler invents another
  shape, a panic included, and the receipts endpoint answers 501 to every caller that may call it. A path without
  a route gets \<open>gin\<close>'s redirect where it redirects, and otherwise \<open>gin\<close>'s 404 or the refusal of the limiter.\<close>

theorem every_answer_typed:
  assumes "service_ok (rt_pg lib) s"
    and "ServeHTTP lib gin_find en (q, c) s = ((hs, r, line), s')"
  shows "case gin_find (en_routes en) c of
      None \<Rightarrow> (case rt_redirect lib (en_routes en) c of
          Some (h, gin_redirect) \<Rightarrow> r = gin_redirect
        | None \<Rightarrow> r = rt_not_found lib \<or> typed_answer (refusals None) r)
    | Some e \<Rightarrow> typed_answer (refusals (Some e) @ endpoint_answers e @ [error_answer 500 ''INTERNAL_ERROR'']) r"
proof (cases "gin_redirects lib gin_find (en_routes en) c")
  case (Some x)
  then show ?thesis using assms(2)
    by (cases x) (auto simp: ServeHTTP_def Let_def gin_redirects_def split: if_splits)
next
  case None
  let ?found = "gin_find (en_routes en) c"
  have none: "?found = None \<Longrightarrow> rt_redirect lib (en_routes en) c = None" using None by (simp add: gin_redirects_def)
  obtain v s1 where p: "pass (chain_of lib en q ?found) c s = (v, s1)" by force
  show ?thesis
  proof (cases v)
    case (Abort c1 r1)
    then have "r = r1" using assms(2) p None by (simp add: ServeHTTP_def Let_def run_chain_pass Recover_def)
    then have "typed_answer (refusals ?found) r" using refused_chain [OF chain_refuses p [unfolded Abort]] by simp
    then show ?thesis using none by (auto split: option.splits)
  next
    case (Next c1)
    obtain r1 s2 where h: "handler_of lib en q ?found c1 s1 = (r1, s2)" by force
    then have r: "r = Recover r1" using assms(2) p Next None by (simp add: ServeHTTP_def Let_def run_chain_pass)
    have ok: "service_ok (rt_pg lib) s1"
      using assms(1) service_ok_data [OF transparent_pass [OF chain_transparent p]] by blast
    show ?thesis using handler_typed [OF _ ok] h r none
      by (cases ?found) (auto simp: handler_of_def Recover_def simp del: endpoint_answers.simps)
  qed
qed

lemma every_answer_typed_witness:
  "\<exists>hs r line s'. ServeHTTP sample_router_lib (\<lambda>_ _. Some Inbox_Unread) sample_engine (sample_rq, sample_ctx ''0'') sample_sv =
     ((hs, r, line), s') \<and> r = httpx_OK (J_Object [(''count'', J_Int 1)]) \<and>
     typed_answer (refusals (Some Inbox_Unread) @ endpoint_answers Inbox_Unread @ [error_answer 500 ''INTERNAL_ERROR'']) r"
proof -
  let ?serve = "ServeHTTP sample_router_lib (\<lambda>_ _. Some Inbox_Unread) sample_engine (sample_rq, sample_ctx ''0'') sample_sv"
  obtain c1 s1 i where p: "pass (chain_of sample_router_lib sample_engine sample_rq (Some Inbox_Unread)) (sample_ctx ''0'') sample_sv =
      (Next c1, s1)" "IdentityFromCtx c1 = Some i" "Ident_UserID i = 7" "sv_inbox s1 = [sample_row 1 7 None]"
    using sample_reaches [of Inbox_Unread] by auto
  have "UnreadCount NoFault 7 [sample_row 1 7 None] = (Inr 1, [sample_row 1 7 None])"
    by (simp add: UnreadCount_def count_stmt_def unread_def sample_row_def)
  then have "handler_of sample_router_lib sample_engine sample_rq (Some Inbox_Unread) c1 s1 =
      (Some (httpx_OK (J_Object [(''count'', J_Int 1)])), s1\<lparr>sv_inbox := [sample_row 1 7 None]\<rparr>)"
    using p by (simp add: handler_of_def on_inbox_def UnreadCount_Handler_def Let_def inbox_env_of_def sample_rq_def)
  then obtain hs line s' where s': "?serve = ((hs, httpx_OK (J_Object [(''count'', J_Int 1)]), line), s')"
    using p(1) by (simp add: ServeHTTP_def Let_def run_chain_pass Recover_def)
  have "rt_pg sample_router_lib = plain_pg" by (simp add: sample_router_lib_def)
  moreover have "service_ok plain_pg sample_sv"
    by (simp add: service_ok_def sample_sv_def sample_state_def inbox_ok_def waitlist_ok_def log_ok_def sample_row_def
        notifications_type_check_def)
  ultimately show ?thesis using every_answer_typed [OF _ s'] s' by (simp del: typed_answer_Cons endpoint_answers.simps)
qed

end
