(* ===== verification/Relational.thy ===== *)
theory Relational
  imports Notification_Store
begin

text \<open>
  The part of SQL that \<open>migrations/\<close> and the statements of the stores are written in: tables with typed
  columns, defaults, NOT NULL and CHECK constraints, unique indexes (partial ones and ones on \<open>lower()\<close>
  included), the definition statements that create and drop them, and INSERT with its three conflict actions.

  A row is a function from column names to values, \<open>Null\<close> where it has none. A file of definition statements is
  sent as one query, which Postgres executes as one transaction: it leaves everything or nothing.
\<close>

subsection \<open>Values, tables, databases\<close>

datatype sql_type = T_uuid | T_text | T_jsonb | T_timestamptz | T_int | T_boolean | T_bytea

datatype sql_value =
    Null
  | V_uuid uuid
  | V_text string
  | V_jsonb string
  | V_time instant
  | V_int int
  | V_bool bool
  | V_bytea string

fun has_type :: "sql_value \<Rightarrow> sql_type \<Rightarrow> bool" where
  "has_type Null t = True"
| "has_type (V_uuid _) t = (t = T_uuid)"
| "has_type (V_text _) t = (t = T_text)"
| "has_type (V_jsonb _) t = (t = T_jsonb)"
| "has_type (V_time _) t = (t = T_timestamptz)"
| "has_type (V_int _) t = (t = T_int)"
| "has_type (V_bool _) t = (t = T_boolean)"
| "has_type (V_bytea _) t = (t = T_bytea)"

text \<open>An expression of a VALUES list or a DEFAULT; a \<open>Arg\<close> is a value the client sends.\<close>

datatype sql_expr = Gen_Random_Uuid | Now | Literal sql_value | Arg sql_value

type_synonym sql_row = "string \<Rightarrow> sql_value"

definition mk_row :: "(string \<times> sql_value) list \<Rightarrow> sql_row" where
  "mk_row kvs = (\<lambda>c. case map_of kvs c of None \<Rightarrow> Null | Some v \<Rightarrow> v)"

text \<open>The check of a column is the list of an \<open>IN\<close>.\<close>

record column =
  col_name :: string
  col_type :: sql_type
  col_not_null :: bool
  col_default :: "sql_expr option"
  col_check :: "string list option"

datatype index_key = Column string | Descending string | Lower string

record index =
  ix_table :: string
  ix_unique :: bool
  ix_keys :: "index_key list"
  ix_where :: "string option"

record table =
  tb_columns :: "column list"
  tb_checks :: "(string \<times> string \<times> string list) list"
  tb_rows :: "sql_row list"

record database =
  db_tables :: "string \<Rightarrow> table option"
  db_indexes :: "(string \<times> index) list"
  db_extensions :: "string list"

definition empty_db :: database where
  "empty_db = \<lparr>db_tables = (\<lambda>_. None), db_indexes = [], db_extensions = []\<rparr>"

definition indexes_of :: "string \<Rightarrow> database \<Rightarrow> (string \<times> index) list" where
  "indexes_of t db = filter (\<lambda>(n, ix). ix_table ix = t) (db_indexes db)"

definition set_rows :: "string \<Rightarrow> sql_row list \<Rightarrow> database \<Rightarrow> database" where
  "set_rows t rows db = db\<lparr>db_tables := (db_tables db)
     (t := map_option (tb_rows_update (\<lambda>_. rows)) (db_tables db t))\<rparr>"

subsection \<open>Constraints\<close>

text \<open>A CHECK holds where it is not false, so it holds of NULL.\<close>

definition check_holds :: "string \<Rightarrow> string list \<Rightarrow> sql_row \<Rightarrow> bool" where
  "check_holds c vals row = (case row c of V_text t \<Rightarrow> t \<in> set vals | _ \<Rightarrow> True)"

fun key_value :: "pg \<Rightarrow> sql_row \<Rightarrow> index_key \<Rightarrow> sql_value" where
  "key_value pg row (Column c) = row c"
| "key_value pg row (Descending c) = row c"
| "key_value pg row (Lower c) = (case row c of V_text t \<Rightarrow> V_text (pg_lower pg t) | v \<Rightarrow> v)"

text \<open>A partial index \<open>WHERE c IS NOT NULL\<close> has no entry for a row whose \<open>c\<close> is NULL, and a NULL among the
  keys is equal to nothing.\<close>

definition index_entry :: "pg \<Rightarrow> index \<Rightarrow> sql_row \<Rightarrow> sql_value list option" where
  "index_entry pg ix row =
     (let vs = map (key_value pg row) (ix_keys ix)
      in if (case ix_where ix of None \<Rightarrow> False | Some c \<Rightarrow> row c = Null) \<or> Null \<in> set vs then None else Some vs)"

definition conflicts :: "pg \<Rightarrow> index \<Rightarrow> sql_row \<Rightarrow> sql_row \<Rightarrow> bool" where
  "conflicts pg ix a b \<longleftrightarrow> index_entry pg ix a \<noteq> None \<and> index_entry pg ix a = index_entry pg ix b"

fun unique_rows :: "pg \<Rightarrow> index \<Rightarrow> sql_row list \<Rightarrow> bool" where
  "unique_rows pg ix [] = True"
| "unique_rows pg ix (r # rs) = (list_all (\<lambda>x. \<not> conflicts pg ix r x) rs \<and> unique_rows pg ix rs)"

definition violated :: "table \<Rightarrow> sql_row \<Rightarrow> string option" where
  "violated tb row =
     (case List.find (\<lambda>c. col_not_null c \<and> row (col_name c) = Null) (tb_columns tb) of
        Some c \<Rightarrow> Some (''null value in column '' @ col_name c @ '' violates not-null constraint'')
      | None \<Rightarrow> (case List.find (\<lambda>(n, c, vals). \<not> check_holds c vals row) (tb_checks tb) of
          Some (n, _) \<Rightarrow> Some (''new row violates check constraint '' @ n)
        | None \<Rightarrow> None))"

subsection \<open>Definition statements\<close>

text \<open>A primary key has the name the statement gives it or \<open>table_pkey\<close>, its columns are NOT NULL, and it is
  kept by a unique index of that name; the CHECK of a column is named \<open>table_column_check\<close>.\<close>

datatype ddl =
    CreateExtension string
  | CreateTable string "column list" "string option" "string list"
  | DropTable string
  | DropCheck string string
  | AddCheck string string string "string list"
  | CreateIndex string index

definition relation_exists :: "string \<Rightarrow> database \<Rightarrow> bool" where
  "relation_exists n db \<longleftrightarrow> db_tables db n \<noteq> None \<or> n \<in> fst ` set (db_indexes db)"

definition keyed :: "string list \<Rightarrow> column list \<Rightarrow> column list" where
  "keyed keys cols = map (\<lambda>c. c\<lparr>col_not_null := col_not_null c \<or> col_name c \<in> set keys\<rparr>) cols"

definition column_checks :: "string \<Rightarrow> column list \<Rightarrow> (string \<times> string \<times> string list) list" where
  "column_checks t cols = concat (map (\<lambda>c. case col_check c of None \<Rightarrow> []
     | Some vals \<Rightarrow> [(t @ ''_'' @ col_name c @ ''_check'', col_name c, vals)]) cols)"

fun run_ddl :: "pg \<Rightarrow> ddl \<Rightarrow> database \<Rightarrow> string + database" where
  "run_ddl pg (CreateExtension e) db =
     Inr (db\<lparr>db_extensions := List.insert e (db_extensions db)\<rparr>)"
| "run_ddl pg (CreateTable t cols pk keys) db =
     (let pkey = (case pk of None \<Rightarrow> t @ ''_pkey'' | Some n \<Rightarrow> n) in
      if relation_exists t db then Inl (''relation '' @ t @ '' already exists'')
      else if relation_exists pkey db then Inl (''relation '' @ pkey @ '' already exists'')
      else Inr (db\<lparr>db_tables := (db_tables db)(t \<mapsto>
             \<lparr>tb_columns = keyed keys cols, tb_checks = column_checks t cols, tb_rows = []\<rparr>),
           db_indexes := db_indexes db @
             [(pkey, \<lparr>ix_table = t, ix_unique = True, ix_keys = map Column keys, ix_where = None\<rparr>)]\<rparr>))"
| "run_ddl pg (DropTable t) db =
     Inr (db\<lparr>db_tables := (db_tables db)(t := None),
       db_indexes := filter (\<lambda>(n, ix). ix_table ix \<noteq> t) (db_indexes db)\<rparr>)"
| "run_ddl pg (DropCheck t n) db = (case db_tables db t of
     None \<Rightarrow> Inl (''relation '' @ t @ '' does not exist'')
   | Some tb \<Rightarrow> Inr (db\<lparr>db_tables := (db_tables db)(t \<mapsto>
       tb\<lparr>tb_checks := filter (\<lambda>(m, _). m \<noteq> n) (tb_checks tb)\<rparr>)\<rparr>))"
| "run_ddl pg (AddCheck t n c vals) db = (case db_tables db t of
     None \<Rightarrow> Inl (''relation '' @ t @ '' does not exist'')
   | Some tb \<Rightarrow>
       if n \<in> fst ` set (tb_checks tb) then Inl (''constraint '' @ n @ '' already exists'')
       else if \<not> list_all (check_holds c vals) (tb_rows tb)
       then Inl (''check constraint '' @ n @ '' is violated by some row'')
       else Inr (db\<lparr>db_tables := (db_tables db)(t \<mapsto>
         tb\<lparr>tb_checks := tb_checks tb @ [(n, c, vals)]\<rparr>)\<rparr>))"
| "run_ddl pg (CreateIndex n ix) db = (case db_tables db (ix_table ix) of
     None \<Rightarrow> Inl (''relation '' @ ix_table ix @ '' does not exist'')
   | Some tb \<Rightarrow>
       if relation_exists n db then Inl (''relation '' @ n @ '' already exists'')
       else if ix_unique ix \<and> \<not> unique_rows pg ix (tb_rows tb)
       then Inl (''could not create unique index '' @ n)
       else Inr (db\<lparr>db_indexes := db_indexes db @ [(n, ix)]\<rparr>))"

text \<open>The statements of a file; then a list of files in turn, each its own transaction: the first that fails
  stops the run.\<close>

fun run_ddls :: "pg \<Rightarrow> ddl list \<Rightarrow> database \<Rightarrow> string + database" where
  "run_ddls pg [] db = Inr db"
| "run_ddls pg (s # ss) db = (case run_ddl pg s db of Inl m \<Rightarrow> Inl m | Inr db' \<Rightarrow> run_ddls pg ss db')"

definition exec_file :: "pg \<Rightarrow> ddl list \<Rightarrow> database \<Rightarrow> (string + unit) \<times> database" where
  "exec_file pg stmts db = (case run_ddls pg stmts db of Inl m \<Rightarrow> (Inl m, db) | Inr db' \<Rightarrow> (Inr (), db'))"

fun exec_files :: "pg \<Rightarrow> ddl list list \<Rightarrow> database \<Rightarrow> (string + unit) \<times> database" where
  "exec_files pg [] db = (Inr (), db)"
| "exec_files pg (f # fs) db = (case exec_file pg f db of
     (Inl m, db') \<Rightarrow> (Inl m, db') | (Inr _, db') \<Rightarrow> exec_files pg fs db')"

subsection \<open>INSERT\<close>

text \<open>What an INSERT does about a row that is there already: raise an error, skip (\<open>ON CONFLICT (keys) [WHERE c IS
  NOT NULL] DO NOTHING\<close>), or assign to columns that are not indexed (\<open>DO UPDATE SET\<close>, from \<open>now()\<close>, the row that
  is there and the one proposed).\<close>

datatype conflict_action =
    Raise
  | Do_Nothing "index_key list" "string option"
  | Do_Update "index_key list" "instant \<Rightarrow> sql_row \<Rightarrow> sql_row \<Rightarrow> string + (string \<times> sql_value) list"

record insert_cmd =
  in_table :: string
  in_values :: "(string \<times> sql_expr) list"
  in_conflict :: conflict_action

text \<open>The server around a statement: its value functions, a fresh uuid and the time of the transaction.\<close>

record sql_env =
  se_pg :: pg
  se_uuid :: uuid
  se_now :: instant

fun coerce :: "pg \<Rightarrow> sql_value \<Rightarrow> string + sql_value" where
  "coerce pg (V_time t) = Inr (V_time (pg_time pg t))"
| "coerce pg (V_jsonb d) = (case pg_jsonb pg d of
     None \<Rightarrow> Inl ''invalid input syntax for type json'' | Some d' \<Rightarrow> Inr (V_jsonb d'))"
| "coerce pg v = Inr v"

fun eval_expr :: "sql_env \<Rightarrow> sql_expr \<Rightarrow> string + sql_value" where
  "eval_expr env Gen_Random_Uuid = Inr (V_uuid (se_uuid env))"
| "eval_expr env Now = Inr (V_time (se_now env))"
| "eval_expr env (Literal v) = Inr v"
| "eval_expr env (Arg v) = coerce (se_pg env) v"

definition column_expr :: "(string \<times> sql_expr) list \<Rightarrow> column \<Rightarrow> sql_expr" where
  "column_expr vs c = (case map_of vs (col_name c) of Some e \<Rightarrow> e
     | None \<Rightarrow> (case col_default c of Some d \<Rightarrow> d | None \<Rightarrow> Literal Null))"

fun new_row :: "sql_env \<Rightarrow> (string \<times> sql_expr) list \<Rightarrow> column list \<Rightarrow> string + (string \<times> sql_value) list" where
  "new_row env vs [] = Inr []"
| "new_row env vs (c # cs) = (case eval_expr env (column_expr vs c) of
     Inl m \<Rightarrow> Inl m
   | Inr v \<Rightarrow>
       if \<not> has_type v (col_type c) then Inl (''column '' @ col_name c @ '' is of another type'')
       else (case new_row env vs cs of Inl m \<Rightarrow> Inl m | Inr kvs \<Rightarrow> Inr ((col_name c, v) # kvs)))"

definition infer :: "index_key list \<Rightarrow> string option \<Rightarrow> (string \<times> index) list \<Rightarrow> string + index option" where
  "infer keys wh ixs = (case List.find (\<lambda>(n, ix). ix_unique ix \<and> ix_keys ix = keys \<and> ix_where ix = wh) ixs of
     None \<Rightarrow> Inl ''there is no unique or exclusion constraint matching the ON CONFLICT specification''
   | Some (_, ix) \<Rightarrow> Inr (Some ix))"

fun arbiter :: "conflict_action \<Rightarrow> (string \<times> index) list \<Rightarrow> string + index option" where
  "arbiter Raise ixs = Inr None"
| "arbiter (Do_Nothing keys wh) ixs = infer keys wh ixs"
| "arbiter (Do_Update keys f) ixs = infer keys None ixs"

definition assign :: "(string \<times> sql_value) list \<Rightarrow> sql_row \<Rightarrow> sql_row" where
  "assign kvs row = (\<lambda>c. case map_of kvs c of None \<Rightarrow> row c | Some v \<Rightarrow> v)"

definition place ::
  "sql_env \<Rightarrow> conflict_action \<Rightarrow> index option \<Rightarrow> (string \<times> index) list \<Rightarrow> sql_row \<Rightarrow> sql_row list \<Rightarrow>
   (string + nat) \<times> sql_row list" where
  "place env act arb ixs row rows =
     (case (case arb of None \<Rightarrow> None | Some ix \<Rightarrow> List.find (conflicts (se_pg env) ix row) rows) of
        Some old \<Rightarrow> (case act of
          Do_Update _ f \<Rightarrow> (case f (se_now env) old row of
            Inl m \<Rightarrow> (Inl m, rows)
          | Inr kvs \<Rightarrow> (Inr 1, map (\<lambda>x. if conflicts (se_pg env) (the arb) row x then assign kvs x else x) rows))
        | _ \<Rightarrow> (Inr 0, rows))
      | None \<Rightarrow> (case List.find (\<lambda>(n, ix). ix_unique ix \<and> list_ex (conflicts (se_pg env) ix row) rows) ixs of
          Some (n, _) \<Rightarrow> (Inl (''duplicate key value violates unique constraint '' @ n), rows)
        | None \<Rightarrow> (Inr 1, rows @ [row])))"

definition insert_into :: "sql_env \<Rightarrow> insert_cmd \<Rightarrow> (string \<times> index) list \<Rightarrow> table \<Rightarrow> (string + nat) \<times> sql_row list" where
  "insert_into env cmd ixs tb =
     (if \<not> set (map fst (in_values cmd)) \<subseteq> set (map col_name (tb_columns tb))
      then (Inl ''column does not exist'', tb_rows tb)
      else (case arbiter (in_conflict cmd) ixs of
          Inl m \<Rightarrow> (Inl m, tb_rows tb)
        | Inr arb \<Rightarrow> (case new_row env (in_values cmd) (tb_columns tb) of
            Inl m \<Rightarrow> (Inl m, tb_rows tb)
          | Inr kvs \<Rightarrow> (case violated tb (mk_row kvs) of
              Some m \<Rightarrow> (Inl m, tb_rows tb)
            | None \<Rightarrow> place env (in_conflict cmd) arb ixs (mk_row kvs) (tb_rows tb)))))"

definition sql_insert :: "sql_env \<Rightarrow> insert_cmd \<Rightarrow> database \<Rightarrow> (string + nat) \<times> database" where
  "sql_insert env cmd db = (case db_tables db (in_table cmd) of
     None \<Rightarrow> (Inl (''relation '' @ in_table cmd @ '' does not exist''), db)
   | Some tb \<Rightarrow> map_prod id (\<lambda>rows. set_rows (in_table cmd) rows db)
       (insert_into env cmd (indexes_of (in_table cmd) db) tb))"

subsection \<open>Rows in and out of a database\<close>

lemma db_tables_set_rows [simp]:
  "db_tables (set_rows t rows db) = (db_tables db)(t := map_option (tb_rows_update (\<lambda>_. rows)) (db_tables db t))"
  by (simp add: set_rows_def)

lemma indexes_set_rows [simp]: "indexes_of t (set_rows u rows db) = indexes_of t db"
  by (simp add: indexes_of_def set_rows_def)

lemma set_rows_again [simp]: "set_rows t rows (set_rows t rows' db) = set_rows t rows db"
  by (cases "db_tables db t") (simp_all add: set_rows_def)

lemma set_rows_commute: "t \<noteq> u \<Longrightarrow> set_rows t rows (set_rows u rows' db) = set_rows u rows' (set_rows t rows db)"
  by (simp add: set_rows_def fun_upd_twist)

lemma sql_insert_set_rows:
  assumes "in_table cmd = t" "db_tables db t = Some tb"
  shows "sql_insert env cmd (set_rows t rows db) =
    map_prod id (\<lambda>rows'. set_rows t rows' db) (insert_into env cmd (indexes_of t db) (tb\<lparr>tb_rows := rows\<rparr>))"
  using assms by (cases "insert_into env cmd (indexes_of t db) (tb\<lparr>tb_rows := rows\<rparr>)") (simp add: sql_insert_def)

text \<open>Where rows are the images of the rows of a typed table, finding one in conflict is finding it there.\<close>

lemma find_map: "List.find P (map f xs) = map_option f (List.find (P \<circ> f) xs)"
  by (induction xs) simp_all

lemma find_unique_key: "List.find (\<lambda>x. x = k) xs = (if k \<in> set xs then Some k else None)"
  by (induction xs) auto

lemma place_raise:
  "place env Raise None ixs row (map enc s) =
     (case List.find (\<lambda>(n, ix). ix_unique ix \<and> (\<exists>x \<in> set s. conflicts (se_pg env) ix row (enc x))) ixs of
        Some (n, _) \<Rightarrow> (Inl (''duplicate key value violates unique constraint '' @ n), map enc s)
      | None \<Rightarrow> (Inr 1, map enc s @ [row]))"
  by (simp add: place_def list_ex_iff)

lemma place_do_nothing:
  "place env (Do_Nothing keys wh) (Some arb) ixs row (map enc s) =
     (if \<exists>x \<in> set s. conflicts (se_pg env) arb row (enc x) then (Inr 0, map enc s)
      else case List.find (\<lambda>(n, ix). ix_unique ix \<and> (\<exists>x \<in> set s. conflicts (se_pg env) ix row (enc x))) ixs of
        Some (n, _) \<Rightarrow> (Inl (''duplicate key value violates unique constraint '' @ n), map enc s)
      | None \<Rightarrow> (Inr 1, map enc s @ [row]))"
proof (cases "List.find (conflicts (se_pg env) arb row) (map enc s)")
  case None
  then have "\<not> (\<exists>x \<in> set s. conflicts (se_pg env) arb row (enc x))" by (auto simp: find_None_iff)
  then show ?thesis using None by (simp add: place_def list_ex_iff)
next
  case (Some old)
  then have "\<exists>x \<in> set s. conflicts (se_pg env) arb row (enc x)" by (auto simp: find_Some_iff nth_mem)
  then show ?thesis by (simp add: place_def Some)
qed

text \<open>A table that is a map from its primary key has as rows any list of its entries' rows with distinct keys. An
  upsert then is the update of the map.\<close>

definition map_rows :: "('k \<Rightarrow> 'r \<Rightarrow> sql_row) \<Rightarrow> sql_row list \<Rightarrow> ('k \<Rightarrow> 'r option) \<Rightarrow> bool" where
  "map_rows enc rows t \<longleftrightarrow> (\<exists>ks. distinct ks \<and> set ks = dom t \<and> rows = map (\<lambda>k. enc k (the (t k))) ks)"

lemma map_rows_fresh:
  assumes "map_rows enc rows t" "t k = None"
  shows "map_rows enc (rows @ [enc k r]) (t(k \<mapsto> r))"
proof -
  obtain ks where ks: "distinct ks" "set ks = dom t" "rows = map (\<lambda>k. enc k (the (t k))) ks"
    using assms(1) by (auto simp: map_rows_def)
  have k: "k \<notin> set ks" using ks(2) assms(2) by auto
  then have "map (\<lambda>k'. enc k' (the ((t(k \<mapsto> r)) k'))) ks = rows" by (auto simp: ks(3))
  then show ?thesis using ks k unfolding map_rows_def by (intro exI [of _ "ks @ [k]"]) auto
qed

lemma map_rows_held:
  assumes "map_rows enc rows t" "t k = Some old"
    and "\<And>k' r'. hit (enc k' r') \<longleftrightarrow> k' = k" "upd (enc k old) = enc k new"
  shows "map_rows enc (map (\<lambda>x. if hit x then upd x else x) rows) (t(k \<mapsto> new))"
proof -
  obtain ks where ks: "distinct ks" "set ks = dom t" "rows = map (\<lambda>k. enc k (the (t k))) ks"
    using assms(1) by (auto simp: map_rows_def)
  have "map (\<lambda>x. if hit x then upd x else x) rows = map (\<lambda>k'. enc k' (the ((t(k \<mapsto> new)) k'))) ks"
    using assms(2-4) by (auto simp: ks(3))
  moreover have "set ks = dom (t(k \<mapsto> new))" using ks(2) assms(2) by auto
  ultimately show ?thesis using ks(1) unfolding map_rows_def by blast
qed

lemma place_do_update:
  assumes rows: "map_rows enc rows t"
    and key: "\<And>k r k' r'. conflicts (se_pg env) arb (enc k r) (enc k' r') \<longleftrightarrow> k' = k" and uniq: "ix_unique arb"
  shows "t k = None \<Longrightarrow>
      place env (Do_Update keys f) (Some arb) [(n, arb)] (enc k new) rows = (Inr 1, rows @ [enc k new]) \<and>
      map_rows enc (rows @ [enc k new]) (t(k \<mapsto> new))"
    and "t k = Some old \<Longrightarrow> f (se_now env) (enc k old) (enc k new) = Inl m \<Longrightarrow>
      place env (Do_Update keys f) (Some arb) [(n, arb)] (enc k new) rows = (Inl m, rows)"
    and "t k = Some old \<Longrightarrow> f (se_now env) (enc k old) (enc k new) = Inr kvs \<Longrightarrow> assign kvs (enc k old) = enc k r' \<Longrightarrow>
      \<exists>rows'. place env (Do_Update keys f) (Some arb) [(n, arb)] (enc k new) rows = (Inr 1, rows') \<and>
        map_rows enc rows' (t(k \<mapsto> r'))"
proof -
  obtain ks where ks: "distinct ks" "set ks = dom t" "rows = map (\<lambda>k. enc k (the (t k))) ks"
    using rows by (auto simp: map_rows_def)
  have found: "List.find (conflicts (se_pg env) arb (enc k new)) rows =
      (if k \<in> dom t then Some (enc k (the (t k))) else None)"
    using key ks(2) find_unique_key [of k ks] by (simp add: ks(3) find_map comp_def)
  have held: "list_ex (conflicts (se_pg env) arb (enc k new)) rows \<longleftrightarrow> k \<in> dom t"
    using key ks(2) by (auto simp: ks(3) list_ex_iff)
  show "place env (Do_Update keys f) (Some arb) [(n, arb)] (enc k new) rows = (Inr 1, rows @ [enc k new]) \<and>
      map_rows enc (rows @ [enc k new]) (t(k \<mapsto> new))" if "t k = None"
    using that map_rows_fresh [OF rows that] by (simp add: place_def found held domIff)
  show "place env (Do_Update keys f) (Some arb) [(n, arb)] (enc k new) rows = (Inl m, rows)"
    if "t k = Some old" "f (se_now env) (enc k old) (enc k new) = Inl m"
    using that by (simp add: place_def found domIff)
  show "\<exists>rows'. place env (Do_Update keys f) (Some arb) [(n, arb)] (enc k new) rows = (Inr 1, rows') \<and>
        map_rows enc rows' (t(k \<mapsto> r'))"
    if "t k = Some old" "f (se_now env) (enc k old) (enc k new) = Inr kvs" "assign kvs (enc k old) = enc k r'"
    using that map_rows_held [OF rows that(1), of "conflicts (se_pg env) arb (enc k new)" "assign kvs" r'] key
    by (simp add: place_def found domIff)
qed

end
