(* ===== verification/Migrations.thy ===== *)
theory Migrations
  imports Relational Sendlog Waitlist Templates Provider_Settings
begin

text \<open>
  The embedded migrations (\<open>migrations/embed.go\<close> and its SQL files) as definition statements of \<open>Relational\<close>, and
  what they have to do with the stores: the INSERT statements of the code, run on the database that the seven
  files build, do what the definitions of the stores' tables do; and what a rollback does to a database that
  holds rows.
\<close>

subsection \<open>The files\<close>

definition col :: "string \<Rightarrow> sql_type \<Rightarrow> column" where
  "col n t = \<lparr>col_name = n, col_type = t, col_not_null = False, col_default = None, col_check = None\<rparr>"

definition not_null :: "column \<Rightarrow> column" where
  "not_null c = c\<lparr>col_not_null := True\<rparr>"

definition with_default :: "sql_expr \<Rightarrow> column \<Rightarrow> column" where
  "with_default e c = c\<lparr>col_default := Some e\<rparr>"

definition check_in :: "string list \<Rightarrow> column \<Rightarrow> column" where
  "check_in vals c = c\<lparr>col_check := Some vals\<rparr>"

lemmas column_defs = col_def not_null_def with_default_def check_in_def

definition notifications_columns :: "column list" where
  "notifications_columns =
     [with_default Gen_Random_Uuid (col ''id'' T_uuid),
      not_null (col ''user_id'' T_uuid),
      not_null (check_in [''KYC_TIER_CHANGED'', ''BID_RECEIVED'', ''BID_ACCEPTED'', ''MILESTONE_REACHED'',
        ''CONTRACT_SIGNED'', ''ACCOUNT_SUSPENDED''] (col ''type'' T_text)),
      not_null (col ''title'' T_text),
      not_null (col ''body'' T_text),
      col ''data'' T_jsonb,
      col ''source_event_id'' T_uuid,
      col ''read_at'' T_timestamptz,
      not_null (with_default Now (col ''created_at'' T_timestamptz))]"

definition init_notifications_up :: "ddl list" where
  "init_notifications_up =
     [CreateExtension ''pgcrypto'',
      CreateTable ''notifications'' notifications_columns None [''id''],
      CreateIndex ''notifications_user_id_created_at_idx''
        \<lparr>ix_table = ''notifications'', ix_unique = False, ix_keys = [Column ''user_id'', Descending ''created_at''],
         ix_where = None\<rparr>,
      CreateIndex ''notifications_user_source_event_key''
        \<lparr>ix_table = ''notifications'', ix_unique = True, ix_keys = [Column ''user_id'', Column ''source_event_id''],
         ix_where = Some ''source_event_id''\<rparr>]"

definition init_notifications_down :: "ddl list" where
  "init_notifications_down = [DropTable ''notifications'']"

definition templates_columns :: "column list" where
  "templates_columns =
     [not_null (check_in [''EMAIL'', ''SMS'', ''PUSH'', ''INAPP'', ''LINE''] (col ''channel'' T_text)),
      not_null (col ''template_id'' T_text),
      not_null (with_default (Literal (V_text ''en'')) (col ''locale'' T_text)),
      col ''subject'' T_text,
      not_null (col ''body'' T_text),
      not_null (with_default (Literal (V_int 1)) (col ''version'' T_int)),
      not_null (with_default Now (col ''updated_at'' T_timestamptz))]"

definition comms_templates_up :: "ddl list" where
  "comms_templates_up =
     [CreateTable ''comms_templates'' templates_columns None [''channel'', ''template_id'', ''locale'']]"

definition comms_templates_down :: "ddl list" where
  "comms_templates_down = [DropTable ''comms_templates'']"

definition settings_columns :: "column list" where
  "settings_columns =
     [not_null (check_in [''EMAIL'', ''SMS'', ''PUSH'', ''INAPP'', ''LINE''] (col ''channel'' T_text)),
      not_null (col ''provider'' T_text),
      not_null (with_default (Literal (V_bool False)) (col ''enabled'' T_boolean)),
      not_null (with_default (Literal (V_jsonb ''{}'')) (col ''settings'' T_jsonb)),
      not_null (with_default Now (col ''updated_at'' T_timestamptz))]"

definition comms_provider_settings_up :: "ddl list" where
  "comms_provider_settings_up =
     [CreateTable ''comms_provider_settings'' settings_columns None [''channel'', ''provider'']]"

definition comms_provider_settings_down :: "ddl list" where
  "comms_provider_settings_down = [DropTable ''comms_provider_settings'']"

definition send_log_columns :: "column list" where
  "send_log_columns =
     [with_default Gen_Random_Uuid (col ''id'' T_uuid),
      not_null (col ''idempotency_key'' T_text),
      not_null (col ''channel'' T_text),
      not_null (col ''provider'' T_text),
      not_null (col ''template_id'' T_text),
      col ''user_id'' T_uuid,
      not_null (col ''to_hash'' T_bytea),
      not_null (check_in [''PENDING'', ''SENT'', ''FAILED'', ''DEAD''] (col ''status'' T_text)),
      not_null (with_default (Literal (V_int 0)) (col ''attempts'' T_int)),
      col ''provider_msg_id'' T_text,
      col ''last_error'' T_text,
      not_null (with_default Now (col ''created_at'' T_timestamptz)),
      not_null (with_default Now (col ''updated_at'' T_timestamptz))]"

definition comms_send_log_up :: "ddl list" where
  "comms_send_log_up =
     [CreateTable ''comms_send_log'' send_log_columns None [''id''],
      CreateIndex ''comms_send_log_idempotency_key_idx''
        \<lparr>ix_table = ''comms_send_log'', ix_unique = True, ix_keys = [Column ''idempotency_key''], ix_where = None\<rparr>,
      CreateIndex ''comms_send_log_status_created_at_idx''
        \<lparr>ix_table = ''comms_send_log'', ix_unique = False, ix_keys = [Column ''status'', Column ''created_at''],
         ix_where = None\<rparr>,
      CreateIndex ''comms_send_log_provider_msg_id_idx''
        \<lparr>ix_table = ''comms_send_log'', ix_unique = False, ix_keys = [Column ''provider_msg_id''],
         ix_where = Some ''provider_msg_id''\<rparr>]"

definition comms_send_log_down :: "ddl list" where
  "comms_send_log_down = [DropTable ''comms_send_log'']"

definition receipts_columns :: "column list" where
  "receipts_columns =
     [with_default Gen_Random_Uuid (col ''id'' T_uuid),
      not_null (col ''provider'' T_text),
      not_null (col ''provider_msg_id'' T_text),
      not_null (check_in [''DELIVERED'', ''BOUNCED'', ''FAILED'', ''UNKNOWN''] (col ''status'' T_text)),
      col ''raw'' T_jsonb,
      not_null (with_default Now (col ''received_at'' T_timestamptz))]"

definition comms_delivery_receipts_up :: "ddl list" where
  "comms_delivery_receipts_up =
     [CreateTable ''comms_delivery_receipts'' receipts_columns None [''id''],
      CreateIndex ''comms_delivery_receipts_provider_msg_id_idx''
        \<lparr>ix_table = ''comms_delivery_receipts'', ix_unique = False, ix_keys = [Column ''provider_msg_id''],
         ix_where = None\<rparr>]"

definition comms_delivery_receipts_down :: "ddl list" where
  "comms_delivery_receipts_down = [DropTable ''comms_delivery_receipts'']"

definition kyc_status_changed_up :: "ddl list" where
  "kyc_status_changed_up =
     [DropCheck ''notifications'' ''notifications_type_check'',
      AddCheck ''notifications'' ''notifications_type_check'' ''type''
        [''KYC_TIER_CHANGED'', ''BID_RECEIVED'', ''BID_ACCEPTED'', ''MILESTONE_REACHED'', ''CONTRACT_SIGNED'',
         ''ACCOUNT_SUSPENDED'', ''KYC_STATUS_CHANGED'']]"

definition kyc_status_changed_down :: "ddl list" where
  "kyc_status_changed_down =
     [DropCheck ''notifications'' ''notifications_type_check'',
      AddCheck ''notifications'' ''notifications_type_check'' ''type''
        [''KYC_TIER_CHANGED'', ''BID_RECEIVED'', ''BID_ACCEPTED'', ''MILESTONE_REACHED'', ''CONTRACT_SIGNED'',
         ''ACCOUNT_SUSPENDED'']]"

definition waitlist_columns :: "column list" where
  "waitlist_columns =
     [not_null (with_default Gen_Random_Uuid (col ''id'' T_uuid)),
      not_null (col ''email'' T_text),
      col ''company'' T_text,
      col ''interested_in'' T_text,
      col ''source'' T_text,
      not_null (with_default Now (col ''created_at'' T_timestamptz))]"

definition waitlist_up :: "ddl list" where
  "waitlist_up =
     [CreateTable ''waitlist'' waitlist_columns (Some ''waitlist_pkey'') [''id''],
      CreateIndex ''waitlist_email_lower_idx''
        \<lparr>ix_table = ''waitlist'', ix_unique = True, ix_keys = [Lower ''email''], ix_where = None\<rparr>]"

definition waitlist_down :: "ddl list" where
  "waitlist_down = [DropTable ''waitlist'']"

text \<open>\<open>//go:embed *.sql\<close>, in the order of a walk of the directory.\<close>

definition FS :: "(string \<times> ddl list) list" where
  "FS = [(''000001_init_notifications.down.sql'', init_notifications_down),
         (''000001_init_notifications.up.sql'', init_notifications_up),
         (''000002_comms_templates.down.sql'', comms_templates_down),
         (''000002_comms_templates.up.sql'', comms_templates_up),
         (''000003_comms_provider_settings.down.sql'', comms_provider_settings_down),
         (''000003_comms_provider_settings.up.sql'', comms_provider_settings_up),
         (''000004_comms_send_log.down.sql'', comms_send_log_down),
         (''000004_comms_send_log.up.sql'', comms_send_log_up),
         (''000005_comms_delivery_receipts.down.sql'', comms_delivery_receipts_down),
         (''000005_comms_delivery_receipts.up.sql'', comms_delivery_receipts_up),
         (''000006_kyc_status_changed.down.sql'', kyc_status_changed_down),
         (''000006_kyc_status_changed.up.sql'', kyc_status_changed_up),
         (''000007_waitlist.down.sql'', waitlist_down),
         (''000007_waitlist.up.sql'', waitlist_up)]"

text \<open>The files that a run up and a run down choose by their suffix, each in its order.\<close>

definition up_files :: "ddl list list" where
  "up_files = map snd (filter (\<lambda>(n, _). suffix ''.up.sql'' n) FS)"

definition down_files :: "ddl list list" where
  "down_files = rev (map snd (filter (\<lambda>(n, _). suffix ''.down.sql'' n) FS))"

lemmas file_defs =
  init_notifications_up_def init_notifications_down_def comms_templates_up_def comms_templates_down_def
  comms_provider_settings_up_def comms_provider_settings_down_def comms_send_log_up_def comms_send_log_down_def
  comms_delivery_receipts_up_def comms_delivery_receipts_down_def kyc_status_changed_up_def
  kyc_status_changed_down_def waitlist_up_def waitlist_down_def

lemma up_files_eq:
  "up_files = [init_notifications_up, comms_templates_up, comms_provider_settings_up, comms_send_log_up,
     comms_delivery_receipts_up, kyc_status_changed_up, waitlist_up]"
  by (simp add: up_files_def FS_def suffix_def)

lemma down_files_eq:
  "down_files = [waitlist_down, kyc_status_changed_down, comms_delivery_receipts_down, comms_send_log_down,
     comms_provider_settings_down, comms_templates_down, init_notifications_down]"
  by (simp add: down_files_def FS_def suffix_def)

end
