(* ===== verification/Schema.thy ===== *)
theory Schema
  imports Migrations
begin

text \<open>
  The schema that the migrations leave, and the INSERT statements of the stores on it.
\<close>

subsection \<open>The migrated database\<close>

definition notification_types :: "string list" where
  "notification_types = [''KYC_TIER_CHANGED'', ''BID_RECEIVED'', ''BID_ACCEPTED'', ''MILESTONE_REACHED'',
     ''CONTRACT_SIGNED'', ''ACCOUNT_SUSPENDED'', ''KYC_STATUS_CHANGED'']"

definition migrated :: database where
  "migrated = \<lparr>
     db_tables = [
       ''notifications'' \<mapsto> \<lparr>tb_columns = keyed [''id''] notifications_columns,
          tb_checks = [(''notifications_type_check'', ''type'', notification_types)], tb_rows = []\<rparr>,
       ''comms_templates'' \<mapsto> \<lparr>tb_columns = keyed [''channel'', ''template_id'', ''locale''] templates_columns,
          tb_checks = column_checks ''comms_templates'' templates_columns, tb_rows = []\<rparr>,
       ''comms_provider_settings'' \<mapsto> \<lparr>tb_columns = keyed [''channel'', ''provider''] settings_columns,
          tb_checks = column_checks ''comms_provider_settings'' settings_columns, tb_rows = []\<rparr>,
       ''comms_send_log'' \<mapsto> \<lparr>tb_columns = keyed [''id''] send_log_columns,
          tb_checks = column_checks ''comms_send_log'' send_log_columns, tb_rows = []\<rparr>,
       ''comms_delivery_receipts'' \<mapsto> \<lparr>tb_columns = keyed [''id''] receipts_columns,
          tb_checks = column_checks ''comms_delivery_receipts'' receipts_columns, tb_rows = []\<rparr>,
       ''waitlist'' \<mapsto> \<lparr>tb_columns = keyed [''id''] waitlist_columns, tb_checks = [], tb_rows = []\<rparr>],
     db_indexes = [
       (''notifications_pkey'', \<lparr>ix_table = ''notifications'', ix_unique = True, ix_keys = [Column ''id''], ix_where = None\<rparr>),
       (''notifications_user_id_created_at_idx'', \<lparr>ix_table = ''notifications'', ix_unique = False,
          ix_keys = [Column ''user_id'', Descending ''created_at''], ix_where = None\<rparr>),
       (''notifications_user_source_event_key'', \<lparr>ix_table = ''notifications'', ix_unique = True,
          ix_keys = [Column ''user_id'', Column ''source_event_id''], ix_where = Some ''source_event_id''\<rparr>),
       (''comms_templates_pkey'', \<lparr>ix_table = ''comms_templates'', ix_unique = True,
          ix_keys = [Column ''channel'', Column ''template_id'', Column ''locale''], ix_where = None\<rparr>),
       (''comms_provider_settings_pkey'', \<lparr>ix_table = ''comms_provider_settings'', ix_unique = True,
          ix_keys = [Column ''channel'', Column ''provider''], ix_where = None\<rparr>),
       (''comms_send_log_pkey'', \<lparr>ix_table = ''comms_send_log'', ix_unique = True, ix_keys = [Column ''id''], ix_where = None\<rparr>),
       (''comms_send_log_idempotency_key_idx'', \<lparr>ix_table = ''comms_send_log'', ix_unique = True,
          ix_keys = [Column ''idempotency_key''], ix_where = None\<rparr>),
       (''comms_send_log_status_created_at_idx'', \<lparr>ix_table = ''comms_send_log'', ix_unique = False,
          ix_keys = [Column ''status'', Column ''created_at''], ix_where = None\<rparr>),
       (''comms_send_log_provider_msg_id_idx'', \<lparr>ix_table = ''comms_send_log'', ix_unique = False,
          ix_keys = [Column ''provider_msg_id''], ix_where = Some ''provider_msg_id''\<rparr>),
       (''comms_delivery_receipts_pkey'', \<lparr>ix_table = ''comms_delivery_receipts'', ix_unique = True,
          ix_keys = [Column ''id''], ix_where = None\<rparr>),
       (''comms_delivery_receipts_provider_msg_id_idx'', \<lparr>ix_table = ''comms_delivery_receipts'', ix_unique = False,
          ix_keys = [Column ''provider_msg_id''], ix_where = None\<rparr>),
       (''waitlist_pkey'', \<lparr>ix_table = ''waitlist'', ix_unique = True, ix_keys = [Column ''id''], ix_where = None\<rparr>),
       (''waitlist_email_lower_idx'', \<lparr>ix_table = ''waitlist'', ix_unique = True, ix_keys = [Lower ''email''], ix_where = None\<rparr>)],
     db_extensions = [''pgcrypto'']\<rparr>"

lemma column_checks_notifications:
  "column_checks ''notifications'' notifications_columns =
     [(''notifications_type_check'', ''type'', [''KYC_TIER_CHANGED'', ''BID_RECEIVED'', ''BID_ACCEPTED'',
        ''MILESTONE_REACHED'', ''CONTRACT_SIGNED'', ''ACCOUNT_SUSPENDED''])]"
  by (simp add: column_checks_def notifications_columns_def column_defs)

lemma column_checks_waitlist: "column_checks t waitlist_columns = []"
  by (simp add: column_checks_def waitlist_columns_def column_defs)

lemma migrated_up: "exec_files pg up_files empty_db = (Inr (), migrated)"
  by (simp add: up_files_eq file_defs exec_file_def empty_db_def relation_exists_def
     column_checks_notifications column_checks_waitlist migrated_def notification_types_def fun_eq_iff)

end
