(* ===== verification/Statements.thy ===== *)
theory Statements
  imports Schema
begin

text \<open>
  The INSERT statements of the stores, as the text of their queries has them, run on the migrated database; and
  that they do to its rows what the statements of the typed tables do to theirs.
\<close>

subsection \<open>The rows of the typed tables\<close>

definition opt :: "('a \<Rightarrow> sql_value) \<Rightarrow> 'a option \<Rightarrow> sql_value" where
  "opt f x = (case x of None \<Rightarrow> Null | Some a \<Rightarrow> f a)"

lemma opt_simps [simp]: "opt f None = Null" "opt f (Some a) = f a"
  by (simp_all add: opt_def)

definition notification_row :: "notification \<Rightarrow> sql_row" where
  "notification_row n = mk_row [(''id'', V_uuid (ID n)), (''user_id'', V_uuid (UserID n)),
     (''type'', V_text (Type n)), (''title'', V_text (Title n)), (''body'', V_text (notification.Body n)),
     (''data'', opt V_jsonb (Data n)), (''source_event_id'', opt V_uuid (SourceEventID n)),
     (''read_at'', opt V_time (ReadAt n)), (''created_at'', V_time (CreatedAt n))]"

definition log_sql_row :: "log_row \<Rightarrow> sql_row" where
  "log_sql_row r = mk_row [(''id'', V_uuid (l_id r)), (''idempotency_key'', V_text (l_key r)),
     (''channel'', V_text (l_channel r)), (''provider'', V_text (l_provider r)),
     (''template_id'', V_text (l_template r)), (''user_id'', opt V_uuid (l_user r)),
     (''to_hash'', V_bytea (l_to_hash r)), (''status'', V_text (l_status r)), (''attempts'', V_int (l_attempts r)),
     (''provider_msg_id'', opt V_text (l_msg_id r)), (''last_error'', opt V_text (l_error r)),
     (''created_at'', V_time (l_created r)), (''updated_at'', V_time (l_updated r))]"

definition receipt_row :: "receipt \<Rightarrow> sql_row" where
  "receipt_row r = mk_row [(''id'', V_uuid (rc_id r)), (''provider'', V_text (rc_provider r)),
     (''provider_msg_id'', V_text (rc_msg_id r)), (''status'', V_text (rc_status r)),
     (''raw'', opt V_jsonb (rc_raw r)), (''received_at'', V_time (rc_received_at r))]"

definition waitlist_row :: "waitlist_entry \<Rightarrow> sql_row" where
  "waitlist_row w = mk_row [(''id'', V_uuid (W_ID w)), (''email'', V_text (W_Email w)),
     (''company'', opt V_text (W_Company w)), (''interested_in'', opt V_text (W_InterestedIn w)),
     (''source'', opt V_text (W_Source w)), (''created_at'', V_time (W_CreatedAt w))]"

lemma mk_row_simps [simp]:
  "mk_row [] c = Null" "mk_row ((k, v) # kvs) c = (if c = k then v else mk_row kvs c)"
  by (simp_all add: mk_row_def)

subsection \<open>The statements\<close>

definition insert_notification :: "notification \<Rightarrow> insert_cmd" where
  "insert_notification n = \<lparr>in_table = ''notifications'',
     in_values = [(''id'', Arg (V_uuid (ID n))), (''user_id'', Arg (V_uuid (UserID n))),
       (''type'', Arg (V_text (Type n))), (''title'', Arg (V_text (Title n))), (''body'', Arg (V_text (notification.Body n))),
       (''data'', Arg (opt V_jsonb (Data n))), (''source_event_id'', Arg (opt V_uuid (SourceEventID n))),
       (''read_at'', Arg (opt V_time (ReadAt n))), (''created_at'', Arg (V_time (CreatedAt n)))],
     in_conflict = Do_Nothing [Column ''user_id'', Column ''source_event_id''] (Some ''source_event_id'')\<rparr>"

definition insert_reservation :: "uuid \<Rightarrow> SendLogRow \<Rightarrow> insert_cmd" where
  "insert_reservation i r = \<lparr>in_table = ''comms_send_log'',
     in_values = [(''id'', Arg (V_uuid i)), (''idempotency_key'', Arg (V_text (Log_IdempotencyKey r))),
       (''channel'', Arg (V_text (Log_Channel r))), (''provider'', Arg (V_text (Log_Provider r))),
       (''template_id'', Arg (V_text (Log_TemplateID r))), (''user_id'', Arg (opt V_uuid (Log_UserID r))),
       (''to_hash'', Arg (V_bytea (Log_ToHash r))), (''status'', Arg (V_text StatusPending)),
       (''attempts'', Literal (V_int 0)), (''created_at'', Now), (''updated_at'', Now)],
     in_conflict = Do_Nothing [Column ''idempotency_key''] None\<rparr>"

definition insert_receipt :: "receipt \<Rightarrow> insert_cmd" where
  "insert_receipt r = \<lparr>in_table = ''comms_delivery_receipts'',
     in_values = [(''id'', Arg (V_uuid (rc_id r))), (''provider'', Arg (V_text (rc_provider r))),
       (''provider_msg_id'', Arg (V_text (rc_msg_id r))), (''status'', Arg (V_text (rc_status r))),
       (''raw'', Arg (opt V_jsonb (rc_raw r))), (''received_at'', Now)],
     in_conflict = Raise\<rparr>"

definition insert_waitlist :: "waitlist_entry \<Rightarrow> insert_cmd" where
  "insert_waitlist w = \<lparr>in_table = ''waitlist'',
     in_values = [(''id'', Arg (V_uuid (W_ID w))), (''email'', Arg (V_text (W_Email w))),
       (''company'', Arg (opt V_text (W_Company w))), (''interested_in'', Arg (opt V_text (W_InterestedIn w))),
       (''source'', Arg (opt V_text (W_Source w))), (''created_at'', Arg (V_time (W_CreatedAt w)))],
     in_conflict = Do_Nothing [Lower ''email''] None\<rparr>"

subsection \<open>The tables and the indexes they use\<close>

lemma migrated_tables:
  "db_tables migrated ''notifications'' = Some \<lparr>tb_columns = keyed [''id''] notifications_columns,
     tb_checks = [(''notifications_type_check'', ''type'', notification_types)], tb_rows = []\<rparr>"
  "db_tables migrated ''comms_send_log'' = Some \<lparr>tb_columns = keyed [''id''] send_log_columns,
     tb_checks = column_checks ''comms_send_log'' send_log_columns, tb_rows = []\<rparr>"
  "db_tables migrated ''comms_delivery_receipts'' = Some \<lparr>tb_columns = keyed [''id''] receipts_columns,
     tb_checks = column_checks ''comms_delivery_receipts'' receipts_columns, tb_rows = []\<rparr>"
  "db_tables migrated ''waitlist'' = Some \<lparr>tb_columns = keyed [''id''] waitlist_columns, tb_checks = [], tb_rows = []\<rparr>"
  by (simp_all add: migrated_def)

definition pkey_index :: "string \<Rightarrow> index" where
  "pkey_index t = \<lparr>ix_table = t, ix_unique = True, ix_keys = [Column ''id''], ix_where = None\<rparr>"

definition source_index :: index where
  "source_index = \<lparr>ix_table = ''notifications'', ix_unique = True,
     ix_keys = [Column ''user_id'', Column ''source_event_id''], ix_where = Some ''source_event_id''\<rparr>"

definition key_index :: index where
  "key_index = \<lparr>ix_table = ''comms_send_log'', ix_unique = True, ix_keys = [Column ''idempotency_key''], ix_where = None\<rparr>"

definition email_index :: index where
  "email_index = \<lparr>ix_table = ''waitlist'', ix_unique = True, ix_keys = [Lower ''email''], ix_where = None\<rparr>"

lemmas index_defs = pkey_index_def source_index_def key_index_def email_index_def

lemma conflicts_notifications:
  "conflicts pg (pkey_index t) (notification_row a) (notification_row b) \<longleftrightarrow> ID a = ID b"
  "conflicts pg source_index (notification_row a) (notification_row b) \<longleftrightarrow> same_source a b"
  by (cases "SourceEventID a"; cases "SourceEventID b";
    force simp: conflicts_def index_entry_def index_defs notification_row_def same_source_def)+

lemma conflicts_log:
  "conflicts pg (pkey_index t) (log_sql_row a) (log_sql_row b) \<longleftrightarrow> l_id a = l_id b"
  "conflicts pg key_index (log_sql_row a) (log_sql_row b) \<longleftrightarrow> l_key a = l_key b"
  by (auto simp: conflicts_def index_entry_def index_defs log_sql_row_def)

lemma conflicts_receipts:
  "conflicts pg (pkey_index t) (receipt_row a) (receipt_row b) \<longleftrightarrow> rc_id a = rc_id b"
  by (auto simp: conflicts_def index_entry_def index_defs receipt_row_def)

lemma conflicts_waitlist:
  "conflicts pg (pkey_index t) (waitlist_row a) (waitlist_row b) \<longleftrightarrow> W_ID a = W_ID b"
  "conflicts pg email_index (waitlist_row a) (waitlist_row b) \<longleftrightarrow>
     pg_lower pg (W_Email a) = pg_lower pg (W_Email b)"
  by (auto simp: conflicts_def index_entry_def index_defs waitlist_row_def)

subsection \<open>What each statement does to the rows\<close>

lemma coerce_opt [simp]:
  "coerce pg (opt V_uuid u) = Inr (opt V_uuid u)" "coerce pg (opt V_text t) = Inr (opt V_text t)"
  "coerce pg (opt V_time i) = Inr (opt V_time (map_option (pg_time pg) i))"
  by (cases u, simp_all) (cases t, simp_all, cases i, simp_all)

lemma has_type_opt [simp]:
  "has_type (opt V_uuid u) T_uuid" "has_type (opt V_text t) T_text" "has_type (opt V_time i) T_timestamptz"
  "has_type (opt V_jsonb d) T_jsonb"
  by (cases u; cases t; cases i; cases d; simp)+

lemmas insert_defs = insert_into_def keyed_def column_defs column_expr_def infer_def violated_def check_holds_def

text \<open>A document the column refuses is an error before anything else is looked at; otherwise the row proposed is
  the one the typed statement stores.\<close>

definition stored_notification :: "pg \<Rightarrow> notification \<Rightarrow> string option \<Rightarrow> notification" where
  "stored_notification pg n d = n\<lparr>CreatedAt := pg_time pg (CreatedAt n),
     ReadAt := map_option (pg_time pg) (ReadAt n), Data := d\<rparr>"

lemma coerce_document:
  obtains d where "x = Some d" "coerce pg (opt V_jsonb x) = Inl ''invalid input syntax for type json''" "pg_jsonb pg d = None"
  | y where "coerce pg (opt V_jsonb x) = Inr (opt V_jsonb y)" "x = None \<and> y = None \<or> (\<exists>d e. x = Some d \<and> pg_jsonb pg d = Some e \<and> y = Some e)"
  by (cases x; cases "pg_jsonb pg (the x)") auto

lemma insert_stmt_stored:
  assumes "Data n = None \<and> y = None \<or> (\<exists>d e. Data n = Some d \<and> pg_jsonb pg d = Some e \<and> y = Some e)"
  shows "insert_stmt pg n s = insert_row (stored_notification pg n y) s"
  using assms by (cases n) (auto simp: insert_stmt_def stored_notification_def)

lemma new_notification:
  "new_row env (in_values (insert_notification n)) (keyed [''id''] notifications_columns) =
     (case coerce (se_pg env) (opt V_jsonb (Data n)) of
        Inl m \<Rightarrow> Inl m
      | Inr v \<Rightarrow> if \<not> has_type v T_jsonb then Inl ''column data is of another type''
          else Inr [(''id'', V_uuid (ID n)), (''user_id'', V_uuid (UserID n)),
     (''type'', V_text (Type n)), (''title'', V_text (Title n)), (''body'', V_text (notification.Body n)),
     (''data'', v), (''source_event_id'', opt V_uuid (SourceEventID n)),
     (''read_at'', opt V_time (map_option (pg_time (se_pg env)) (ReadAt n))),
     (''created_at'', V_time (pg_time (se_pg env) (CreatedAt n)))])"
  by (simp add: insert_defs notifications_columns_def insert_notification_def split: sum.split)

lemma notification_row_stored:
  "mk_row [(''id'', V_uuid (ID n)), (''user_id'', V_uuid (UserID n)), (''type'', V_text (Type n)),
     (''title'', V_text (Title n)), (''body'', V_text (notification.Body n)), (''data'', opt V_jsonb y),
     (''source_event_id'', opt V_uuid (SourceEventID n)), (''read_at'', opt V_time (map_option (pg_time pg) (ReadAt n))),
     (''created_at'', V_time (pg_time pg (CreatedAt n)))] = notification_row (stored_notification pg n y)"
  by (simp add: notification_row_def stored_notification_def)

lemma violated_notification:
  "violated \<lparr>tb_columns = keyed [''id''] notifications_columns,
     tb_checks = [(''notifications_type_check'', ''type'', notification_types)], tb_rows = rows\<rparr> (notification_row n) =
   (if notifications_type_check (Type n) then None
    else Some ''new row violates check constraint notifications_type_check'')"
  by (simp add: insert_defs notifications_columns_def notification_row_def notification_types_def
      notifications_type_check_def)

lemma insert_notification_into:
  assumes "\<not> ix_unique other"
  shows "insert_into env (insert_notification n)
     [(''notifications_pkey'', pkey_index ''notifications''), (other_name, other),
      (''notifications_user_source_event_key'', source_index)]
     \<lparr>tb_columns = keyed [''id''] notifications_columns,
      tb_checks = [(''notifications_type_check'', ''type'', notification_types)],
      tb_rows = map notification_row s\<rparr> =
   (let (r, s') = insert_stmt (se_pg env) n s in
    (map_sum id (\<lambda>_. if length s' = length s then 0 else 1) r, map notification_row s'))"
  (is "insert_into env ?cmd ?ixs ?tb = _")
proof -
  have cols: "set (map fst (in_values ?cmd)) \<subseteq> set (map col_name (tb_columns ?tb))"
    by (simp add: insert_notification_def insert_defs notifications_columns_def)
  have arb: "arbiter (in_conflict ?cmd) ?ixs = Inr (Some source_index)"
    using assms by (simp add: insert_notification_def infer_def index_defs)
  have table: "in_table ?cmd = ''notifications''" "in_conflict ?cmd = Do_Nothing [Column ''user_id'', Column ''source_event_id''] (Some ''source_event_id'')"
    by (simp_all add: insert_notification_def)
  show ?thesis
  proof (rule coerce_document [of "Data n" "se_pg env"])
    fix d assume "Data n = Some d" "coerce (se_pg env) (opt V_jsonb (Data n)) = Inl ''invalid input syntax for type json''"
      "pg_jsonb (se_pg env) d = None"
    then show ?thesis using cols arb
      by (simp add: insert_into_def new_notification insert_stmt_def)
  next
    fix y assume y: "coerce (se_pg env) (opt V_jsonb (Data n)) = Inr (opt V_jsonb y)"
      "Data n = None \<and> y = None \<or> (\<exists>d e. Data n = Some d \<and> pg_jsonb (se_pg env) d = Some e \<and> y = Some e)"
    let ?st = "stored_notification (se_pg env) n y"
    have ty: "Type ?st = Type n" by (simp add: stored_notification_def)
    have uniq: "ix_unique (pkey_index t)" "ix_unique source_index" for t by (simp_all add: index_defs)
    show ?thesis
      using cols arb y(1) assms
      by (simp add: insert_into_def new_notification notification_row_stored violated_notification
          insert_stmt_stored [OF y(2)] insert_row_def place_do_nothing conflicts_notifications ty uniq table
          eq_commute [of "ID ?st"])
  qed
qed

text \<open>The other three send no document, or one that \<open>coerce_document\<close> splits on.\<close>

lemma insert_into_placed:
  assumes "set (map fst (in_values cmd)) \<subseteq> set (map col_name (tb_columns tb))"
    and "arbiter (in_conflict cmd) ixs = Inr arb" "new_row env (in_values cmd) (tb_columns tb) = Inr kvs"
    and "violated tb (mk_row kvs) = None"
  shows "insert_into env cmd ixs tb = place env (in_conflict cmd) arb ixs (mk_row kvs) (tb_rows tb)"
  using assms by (simp add: insert_into_def)

definition reserved :: "uuid \<Rightarrow> instant \<Rightarrow> SendLogRow \<Rightarrow> log_row" where
  "reserved i db_now r = \<lparr>l_id = i, l_key = Log_IdempotencyKey r, l_channel = Log_Channel r,
     l_provider = Log_Provider r, l_template = Log_TemplateID r, l_user = Log_UserID r,
     l_to_hash = Log_ToHash r, l_status = StatusPending, l_attempts = 0, l_msg_id = None,
     l_error = None, l_created = db_now, l_updated = db_now\<rparr>"

lemma insert_reservation_into:
  assumes "\<not> ix_unique other" "\<not> ix_unique other'"
  shows "insert_into env (insert_reservation i r)
     [(''comms_send_log_pkey'', pkey_index ''comms_send_log''),
      (''comms_send_log_idempotency_key_idx'', key_index), (other_name, other), (other_name', other')]
     \<lparr>tb_columns = keyed [''id''] send_log_columns, tb_checks = column_checks ''comms_send_log'' send_log_columns,
      tb_rows = map log_sql_row s\<rparr> =
   map_prod id (map log_sql_row) (reserve_stmt i (se_now env) r s)"
  (is "insert_into env ?cmd ?ixs ?tb = _")
proof -
  let ?kvs = "[(''id'', V_uuid i), (''idempotency_key'', V_text (Log_IdempotencyKey r)),
     (''channel'', V_text (Log_Channel r)), (''provider'', V_text (Log_Provider r)),
     (''template_id'', V_text (Log_TemplateID r)), (''user_id'', opt V_uuid (Log_UserID r)),
     (''to_hash'', V_bytea (Log_ToHash r)), (''status'', V_text StatusPending), (''attempts'', V_int 0),
     (''provider_msg_id'', Null), (''last_error'', Null),
     (''created_at'', V_time (se_now env)), (''updated_at'', V_time (se_now env))]"
  have row: "mk_row ?kvs = log_sql_row (reserved i (se_now env) r)"
    by (simp add: log_sql_row_def reserved_def)
  have "insert_into env ?cmd ?ixs ?tb = place env (in_conflict ?cmd) (Some key_index) ?ixs (mk_row ?kvs) (tb_rows ?tb)"
  proof (rule insert_into_placed)
    show "set (map fst (in_values ?cmd)) \<subseteq> set (map col_name (tb_columns ?tb))"
      by (simp add: insert_reservation_def insert_defs send_log_columns_def)
    show "arbiter (in_conflict ?cmd) ?ixs = Inr (Some key_index)"
      by (simp add: insert_reservation_def infer_def index_defs)
    show "new_row env (in_values ?cmd) (tb_columns ?tb) = Inr ?kvs"
      by (simp add: insert_reservation_def insert_defs send_log_columns_def)
    show "violated ?tb (mk_row ?kvs) = None"
      by (simp add: insert_defs send_log_columns_def column_checks_def status_defs)
  qed
  moreover have "in_conflict ?cmd = Do_Nothing [Column ''idempotency_key''] None" by (simp add: insert_reservation_def)
  moreover have "ix_unique (pkey_index t)" "ix_unique key_index" for t by (simp_all add: index_defs)
  moreover have "l_id (reserved i (se_now env) r) = i" "l_key (reserved i (se_now env) r) = Log_IdempotencyKey r"
    by (simp_all add: reserved_def)
  ultimately show ?thesis using assms
    by (simp add: row place_do_nothing conflicts_log reserve_stmt_def reserved_def [symmetric]
        eq_commute [of i] eq_commute [of "Log_IdempotencyKey r"])
qed

lemma insert_waitlist_into:
  "insert_into env (insert_waitlist w)
     [(''waitlist_pkey'', pkey_index ''waitlist''), (''waitlist_email_lower_idx'', email_index)]
     \<lparr>tb_columns = keyed [''id''] waitlist_columns, tb_checks = [], tb_rows = map waitlist_row s\<rparr> =
   map_prod id (map waitlist_row) (waitlist_stmt (se_pg env) w s)"
  (is "insert_into env ?cmd ?ixs ?tb = _")
proof -
  let ?w = "w\<lparr>W_CreatedAt := pg_time (se_pg env) (W_CreatedAt w)\<rparr>"
  let ?kvs = "[(''id'', V_uuid (W_ID w)), (''email'', V_text (W_Email w)), (''company'', opt V_text (W_Company w)),
     (''interested_in'', opt V_text (W_InterestedIn w)), (''source'', opt V_text (W_Source w)),
     (''created_at'', V_time (pg_time (se_pg env) (W_CreatedAt w)))]"
  have row: "mk_row ?kvs = waitlist_row ?w" by (simp add: waitlist_row_def)
  have "insert_into env ?cmd ?ixs ?tb = place env (in_conflict ?cmd) (Some email_index) ?ixs (mk_row ?kvs) (tb_rows ?tb)"
  proof (rule insert_into_placed)
    show "set (map fst (in_values ?cmd)) \<subseteq> set (map col_name (tb_columns ?tb))"
      by (simp add: insert_waitlist_def insert_defs waitlist_columns_def)
    show "arbiter (in_conflict ?cmd) ?ixs = Inr (Some email_index)"
      by (simp add: insert_waitlist_def infer_def index_defs)
    show "new_row env (in_values ?cmd) (tb_columns ?tb) = Inr ?kvs"
      by (simp add: insert_waitlist_def insert_defs waitlist_columns_def)
    show "violated ?tb (mk_row ?kvs) = None"
      by (simp add: insert_defs waitlist_columns_def)
  qed
  moreover have "in_conflict ?cmd = Do_Nothing [Lower ''email''] None" by (simp add: insert_waitlist_def)
  moreover have "ix_unique (pkey_index t)" "ix_unique email_index" for t by (simp_all add: index_defs)
  ultimately show ?thesis
    by (simp add: row place_do_nothing conflicts_waitlist waitlist_stmt_def eq_commute [of "W_ID w"]
        eq_commute [of "pg_lower (se_pg env) (W_Email w)"])
qed

lemma insert_receipt_into:
  assumes "\<not> ix_unique other" "rc_received_at r = se_now env"
  shows "insert_into env (insert_receipt r)
     [(''comms_delivery_receipts_pkey'', pkey_index ''comms_delivery_receipts''), (other_name, other)]
     \<lparr>tb_columns = keyed [''id''] receipts_columns,
      tb_checks = column_checks ''comms_delivery_receipts'' receipts_columns, tb_rows = map receipt_row s\<rparr> =
   map_prod (map_sum id (\<lambda>_. 1)) (map receipt_row) (receipt_insert (se_pg env) r s)"
  (is "insert_into env ?cmd ?ixs ?tb = _")
proof -
  have cols: "set (map fst (in_values ?cmd)) \<subseteq> set (map col_name (tb_columns ?tb))"
    by (simp add: insert_receipt_def insert_defs receipts_columns_def)
  have act: "in_conflict ?cmd = Raise" by (simp add: insert_receipt_def)
  have new: "new_row env (in_values ?cmd) (keyed [''id''] receipts_columns) =
      (case coerce (se_pg env) (opt V_jsonb (rc_raw r)) of
         Inl m \<Rightarrow> Inl m
       | Inr v \<Rightarrow> if \<not> has_type v T_jsonb then Inl ''column raw is of another type''
           else Inr [(''id'', V_uuid (rc_id r)), (''provider'', V_text (rc_provider r)),
             (''provider_msg_id'', V_text (rc_msg_id r)), (''status'', V_text (rc_status r)), (''raw'', v),
             (''received_at'', V_time (rc_received_at r))])"
    by (simp add: insert_defs receipts_columns_def insert_receipt_def assms(2) split: sum.split)
  have row: "mk_row [(''id'', V_uuid (rc_id r)), (''provider'', V_text (rc_provider r)),
     (''provider_msg_id'', V_text (rc_msg_id r)), (''status'', V_text (rc_status r)), (''raw'', opt V_jsonb y),
     (''received_at'', V_time (rc_received_at r))] = receipt_row (r\<lparr>rc_raw := y\<rparr>)" for y
    by (simp add: receipt_row_def)
  have bad: "violated ?tb (receipt_row r') = (if receipt_check (rc_status r') then None
      else Some ''new row violates check constraint comms_delivery_receipts_status_check'')" for r'
    by (simp add: insert_defs receipts_columns_def column_checks_def receipt_row_def receipt_check_def)
  have uniq: "ix_unique (pkey_index t)" for t by (simp add: index_defs)
  show ?thesis
  proof (rule coerce_document [of "rc_raw r" "se_pg env"])
    fix d assume "rc_raw r = Some d" "coerce (se_pg env) (opt V_jsonb (rc_raw r)) = Inl ''invalid input syntax for type json''"
      "pg_jsonb (se_pg env) d = None"
    then show ?thesis using cols by (simp add: insert_into_def new act receipt_insert_def)
  next
    fix y assume y: "coerce (se_pg env) (opt V_jsonb (rc_raw r)) = Inr (opt V_jsonb y)"
      "rc_raw r = None \<and> y = None \<or> (\<exists>d e. rc_raw r = Some d \<and> pg_jsonb (se_pg env) d = Some e \<and> y = Some e)"
    have "receipt_insert (se_pg env) r s = receipt_stmt (r\<lparr>rc_raw := y\<rparr>) s"
      using y(2) by (cases r) (auto simp: receipt_insert_def)
    then show ?thesis using cols y(1) assms(1)
      by (simp add: insert_into_def new act row bad place_raise conflicts_receipts receipt_stmt_def uniq
          eq_commute [of "rc_id r"])
  qed
qed

subsection \<open>Upserts\<close>

definition template_sql_row :: "string \<times> string \<times> string \<Rightarrow> template_row \<Rightarrow> sql_row" where
  "template_sql_row k r = (case k of (ch, tid, loc) \<Rightarrow> mk_row [(''channel'', V_text ch), (''template_id'', V_text tid),
     (''locale'', V_text loc), (''subject'', opt V_text (row_subject r)), (''body'', V_text (row_body r)),
     (''version'', V_int (row_version r)), (''updated_at'', V_time (row_updated_at r))])"

definition settings_sql_row :: "string \<times> string \<Rightarrow> settings_row \<Rightarrow> sql_row" where
  "settings_sql_row k r = (case k of (ch, prov) \<Rightarrow> mk_row [(''channel'', V_text ch), (''provider'', V_text prov),
     (''enabled'', V_bool (sr_enabled r)), (''settings'', V_jsonb (sr_settings r)),
     (''updated_at'', V_time (sr_updated_at r))])"

text \<open>\<open>integer out of range\<close> is the overflow of a 32-bit column.\<close>

definition upsert_template :: "string \<Rightarrow> string \<Rightarrow> string \<Rightarrow> string option \<Rightarrow> string \<Rightarrow> insert_cmd" where
  "upsert_template ch tid loc subject body = \<lparr>in_table = ''comms_templates'',
     in_values = [(''channel'', Arg (V_text ch)), (''template_id'', Arg (V_text tid)), (''locale'', Arg (V_text loc)),
       (''subject'', Arg (opt V_text subject)), (''body'', Arg (V_text body)), (''version'', Literal (V_int 1)),
       (''updated_at'', Now)],
     in_conflict = Do_Update [Column ''channel'', Column ''template_id'', Column ''locale'']
       (\<lambda>db_now old excluded. case old ''version'' of
          V_int v \<Rightarrow> if v \<ge> 2147483647 then Inl ''integer out of range''
            else Inr [(''subject'', excluded ''subject''), (''body'', excluded ''body''),
              (''version'', V_int (v + 1)), (''updated_at'', V_time db_now)]
        | _ \<Rightarrow> Inr [(''subject'', excluded ''subject''), (''body'', excluded ''body''), (''version'', Null),
              (''updated_at'', V_time db_now)])\<rparr>"

definition upsert_settings :: "string \<Rightarrow> string \<Rightarrow> bool \<Rightarrow> string \<Rightarrow> insert_cmd" where
  "upsert_settings ch prov enabled js = \<lparr>in_table = ''comms_provider_settings'',
     in_values = [(''channel'', Arg (V_text ch)), (''provider'', Arg (V_text prov)), (''enabled'', Arg (V_bool enabled)),
       (''settings'', Arg (V_jsonb js)), (''updated_at'', Now)],
     in_conflict = Do_Update [Column ''channel'', Column ''provider'']
       (\<lambda>db_now old excluded. Inr [(''enabled'', excluded ''enabled''), (''settings'', excluded ''settings''),
          (''updated_at'', V_time db_now)])\<rparr>"

definition templates_index :: index where
  "templates_index = \<lparr>ix_table = ''comms_templates'', ix_unique = True,
     ix_keys = [Column ''channel'', Column ''template_id'', Column ''locale''], ix_where = None\<rparr>"

definition settings_index :: index where
  "settings_index = \<lparr>ix_table = ''comms_provider_settings'', ix_unique = True,
     ix_keys = [Column ''channel'', Column ''provider''], ix_where = None\<rparr>"

lemma conflicts_maps:
  "conflicts pg templates_index (template_sql_row k r) (template_sql_row k' r') \<longleftrightarrow> k' = k"
  "conflicts pg settings_index (settings_sql_row l q) (settings_sql_row l' q') \<longleftrightarrow> l' = l"
  by (cases k; cases k';
      auto simp: conflicts_def index_entry_def templates_index_def settings_index_def template_sql_row_def
        settings_sql_row_def split: prod.splits)+

lemma upsert_into:
  assumes rows: "map_rows enc (tb_rows tb) t"
    and key: "\<And>k r k' r'. conflicts (se_pg env) arb (enc k r) (enc k' r') \<longleftrightarrow> k' = k" and uniq: "ix_unique arb"
    and act: "in_conflict cmd = Do_Update keys f" "ix_keys arb = keys" "ix_where arb = None"
    and cols: "set (map fst (in_values cmd)) \<subseteq> set (map col_name (tb_columns tb))"
    and new: "new_row env (in_values cmd) (tb_columns tb) = Inr kvs" "mk_row kvs = enc k new" "violated tb (mk_row kvs) = None"
    and upd: "\<And>old. case upd old of Inl m \<Rightarrow> f (se_now env) (enc k old) (enc k new) = Inl m
      | Inr r \<Rightarrow> \<exists>kvs. f (se_now env) (enc k old) (enc k new) = Inr kvs \<and> assign kvs (enc k old) = enc k r"
  shows "case (case t k of None \<Rightarrow> Inr new | Some old \<Rightarrow> upd old) of
      Inl m \<Rightarrow> insert_into env cmd [(n, arb)] tb = (Inl m, tb_rows tb)
    | Inr r \<Rightarrow> \<exists>rows'. insert_into env cmd [(n, arb)] tb = (Inr 1, rows') \<and> map_rows enc rows' (t(k \<mapsto> r))"
proof -
  have "arbiter (in_conflict cmd) [(n, arb)] = Inr (Some arb)" using act uniq by (simp add: infer_def)
  from insert_into_placed [OF cols this new(1,3)]
  have placed: "insert_into env cmd [(n, arb)] tb =
      place env (Do_Update keys f) (Some arb) [(n, arb)] (enc k new) (tb_rows tb)" by (simp add: act new(2))
  note place = place_do_update [OF rows key uniq, where k = k and new = new and f = f and keys = keys and n = n]
  show ?thesis
  proof (cases "t k")
    case None
    then show ?thesis using place(1) by (auto simp: placed)
  next
    case (Some old)
    then show ?thesis using place(2,3) [OF Some] upd [of old]
      by (auto simp: placed split: sum.splits)
  qed
qed

lemma upsert_template_into:
  assumes "map_rows template_sql_row rows t"
  shows "\<exists>rows'. insert_into env (upsert_template ch tid loc subject body) [(''comms_templates_pkey'', templates_index)]
      \<lparr>tb_columns = keyed [''channel'', ''template_id'', ''locale''] templates_columns,
       tb_checks = column_checks ''comms_templates'' templates_columns, tb_rows = rows\<rparr> =
      (map_sum id (\<lambda>_. 1) (fst (upsert_stmt (se_now env) ch tid loc subject body t)), rows') \<and>
    map_rows template_sql_row rows' (snd (upsert_stmt (se_now env) ch tid loc subject body t))"
  (is "\<exists>rows'. insert_into env ?cmd ?ixs ?tb = _ \<and> _")
proof -
  let ?k = "(ch, tid, loc)"
  let ?row = "\<lambda>v. \<lparr>row_subject = subject, row_body = body, row_version = v, row_updated_at = se_now env\<rparr>"
  let ?kvs = "[(''channel'', V_text ch), (''template_id'', V_text tid), (''locale'', V_text loc),
     (''subject'', opt V_text subject), (''body'', V_text body), (''version'', V_int 1), (''updated_at'', V_time (se_now env))]"
  let ?upd = "\<lambda>old. if row_version old \<ge> 2147483647 then Inl ''integer out of range'' else Inr (?row (row_version old + 1))"
  have cols: "set (map fst (in_values ?cmd)) \<subseteq> set (map col_name (tb_columns ?tb))"
    and new: "new_row env (in_values ?cmd) (tb_columns ?tb) = Inr ?kvs" "mk_row ?kvs = template_sql_row ?k (?row 1)"
    by (simp_all add: upsert_template_def template_sql_row_def insert_defs templates_columns_def)
  have bad: "violated ?tb (mk_row ?kvs) = (if ch \<in> set [''EMAIL'', ''SMS'', ''PUSH'', ''INAPP'', ''LINE''] then None
      else Some ''new row violates check constraint comms_templates_channel_check'')"
    by (simp add: insert_defs templates_columns_def column_checks_def)
  obtain keys f where act: "in_conflict ?cmd = Do_Update keys f" "ix_keys templates_index = keys" "ix_where templates_index = None"
    and f: "f (se_now env) (template_sql_row ?k old) (template_sql_row ?k (?row 1)) =
      (if row_version old \<ge> 2147483647 then Inl ''integer out of range''
       else Inr [(''subject'', opt V_text subject), (''body'', V_text body),
         (''version'', V_int (row_version old + 1)), (''updated_at'', V_time (se_now env))])" for old
    by (simp add: upsert_template_def templates_index_def template_sql_row_def)
  have uniq: "ix_unique templates_index" by (simp add: templates_index_def)
  have set_row: "assign [(''subject'', opt V_text subject), (''body'', V_text body), (''version'', V_int v),
      (''updated_at'', V_time (se_now env))] (template_sql_row ?k old) = template_sql_row ?k (?row v)" for v old
    by (rule ext) (simp add: assign_def template_sql_row_def)
  have upd: "case ?upd old of Inl m \<Rightarrow> f (se_now env) (template_sql_row ?k old) (template_sql_row ?k (?row 1)) = Inl m
      | Inr r \<Rightarrow> \<exists>kvs. f (se_now env) (template_sql_row ?k old) (template_sql_row ?k (?row 1)) = Inr kvs \<and>
          assign kvs (template_sql_row ?k old) = template_sql_row ?k r" for old
    by (simp add: f set_row)
  show ?thesis
  proof (cases "ch \<in> set [''EMAIL'', ''SMS'', ''PUSH'', ''INAPP'', ''LINE'']")
    case False
    then show ?thesis using cols act uniq new(1) bad assms
      by (simp add: insert_into_def infer_def upsert_stmt_def del: new_row.simps)
  next
    case True
    with bad have ok: "violated ?tb (mk_row ?kvs) = None" by simp
    have rows: "map_rows template_sql_row (tb_rows ?tb) t" using assms by simp
    from upsert_into [OF rows conflicts_maps(1) uniq act cols new ok upd, of "''comms_templates_pkey''"] True assms
    show ?thesis by (auto simp: upsert_stmt_def split: option.splits if_splits)
  qed
qed

lemma upsert_settings_into:
  assumes "map_rows settings_sql_row rows t"
  shows "\<exists>rows'. insert_into env (upsert_settings ch prov enabled js) [(''comms_provider_settings_pkey'', settings_index)]
      \<lparr>tb_columns = keyed [''channel'', ''provider''] settings_columns,
       tb_checks = column_checks ''comms_provider_settings'' settings_columns, tb_rows = rows\<rparr> =
      (map_sum id (\<lambda>_. 1) (fst (settings_stmt (se_pg env) (se_now env) ch prov enabled js t)), rows') \<and>
    map_rows settings_sql_row rows' (snd (settings_stmt (se_pg env) (se_now env) ch prov enabled js t))"
  (is "\<exists>rows'. insert_into env ?cmd ?ixs ?tb = _ \<and> _")
proof -
  have cols: "set (map fst (in_values ?cmd)) \<subseteq> set (map col_name (tb_columns ?tb))"
    by (simp add: upsert_settings_def insert_defs settings_columns_def)
  have uniq: "ix_unique settings_index" by (simp add: settings_index_def)
  show ?thesis
  proof (cases "pg_jsonb (se_pg env) js")
    case None
    then show ?thesis using cols assms
      by (simp add: insert_into_def upsert_settings_def infer_def settings_index_def settings_columns_def settings_stmt_def
          keyed_def column_defs column_expr_def)
  next
    case (Some d)
    let ?k = "(ch, prov)"
    let ?new = "\<lparr>sr_enabled = enabled, sr_settings = d, sr_updated_at = se_now env\<rparr>"
    let ?kvs = "[(''channel'', V_text ch), (''provider'', V_text prov), (''enabled'', V_bool enabled),
        (''settings'', V_jsonb d), (''updated_at'', V_time (se_now env))]"
    have new: "new_row env (in_values ?cmd) (tb_columns ?tb) = Inr ?kvs" "mk_row ?kvs = settings_sql_row ?k ?new"
      using Some by (simp_all add: upsert_settings_def settings_sql_row_def insert_defs settings_columns_def)
    have bad: "violated ?tb (mk_row ?kvs) = (if ch \<in> set [''EMAIL'', ''SMS'', ''PUSH'', ''INAPP'', ''LINE''] then None
        else Some ''new row violates check constraint comms_provider_settings_channel_check'')"
      by (simp add: insert_defs settings_columns_def column_checks_def)
    obtain keys f where act: "in_conflict ?cmd = Do_Update keys f" "ix_keys settings_index = keys" "ix_where settings_index = None"
      and f: "f (se_now env) (settings_sql_row ?k old) (settings_sql_row ?k ?new) = Inr [(''enabled'', V_bool enabled),
        (''settings'', V_jsonb d), (''updated_at'', V_time (se_now env))]" for old
      by (simp add: upsert_settings_def settings_index_def settings_sql_row_def)
    have set_row: "assign [(''enabled'', V_bool enabled), (''settings'', V_jsonb d), (''updated_at'', V_time (se_now env))]
        (settings_sql_row ?k old) = settings_sql_row ?k ?new" for old
      by (rule ext) (simp add: assign_def settings_sql_row_def)
    have upd: "case Inr ?new of Inl m \<Rightarrow> f (se_now env) (settings_sql_row ?k old) (settings_sql_row ?k ?new) = Inl m
        | Inr r \<Rightarrow> \<exists>kvs. f (se_now env) (settings_sql_row ?k old) (settings_sql_row ?k ?new) = Inr kvs \<and>
            assign kvs (settings_sql_row ?k old) = settings_sql_row ?k r" for old
      by (simp add: f set_row)
    show ?thesis
    proof (cases "ch \<in> set [''EMAIL'', ''SMS'', ''PUSH'', ''INAPP'', ''LINE'']")
      case False
      then show ?thesis using cols act uniq new(1) bad assms Some
        by (simp add: insert_into_def infer_def settings_stmt_def del: new_row.simps)
    next
      case True
      with bad have ok: "violated ?tb (mk_row ?kvs) = None" by simp
      have rows: "map_rows settings_sql_row (tb_rows ?tb) t" using assms by simp
      from upsert_into [OF rows conflicts_maps(2) uniq act cols new ok upd, of "''comms_provider_settings_pkey''"] True Some
      show ?thesis by (auto simp: settings_stmt_def split: option.splits)
    qed
  qed
qed

subsection \<open>The whole database\<close>

record stored =
  sd_inbox :: inbox
  sd_log :: send_log
  sd_receipts :: "receipt list"
  sd_waitlist :: "waitlist_entry list"
  sd_templates :: template_table
  sd_settings :: settings_table

definition load :: "stored \<Rightarrow> sql_row list \<Rightarrow> sql_row list \<Rightarrow> database" where
  "load T tpls sets =
     set_rows ''notifications'' (map notification_row (sd_inbox T))
      (set_rows ''comms_send_log'' (map log_sql_row (sd_log T))
       (set_rows ''comms_delivery_receipts'' (map receipt_row (sd_receipts T))
        (set_rows ''waitlist'' (map waitlist_row (sd_waitlist T))
         (set_rows ''comms_templates'' tpls (set_rows ''comms_provider_settings'' sets migrated)))))"

text \<open>A database with the migrated schema whose rows are those of the typed tables.\<close>

definition holds :: "database \<Rightarrow> stored \<Rightarrow> bool" where
  "holds db T \<longleftrightarrow> (\<exists>tpls sets. db = load T tpls sets \<and> map_rows template_sql_row tpls (sd_templates T) \<and>
     map_rows settings_sql_row sets (sd_settings T))"

lemma migrated_indexes:
  "indexes_of ''notifications'' migrated = [(''notifications_pkey'', pkey_index ''notifications''),
     (''notifications_user_id_created_at_idx'', \<lparr>ix_table = ''notifications'', ix_unique = False,
        ix_keys = [Column ''user_id'', Descending ''created_at''], ix_where = None\<rparr>),
     (''notifications_user_source_event_key'', source_index)]"
  "indexes_of ''comms_send_log'' migrated = [(''comms_send_log_pkey'', pkey_index ''comms_send_log''),
     (''comms_send_log_idempotency_key_idx'', key_index),
     (''comms_send_log_status_created_at_idx'', \<lparr>ix_table = ''comms_send_log'', ix_unique = False,
        ix_keys = [Column ''status'', Column ''created_at''], ix_where = None\<rparr>),
     (''comms_send_log_provider_msg_id_idx'', \<lparr>ix_table = ''comms_send_log'', ix_unique = False,
        ix_keys = [Column ''provider_msg_id''], ix_where = Some ''provider_msg_id''\<rparr>)]"
  "indexes_of ''comms_delivery_receipts'' migrated =
    [(''comms_delivery_receipts_pkey'', pkey_index ''comms_delivery_receipts''),
     (''comms_delivery_receipts_provider_msg_id_idx'', \<lparr>ix_table = ''comms_delivery_receipts'', ix_unique = False,
        ix_keys = [Column ''provider_msg_id''], ix_where = None\<rparr>)]"
  "indexes_of ''waitlist'' migrated = [(''waitlist_pkey'', pkey_index ''waitlist''), (''waitlist_email_lower_idx'', email_index)]"
  "indexes_of ''comms_templates'' migrated = [(''comms_templates_pkey'', templates_index)]"
  "indexes_of ''comms_provider_settings'' migrated = [(''comms_provider_settings_pkey'', settings_index)]"
  by (simp_all add: indexes_of_def migrated_def index_defs templates_index_def settings_index_def)

lemma migrated_maps:
  "db_tables migrated ''comms_templates'' = Some \<lparr>tb_columns = keyed [''channel'', ''template_id'', ''locale''] templates_columns,
     tb_checks = column_checks ''comms_templates'' templates_columns, tb_rows = []\<rparr>"
  "db_tables migrated ''comms_provider_settings'' = Some \<lparr>tb_columns = keyed [''channel'', ''provider''] settings_columns,
     tb_checks = column_checks ''comms_provider_settings'' settings_columns, tb_rows = []\<rparr>"
  by (simp_all add: migrated_def)

lemma load_set:
  "set_rows ''notifications'' (map notification_row s) (load T tpls sets) = load (T\<lparr>sd_inbox := s\<rparr>) tpls sets"
  "set_rows ''comms_send_log'' (map log_sql_row l) (load T tpls sets) = load (T\<lparr>sd_log := l\<rparr>) tpls sets"
  "set_rows ''comms_delivery_receipts'' (map receipt_row r) (load T tpls sets) = load (T\<lparr>sd_receipts := r\<rparr>) tpls sets"
  "set_rows ''waitlist'' (map waitlist_row w) (load T tpls sets) = load (T\<lparr>sd_waitlist := w\<rparr>) tpls sets"
  "set_rows ''comms_templates'' tpls' (load T tpls sets) = load T tpls' sets"
  "set_rows ''comms_provider_settings'' sets' (load T tpls sets) = load T tpls sets'"
  by (simp_all add: load_def set_rows_commute [of _ "''notifications''"] set_rows_commute [of "''comms_delivery_receipts''" "''comms_send_log''"]
      set_rows_commute [of "''waitlist''" "''comms_send_log''"] set_rows_commute [of "''waitlist''" "''comms_delivery_receipts''"]
      set_rows_commute [of "''comms_templates''" "''comms_send_log''"] set_rows_commute [of "''comms_templates''" "''comms_delivery_receipts''"]
      set_rows_commute [of "''comms_templates''" "''waitlist''"] set_rows_commute [of "''comms_provider_settings''" "''comms_send_log''"]
      set_rows_commute [of "''comms_provider_settings''" "''comms_delivery_receipts''"]
      set_rows_commute [of "''comms_provider_settings''" "''waitlist''"] set_rows_commute [of "''comms_provider_settings''" "''comms_templates''"])

lemma load_tables:
  "db_tables (load T tpls sets) ''notifications'' = Some \<lparr>tb_columns = keyed [''id''] notifications_columns,
     tb_checks = [(''notifications_type_check'', ''type'', notification_types)],
     tb_rows = map notification_row (sd_inbox T)\<rparr>"
  "db_tables (load T tpls sets) ''comms_send_log'' = Some \<lparr>tb_columns = keyed [''id''] send_log_columns,
     tb_checks = column_checks ''comms_send_log'' send_log_columns, tb_rows = map log_sql_row (sd_log T)\<rparr>"
  "db_tables (load T tpls sets) ''comms_delivery_receipts'' = Some \<lparr>tb_columns = keyed [''id''] receipts_columns,
     tb_checks = column_checks ''comms_delivery_receipts'' receipts_columns, tb_rows = map receipt_row (sd_receipts T)\<rparr>"
  "db_tables (load T tpls sets) ''waitlist'' = Some \<lparr>tb_columns = keyed [''id''] waitlist_columns, tb_checks = [],
     tb_rows = map waitlist_row (sd_waitlist T)\<rparr>"
  "db_tables (load T tpls sets) ''comms_templates'' = Some \<lparr>
     tb_columns = keyed [''channel'', ''template_id'', ''locale''] templates_columns,
     tb_checks = column_checks ''comms_templates'' templates_columns, tb_rows = tpls\<rparr>"
  "db_tables (load T tpls sets) ''comms_provider_settings'' = Some \<lparr>
     tb_columns = keyed [''channel'', ''provider''] settings_columns,
     tb_checks = column_checks ''comms_provider_settings'' settings_columns, tb_rows = sets\<rparr>"
  by (simp_all add: load_def migrated_tables migrated_maps)

lemma load_indexes: "indexes_of t (load T tpls sets) = indexes_of t migrated"
  by (simp add: load_def)

lemma list_inserts_on_load:
  "sql_insert env (insert_notification n) (load T tpls sets) =
     (let (r, s) = insert_stmt (se_pg env) n (sd_inbox T) in
      (map_sum id (\<lambda>_. if length s = length (sd_inbox T) then 0 else 1) r, load (T\<lparr>sd_inbox := s\<rparr>) tpls sets))"
  "sql_insert env (insert_reservation i r) (load T tpls sets) =
     map_prod id (\<lambda>s. load (T\<lparr>sd_log := s\<rparr>) tpls sets) (reserve_stmt i (se_now env) r (sd_log T))"
  "sql_insert env (insert_waitlist w) (load T tpls sets) =
     map_prod id (\<lambda>s. load (T\<lparr>sd_waitlist := s\<rparr>) tpls sets) (waitlist_stmt (se_pg env) w (sd_waitlist T))"
  "rc_received_at rc = se_now env \<Longrightarrow> sql_insert env (insert_receipt rc) (load T tpls sets) =
     map_prod (map_sum id (\<lambda>_. 1)) (\<lambda>s. load (T\<lparr>sd_receipts := s\<rparr>) tpls sets)
       (receipt_insert (se_pg env) rc (sd_receipts T))"
proof -
  have t: "in_table (insert_notification n) = ''notifications''" "in_table (insert_reservation i r) = ''comms_send_log''"
    "in_table (insert_waitlist w) = ''waitlist''" "in_table (insert_receipt rc) = ''comms_delivery_receipts''"
    by (simp_all add: insert_notification_def insert_reservation_def insert_waitlist_def insert_receipt_def)
  note on = sql_insert_def load_tables load_indexes migrated_indexes load_set t case_prod_unfold Let_def
  show "sql_insert env (insert_notification n) (load T tpls sets) =
     (let (r, s) = insert_stmt (se_pg env) n (sd_inbox T) in
      (map_sum id (\<lambda>_. if length s = length (sd_inbox T) then 0 else 1) r, load (T\<lparr>sd_inbox := s\<rparr>) tpls sets))"
    by (simp add: on insert_notification_into)
  show "sql_insert env (insert_reservation i r) (load T tpls sets) =
     map_prod id (\<lambda>s. load (T\<lparr>sd_log := s\<rparr>) tpls sets) (reserve_stmt i (se_now env) r (sd_log T))"
    by (cases "reserve_stmt i (se_now env) r (sd_log T)") (simp add: on insert_reservation_into)
  show "sql_insert env (insert_waitlist w) (load T tpls sets) =
     map_prod id (\<lambda>s. load (T\<lparr>sd_waitlist := s\<rparr>) tpls sets) (waitlist_stmt (se_pg env) w (sd_waitlist T))"
    by (cases "waitlist_stmt (se_pg env) w (sd_waitlist T)") (simp add: on insert_waitlist_into)
  show "sql_insert env (insert_receipt rc) (load T tpls sets) =
     map_prod (map_sum id (\<lambda>_. 1)) (\<lambda>s. load (T\<lparr>sd_receipts := s\<rparr>) tpls sets)
       (receipt_insert (se_pg env) rc (sd_receipts T))" if "rc_received_at rc = se_now env"
    using that by (cases "receipt_insert (se_pg env) rc (sd_receipts T)") (simp add: on insert_receipt_into)
qed

lemma upserts_on_load:
  "map_rows template_sql_row tpls (sd_templates T) \<Longrightarrow>
     \<exists>tpls'. sql_insert env (upsert_template ch tid loc subject body) (load T tpls sets) =
       (map_sum id (\<lambda>_. 1) (fst (upsert_stmt (se_now env) ch tid loc subject body (sd_templates T))), load T tpls' sets) \<and>
     map_rows template_sql_row tpls' (snd (upsert_stmt (se_now env) ch tid loc subject body (sd_templates T)))"
  "map_rows settings_sql_row sets (sd_settings T) \<Longrightarrow>
     \<exists>sets'. sql_insert env (upsert_settings ch prov enabled js) (load T tpls sets) =
       (map_sum id (\<lambda>_. 1) (fst (settings_stmt (se_pg env) (se_now env) ch prov enabled js (sd_settings T))), load T tpls sets') \<and>
     map_rows settings_sql_row sets' (snd (settings_stmt (se_pg env) (se_now env) ch prov enabled js (sd_settings T)))"
proof -
  have t: "in_table (upsert_template ch tid loc subject body) = ''comms_templates''"
    "in_table (upsert_settings ch prov enabled js) = ''comms_provider_settings''"
    by (simp_all add: upsert_template_def upsert_settings_def)
  note on = sql_insert_def load_tables load_indexes migrated_indexes t
  show "\<exists>tpls'. sql_insert env (upsert_template ch tid loc subject body) (load T tpls sets) =
       (map_sum id (\<lambda>_. 1) (fst (upsert_stmt (se_now env) ch tid loc subject body (sd_templates T))), load T tpls' sets) \<and>
     map_rows template_sql_row tpls' (snd (upsert_stmt (se_now env) ch tid loc subject body (sd_templates T)))"
    if "map_rows template_sql_row tpls (sd_templates T)"
    using upsert_template_into [OF that, of env ch tid loc subject body] by (fastforce simp: on load_set)
  show "\<exists>sets'. sql_insert env (upsert_settings ch prov enabled js) (load T tpls sets) =
       (map_sum id (\<lambda>_. 1) (fst (settings_stmt (se_pg env) (se_now env) ch prov enabled js (sd_settings T))), load T tpls sets') \<and>
     map_rows settings_sql_row sets' (snd (settings_stmt (se_pg env) (se_now env) ch prov enabled js (sd_settings T)))"
    if "map_rows settings_sql_row sets (sd_settings T)"
    using upsert_settings_into [OF that, of env ch prov enabled js] by (fastforce simp: on load_set)
qed

lemma load_upserted: "load (T\<lparr>sd_templates := t\<rparr>) tpls sets = load T tpls sets" "load (T\<lparr>sd_settings := u\<rparr>) tpls sets = load T tpls sets"
  by (simp_all add: load_def)

lemma migrated_empty: "set_rows t [] migrated = migrated"
  by (rule database.equality) (simp_all add: set_rows_def migrated_def fun_eq_iff)

lemma load_empty:
  "load \<lparr>sd_inbox = [], sd_log = [], sd_receipts = [], sd_waitlist = [], sd_templates = t, sd_settings = u\<rparr> [] [] = migrated"
  by (simp add: load_def migrated_empty)

lemma holds_empty: "holds migrated \<lparr>sd_inbox = [], sd_log = [], sd_receipts = [], sd_waitlist = [],
    sd_templates = (\<lambda>_. None), sd_settings = (\<lambda>_. None)\<rparr>"
  unfolding holds_def
proof (intro exI conjI)
  show "migrated = load \<lparr>sd_inbox = [], sd_log = [], sd_receipts = [], sd_waitlist = [],
      sd_templates = (\<lambda>_. None), sd_settings = (\<lambda>_. None)\<rparr> [] []" by (simp add: load_empty)
qed (simp_all add: map_rows_def)

subsection \<open>The invariant of the inbox is its constraints\<close>

lemma unique_rows_map:
  assumes "\<And>a b. conflicts pg ix (enc a) (enc b) \<longleftrightarrow> R a b"
  shows "unique_rows pg ix (map enc s) \<longleftrightarrow> sorted_wrt (\<lambda>a b. \<not> R a b) s"
  by (induction s) (simp_all add: assms list_all_iff)

lemma distinct_ids: "distinct (map ID s) \<longleftrightarrow> sorted_wrt (\<lambda>a b. ID a \<noteq> ID b) s"
  by (induction s) auto

lemma one_per_source:
  "(\<forall>u e. length (filter (\<lambda>r. UserID r = u \<and> SourceEventID r = Some e) s) \<le> 1) \<longleftrightarrow>
   sorted_wrt (\<lambda>a b. \<not> same_source a b) s"
proof (induction s)
  case (Cons n s)
  let ?of = "\<lambda>u e. filter (\<lambda>r. UserID r = u \<and> SourceEventID r = Some e)"
  have "(\<forall>u e. length (?of u e (n # s)) \<le> 1) \<longleftrightarrow>
      (\<forall>u e. length (?of u e s) \<le> 1) \<and> (\<forall>e. SourceEventID n = Some e \<longrightarrow> ?of (UserID n) e s = [])"
    by (auto simp: le_Suc_eq)
  also have "(\<forall>e. SourceEventID n = Some e \<longrightarrow> ?of (UserID n) e s = []) \<longleftrightarrow> (\<forall>r \<in> set s. \<not> same_source n r)"
    by (auto simp: filter_empty_conv same_source_def)
  finally show ?case using Cons.IH by auto
qed simp

text \<open>\<open>inbox_ok\<close> says of the typed rows what the table's NOT NULL and CHECK constraints and its two unique indexes
  say of their images.\<close>

lemma inbox_ok_constraints:
  assumes "db_tables (load T tpls sets) ''notifications'' = Some tb"
  shows "inbox_ok (sd_inbox T) \<longleftrightarrow> list_all (\<lambda>r. violated tb r = None) (tb_rows tb) \<and>
    (\<forall>(n, ix) \<in> set (indexes_of ''notifications'' (load T tpls sets)). ix_unique ix \<longrightarrow> unique_rows pg ix (tb_rows tb))"
proof -
  have tb: "tb = \<lparr>tb_columns = keyed [''id''] notifications_columns,
     tb_checks = [(''notifications_type_check'', ''type'', notification_types)],
     tb_rows = map notification_row (sd_inbox T)\<rparr>" using assms by (simp add: load_tables)
  have "ix_unique (pkey_index t)" "ix_unique source_index" for t by (simp_all add: index_defs)
  moreover have "list_all (\<lambda>r. violated tb r = None) (tb_rows tb) \<longleftrightarrow> (\<forall>r \<in> set (sd_inbox T). notifications_type_check (Type r))"
    by (simp add: tb violated_notification list_all_iff)
  moreover have "unique_rows pg (pkey_index t) (tb_rows tb) \<longleftrightarrow> distinct (map ID (sd_inbox T))" for t
    by (simp add: tb unique_rows_map [OF conflicts_notifications(1)] distinct_ids)
  moreover have "unique_rows pg source_index (tb_rows tb) \<longleftrightarrow>
      (\<forall>u e. length (filter (\<lambda>r. UserID r = u \<and> SourceEventID r = Some e) (sd_inbox T)) \<le> 1)"
    unfolding one_per_source by (simp add: tb unique_rows_map [OF conflicts_notifications(2)])
  ultimately show ?thesis
    by (simp add: load_indexes migrated_indexes inbox_ok_def conj_ac)
qed

definition no_rows :: stored where
  "no_rows = \<lparr>sd_inbox = [], sd_log = [], sd_receipts = [], sd_waitlist = [],
     sd_templates = (\<lambda>_. None), sd_settings = (\<lambda>_. None)\<rparr>"

lemma holds_load:
  assumes "holds db T"
  obtains tpls sets where "db = load T tpls sets" "map_rows template_sql_row tpls (sd_templates T)"
    "map_rows settings_sql_row sets (sd_settings T)"
  using assms by (auto simp: holds_def)

lemma load_holds:
  "map_rows template_sql_row tpls (sd_templates T) \<Longrightarrow> map_rows settings_sql_row sets (sd_settings T) \<Longrightarrow>
   holds (load T tpls sets) T"
  by (auto simp: holds_def)

lemma unit_sum [simp]: "map_sum id (\<lambda>_. ()) r = (r :: 'e + unit)" "map_sum id (\<lambda>_. ()) (map_sum id f q) = map_sum id (\<lambda>_. ()) q"
  by (cases r; simp) (cases q; simp)

lemma held_inserts:
  assumes "holds db T"
  shows "map_sum id (\<lambda>_. ()) (fst (sql_insert env (insert_notification n) db)) = fst (insert_stmt (se_pg env) n (sd_inbox T)) \<and>
     holds (snd (sql_insert env (insert_notification n) db))
       (T\<lparr>sd_inbox := snd (insert_stmt (se_pg env) n (sd_inbox T))\<rparr>)" (is ?n)
    and "fst (sql_insert env (insert_reservation i r) db) = fst (reserve_stmt i (se_now env) r (sd_log T)) \<and>
     holds (snd (sql_insert env (insert_reservation i r) db))
       (T\<lparr>sd_log := snd (reserve_stmt i (se_now env) r (sd_log T))\<rparr>)" (is ?l)
    and "fst (sql_insert env (insert_waitlist w) db) = fst (waitlist_stmt (se_pg env) w (sd_waitlist T)) \<and>
     holds (snd (sql_insert env (insert_waitlist w) db))
       (T\<lparr>sd_waitlist := snd (waitlist_stmt (se_pg env) w (sd_waitlist T))\<rparr>)" (is ?w)
    and "rc_received_at rc = se_now env \<Longrightarrow>
       map_sum id (\<lambda>_. ()) (fst (sql_insert env (insert_receipt rc) db)) = fst (receipt_insert (se_pg env) rc (sd_receipts T)) \<and>
       holds (snd (sql_insert env (insert_receipt rc) db))
         (T\<lparr>sd_receipts := snd (receipt_insert (se_pg env) rc (sd_receipts T))\<rparr>)"
proof -
  obtain tpls sets where db: "db = load T tpls sets"
    and maps: "map_rows template_sql_row tpls (sd_templates T)" "map_rows settings_sql_row sets (sd_settings T)"
    by (rule holds_load [OF assms])
  show ?n ?l ?w by (simp_all add: db list_inserts_on_load case_prod_unfold Let_def load_holds maps)
  show "map_sum id (\<lambda>_. ()) (fst (sql_insert env (insert_receipt rc) db)) = fst (receipt_insert (se_pg env) rc (sd_receipts T)) \<and>
       holds (snd (sql_insert env (insert_receipt rc) db))
         (T\<lparr>sd_receipts := snd (receipt_insert (se_pg env) rc (sd_receipts T))\<rparr>)" if "rc_received_at rc = se_now env"
    by (simp add: db list_inserts_on_load(4) [OF that] load_holds maps)
qed

lemma held_upserts:
  assumes "holds db T"
  shows "map_sum id (\<lambda>_. ()) (fst (sql_insert env (upsert_template ch tid loc subject body) db)) =
       fst (upsert_stmt (se_now env) ch tid loc subject body (sd_templates T)) \<and>
     holds (snd (sql_insert env (upsert_template ch tid loc subject body) db))
       (T\<lparr>sd_templates := snd (upsert_stmt (se_now env) ch tid loc subject body (sd_templates T))\<rparr>)"
    and "map_sum id (\<lambda>_. ()) (fst (sql_insert env (upsert_settings ch prov enabled js) db)) =
       fst (settings_stmt (se_pg env) (se_now env) ch prov enabled js (sd_settings T)) \<and>
     holds (snd (sql_insert env (upsert_settings ch prov enabled js) db))
       (T\<lparr>sd_settings := snd (settings_stmt (se_pg env) (se_now env) ch prov enabled js (sd_settings T))\<rparr>)"
proof -
  obtain tpls sets where db: "db = load T tpls sets"
    and maps: "map_rows template_sql_row tpls (sd_templates T)" "map_rows settings_sql_row sets (sd_settings T)"
    by (rule holds_load [OF assms])
  show "map_sum id (\<lambda>_. ()) (fst (sql_insert env (upsert_template ch tid loc subject body) db)) =
       fst (upsert_stmt (se_now env) ch tid loc subject body (sd_templates T)) \<and>
     holds (snd (sql_insert env (upsert_template ch tid loc subject body) db))
       (T\<lparr>sd_templates := snd (upsert_stmt (se_now env) ch tid loc subject body (sd_templates T))\<rparr>)"
    using upserts_on_load(1) [OF maps(1), of env ch tid loc subject body sets] maps(2)
    by (auto simp: db holds_def load_upserted; blast)
  show "map_sum id (\<lambda>_. ()) (fst (sql_insert env (upsert_settings ch prov enabled js) db)) =
       fst (settings_stmt (se_pg env) (se_now env) ch prov enabled js (sd_settings T)) \<and>
     holds (snd (sql_insert env (upsert_settings ch prov enabled js) db))
       (T\<lparr>sd_settings := snd (settings_stmt (se_pg env) (se_now env) ch prov enabled js (sd_settings T))\<rparr>)"
    using upserts_on_load(2) [OF maps(2), of env ch prov enabled js tpls] maps(1)
    by (auto simp: db holds_def load_upserted; blast)
qed

text \<open>C18. The statements of the stores, run on the database that the migrations build, do what the definitions of
  the typed tables do: the constraints, arbiters, defaults and error texts these write out are the ones that the
  seven files install. A database that was just migrated holds no rows; and on one that holds the rows of some typed
  tables each INSERT answers as its typed statement does (the count of rows too, where the code reads it) and leaves
  a database that holds what the typed statement leaves.\<close>

theorem statements_on_migrated_schema:
  "fst (exec_files pg up_files empty_db) = Inr () \<and> holds (snd (exec_files pg up_files empty_db)) no_rows \<and>
   (holds db T \<longrightarrow>
     map_sum id (\<lambda>_. ()) (fst (sql_insert env (insert_notification n) db)) = fst (insert_stmt (se_pg env) n (sd_inbox T)) \<and>
     holds (snd (sql_insert env (insert_notification n) db))
       (T\<lparr>sd_inbox := snd (insert_stmt (se_pg env) n (sd_inbox T))\<rparr>) \<and>
     fst (sql_insert env (insert_reservation i r) db) = fst (reserve_stmt i (se_now env) r (sd_log T)) \<and>
     holds (snd (sql_insert env (insert_reservation i r) db))
       (T\<lparr>sd_log := snd (reserve_stmt i (se_now env) r (sd_log T))\<rparr>) \<and>
     fst (sql_insert env (insert_waitlist w) db) = fst (waitlist_stmt (se_pg env) w (sd_waitlist T)) \<and>
     holds (snd (sql_insert env (insert_waitlist w) db))
       (T\<lparr>sd_waitlist := snd (waitlist_stmt (se_pg env) w (sd_waitlist T))\<rparr>) \<and>
     (rc_received_at rc = se_now env \<longrightarrow>
       map_sum id (\<lambda>_. ()) (fst (sql_insert env (insert_receipt rc) db)) = fst (receipt_insert (se_pg env) rc (sd_receipts T)) \<and>
       holds (snd (sql_insert env (insert_receipt rc) db))
         (T\<lparr>sd_receipts := snd (receipt_insert (se_pg env) rc (sd_receipts T))\<rparr>)) \<and>
     map_sum id (\<lambda>_. ()) (fst (sql_insert env (upsert_template ch tid loc subject body) db)) =
       fst (upsert_stmt (se_now env) ch tid loc subject body (sd_templates T)) \<and>
     holds (snd (sql_insert env (upsert_template ch tid loc subject body) db))
       (T\<lparr>sd_templates := snd (upsert_stmt (se_now env) ch tid loc subject body (sd_templates T))\<rparr>) \<and>
     map_sum id (\<lambda>_. ()) (fst (sql_insert env (upsert_settings ch prov enabled js) db)) =
       fst (settings_stmt (se_pg env) (se_now env) ch prov enabled js (sd_settings T)) \<and>
     holds (snd (sql_insert env (upsert_settings ch prov enabled js) db))
       (T\<lparr>sd_settings := snd (settings_stmt (se_pg env) (se_now env) ch prov enabled js (sd_settings T))\<rparr>))"
  using held_inserts held_upserts holds_empty by (simp add: migrated_up no_rows_def)

lemma statements_on_migrated_schema_witness:
  "\<exists>r db. sql_insert \<lparr>se_pg = plain_pg, se_uuid = 0, se_now = 0\<rparr> (insert_notification (sample_row 7 1 (Some 5))) migrated = (Inr r, db) \<and>
     holds db (no_rows\<lparr>sd_inbox := [sample_row 7 1 (Some 5)]\<rparr>)"
proof -
  let ?env = "\<lparr>se_pg = plain_pg, se_uuid = 0, se_now = 0\<rparr>" and ?n = "sample_row 7 1 (Some 5)"
  obtain r db where out: "sql_insert ?env (insert_notification ?n) migrated = (r, db)" by fastforce
  have "holds migrated no_rows" using holds_empty by (simp add: no_rows_def)
  moreover have "insert_stmt plain_pg ?n [] = (Inr (), [?n])"
    by (simp add: insert_stmt_def insert_row_def sample_defs)
  ultimately have "map_sum id (\<lambda>_. ()) r = Inr ()" "holds db (no_rows\<lparr>sd_inbox := [?n]\<rparr>)"
    using statements_on_migrated_schema [where db = migrated and T = no_rows and env = ?env and n = ?n] out by (simp_all add: no_rows_def)
  then show ?thesis using out by (cases r) auto
qed

end
