(* ===== verification/Rollback.thy ===== *)
theory Rollback
  imports Statements
begin

text \<open>
  The down migrations on a database that holds rows: migration 6, whose down file fails where a KYC status
  notification is stored, and the whole way back.
\<close>

definition has_status_rows :: "stored \<Rightarrow> bool" where
  "has_status_rows T \<longleftrightarrow> (\<exists>n \<in> set (sd_inbox T). Type n = NotificationTypeKYCStatusChanged)"

definition six_types :: "string list" where
  "six_types = [''KYC_TIER_CHANGED'', ''BID_RECEIVED'', ''BID_ACCEPTED'', ''MILESTONE_REACHED'', ''CONTRACT_SIGNED'',
     ''ACCOUNT_SUSPENDED'']"

lemma notification_types_six: "set notification_types = insert NotificationTypeKYCStatusChanged (set six_types)"
  by (simp add: notification_types_def six_types_def notification_type_defs insert_commute)

lemma check_rows:
  assumes "inbox_ok (sd_inbox T)"
  shows "list_all (check_holds ''type'' notification_types) (map notification_row (sd_inbox T))"
    and "list_all (check_holds ''type'' six_types) (map notification_row (sd_inbox T)) \<longleftrightarrow> \<not> has_status_rows T"
proof -
  have seven: "set notification_types = {t. notifications_type_check t}"
    by (auto simp: notification_types_def notifications_type_check_def)
  have six: "NotificationTypeKYCStatusChanged \<notin> set six_types" by (simp add: six_types_def notification_type_defs)
  have ok: "\<forall>n \<in> set (sd_inbox T). Type n \<in> set notification_types" using assms seven by (auto simp: inbox_ok_def)
  then show "list_all (check_holds ''type'' notification_types) (map notification_row (sd_inbox T))"
    by (simp add: list_all_iff check_holds_def notification_row_def)
  show "list_all (check_holds ''type'' six_types) (map notification_row (sd_inbox T)) \<longleftrightarrow> \<not> has_status_rows T"
    using ok six unfolding notification_types_six
    by (auto simp: list_all_iff check_holds_def notification_row_def has_status_rows_def)
qed

lemma load_parts:
  "db_indexes (load T tpls sets) = db_indexes migrated" "db_extensions (load T tpls sets) = [''pgcrypto'']"
  by (simp_all add: load_def set_rows_def migrated_def)

definition six_db :: "database \<Rightarrow> database" where
  "six_db db = db\<lparr>db_tables := (db_tables db)(''notifications'' := map_option
     (tb_checks_update (\<lambda>_. [(''notifications_type_check'', ''type'', six_types)])) (db_tables db ''notifications''))\<rparr>"

lemma down_six:
  assumes "inbox_ok (sd_inbox T)" "db_tables db ''notifications'' = db_tables (load T tpls sets) ''notifications''"
  shows "exec_file pg kyc_status_changed_down db =
    (if has_status_rows T then (Inl ''check constraint notifications_type_check is violated by some row'', db)
     else (Inr (), six_db db))"
  using check_rows(2) [OF assms(1)] assms(2)
  by (simp add: exec_file_def kyc_status_changed_down_def load_tables six_types_def [symmetric] six_db_def)

lemma up_six:
  assumes "inbox_ok (sd_inbox T)"
  shows "exec_file pg kyc_status_changed_up (six_db (load T tpls sets)) = (Inr (), load T tpls sets)"
proof -
  have "(db_tables (load T tpls sets))(''notifications'' \<mapsto> \<lparr>tb_columns = keyed [''id''] notifications_columns,
      tb_checks = [(''notifications_type_check'', ''type'', notification_types)],
      tb_rows = map notification_row (sd_inbox T)\<rparr>) = db_tables (load T tpls sets)"
    by (rule fun_upd_idem) (rule load_tables)
  then show ?thesis
    using check_rows(1) [OF assms]
    by (simp add: exec_file_def kyc_status_changed_up_def load_tables notification_types_def [symmetric] six_db_def)
qed

lemma six_db_refuses:
  assumes "Type n = NotificationTypeKYCStatusChanged"
  shows "\<exists>m. sql_insert env (insert_notification n) (six_db (load T tpls sets)) = (Inl m, six_db (load T tpls sets))"
proof -
  let ?db = "six_db (load T tpls sets)" and ?cmd = "insert_notification n"
  let ?tb = "\<lparr>tb_columns = keyed [''id''] notifications_columns,
     tb_checks = [(''notifications_type_check'', ''type'', six_types)], tb_rows = map notification_row (sd_inbox T)\<rparr>"
  have tb: "db_tables ?db ''notifications'' = Some ?tb" by (simp add: six_db_def load_tables)
  have bad: "\<exists>m. violated ?tb (notification_row (stored_notification pg n y)) = Some m" for pg y
    using assms
    by (simp add: insert_defs notifications_columns_def notification_row_def stored_notification_def six_types_def
        notification_type_defs)
  have "\<exists>m. insert_into env ?cmd ixs ?tb = (Inl m, tb_rows ?tb)" for ixs
  proof (cases "arbiter (in_conflict ?cmd) ixs")
    case (Inl m)
    then show ?thesis by (simp add: insert_into_def)
  next
    case (Inr arb)
    from bad obtain m where m: "violated ?tb (notification_row (stored_notification (se_pg env) n y)) = Some (m y)" for y by metis
    show ?thesis
      by (rule coerce_document [of "Data n" "se_pg env"];
          use Inr m in \<open>auto simp: insert_into_def new_notification notification_row_stored\<close>)
  qed
  then obtain m where m: "insert_into env ?cmd (indexes_of ''notifications'' ?db) ?tb = (Inl m, tb_rows ?tb)" by blast
  have "set_rows ''notifications'' (tb_rows ?tb) ?db = ?db"
    using tb by (intro database.equality) (simp_all add: set_rows_def fun_upd_idem)
  moreover have "in_table ?cmd = ''notifications''" by (simp add: insert_notification_def)
  ultimately show ?thesis using tb m by (simp add: sql_insert_def)
qed

lemma load_other_tables:
  "t \<notin> {''notifications'', ''comms_templates'', ''comms_provider_settings'', ''comms_send_log'',
     ''comms_delivery_receipts'', ''waitlist''} \<Longrightarrow> db_tables (load T tpls sets) t = None"
  by (simp add: load_def) (simp add: migrated_def)

lemma migrated_index_tables:
  "(n, ix) \<in> set (db_indexes migrated) \<Longrightarrow> ix_table ix \<in> {''notifications'', ''comms_templates'',
     ''comms_provider_settings'', ''comms_send_log'', ''comms_delivery_receipts'', ''waitlist''}"
  by (auto simp: migrated_def)

definition dropped :: "string list \<Rightarrow> database \<Rightarrow> database" where
  "dropped ts db = db\<lparr>db_tables := (\<lambda>t. if t \<in> set ts then None else db_tables db t),
     db_indexes := filter (\<lambda>(n, ix). ix_table ix \<notin> set ts) (db_indexes db)\<rparr>"

lemma drops: "exec_files pg (map (\<lambda>t. [DropTable t]) ts) db = (Inr (), dropped ts db)"
proof (induction ts arbitrary: db)
  case Nil
  then show ?case by (simp add: dropped_def)
next
  case (Cons u ts)
  have "filter (\<lambda>(n, ix). ix_table ix \<notin> set ts) (filter (\<lambda>(n, ix). ix_table ix \<noteq> u) (db_indexes db)) =
      filter (\<lambda>(n, ix). ix_table ix \<notin> set (u # ts)) (db_indexes db)"
    by (simp add: filter_filter case_prod_unfold conj_commute)
  then show ?case by (simp add: exec_file_def Cons.IH) (simp add: dropped_def fun_eq_iff)
qed

abbreviation drop_files :: "ddl list list" where
  "drop_files \<equiv> map (\<lambda>t. [DropTable t])
     [''comms_delivery_receipts'', ''comms_send_log'', ''comms_provider_settings'', ''comms_templates'', ''notifications'']"

lemma down_files_split: "down_files = waitlist_down # kyc_status_changed_down # drop_files"
  by (simp add: down_files_eq file_defs)

lemma everything_dropped:
  assumes "db = dropped [''waitlist''] (load T tpls sets)"
  shows "exec_files pg drop_files (six_db db) = (Inr (), empty_db\<lparr>db_extensions := [''pgcrypto'']\<rparr>)"
proof -
  let ?ts = "[''comms_delivery_receipts'', ''comms_send_log'', ''comms_provider_settings'', ''comms_templates'', ''notifications'']"
  have "dropped ?ts (six_db db) = empty_db\<lparr>db_extensions := [''pgcrypto'']\<rparr>"
  proof (rule database.equality)
    show "db_tables (dropped ?ts (six_db db)) = db_tables (empty_db\<lparr>db_extensions := [''pgcrypto'']\<rparr>)"
      by (rule ext) (auto simp: dropped_def six_db_def assms empty_db_def load_other_tables)
    show "db_indexes (dropped ?ts (six_db db)) = db_indexes (empty_db\<lparr>db_extensions := [''pgcrypto'']\<rparr>)"
      using migrated_index_tables
      by (fastforce simp: dropped_def six_db_def assms empty_db_def load_parts filter_empty_conv)
  qed (simp_all add: dropped_def six_db_def assms empty_db_def load_parts)
  then show ?thesis using drops [of pg ?ts "six_db db"] by simp
qed

text \<open>C24. Rolling back. While no KYC status notification is stored, the down file of migration 6 succeeds, its up file
  restores the database exactly, and between the two such a notification is refused whatever it says; and the
  down files run one after the other leave nothing but the extension. With one stored, the down file fails and
  changes nothing, and the run of all of them stops there with the waitlist already gone and every other table
  as it was.\<close>

theorem rolling_back_the_schema:
  assumes "holds db T" "inbox_ok (sd_inbox T)"
  shows "if has_status_rows T
    then exec_file pg kyc_status_changed_down db = (Inl ''check constraint notifications_type_check is violated by some row'', db) \<and>
      (\<exists>db'. exec_files pg down_files db = (Inl ''check constraint notifications_type_check is violated by some row'', db') \<and>
        db_tables db' = (db_tables db)(''waitlist'' := None))
    else (\<exists>db'. exec_file pg kyc_status_changed_down db = (Inr (), db') \<and> exec_file pg kyc_status_changed_up db' = (Inr (), db) \<and>
        (\<forall>env n. Type n = NotificationTypeKYCStatusChanged \<longrightarrow> (\<exists>m. sql_insert env (insert_notification n) db' = (Inl m, db')))) \<and>
      exec_files pg down_files db = (Inr (), empty_db\<lparr>db_extensions := [''pgcrypto'']\<rparr>)"
proof -
  obtain tpls sets where db: "db = load T tpls sets" by (rule holds_load [OF assms(1)])
  let ?w = "dropped [''waitlist''] db"
  have w: "exec_file pg waitlist_down db = (Inr (), ?w)"
    by (simp add: exec_file_def waitlist_down_def dropped_def fun_eq_iff)
  have same: "db_tables db ''notifications'' = db_tables (load T tpls sets) ''notifications''"
    "db_tables ?w ''notifications'' = db_tables (load T tpls sets) ''notifications''" by (simp_all add: db dropped_def)
  note down = down_six [OF assms(2) same(1)] down_six [OF assms(2) same(2)]
  show ?thesis
  proof (cases "has_status_rows T")
    case True
    then have "exec_files pg down_files db = (Inl ''check constraint notifications_type_check is violated by some row'', ?w)"
      by (simp add: down_files_split w down)
    moreover have "db_tables ?w = (db_tables db)(''waitlist'' := None)" by (auto simp: dropped_def)
    ultimately show ?thesis using True by (simp add: down)
  next
    case False
    then have "exec_files pg down_files db = exec_files pg drop_files (six_db ?w)"
      by (simp add: down_files_split w down)
    also have "\<dots> = (Inr (), empty_db\<lparr>db_extensions := [''pgcrypto'']\<rparr>)" by (rule everything_dropped) (simp add: db)
    finally have all: "exec_files pg down_files db = (Inr (), empty_db\<lparr>db_extensions := [''pgcrypto'']\<rparr>)" .
    have "exec_file pg kyc_status_changed_down db = (Inr (), six_db db)" using False by (simp add: down)
    moreover have "exec_file pg kyc_status_changed_up (six_db db) = (Inr (), db)" using up_six [OF assms(2)] by (simp add: db)
    moreover have "\<exists>m. sql_insert env (insert_notification n) (six_db db) = (Inl m, six_db db)"
      if "Type n = NotificationTypeKYCStatusChanged" for env n using six_db_refuses [OF that] by (simp add: db)
    ultimately show ?thesis using False all by auto
  qed
qed

lemma rolling_back_the_schema_witness:
  "exec_files plain_pg down_files migrated = (Inr (), empty_db\<lparr>db_extensions := [''pgcrypto'']\<rparr>)"
proof -
  have "holds migrated no_rows" using holds_empty by (simp add: no_rows_def)
  moreover have "inbox_ok (sd_inbox no_rows)" "\<not> has_status_rows no_rows" by (simp_all add: no_rows_def has_status_rows_def)
  ultimately show ?thesis using rolling_back_the_schema [of migrated no_rows plain_pg] by simp
qed

end
