(* ===== verification/Housekeeping.thy ===== *)
theory Housekeeping
  imports Durability
begin

text \<open>
  The scheduled task \<open>db:gc\<close> of the Taskfile beside the running service: three DELETE statements sent by \<open>psql\<close>,
  each on its own, the next one also when one has failed. \<open>NOW() - INTERVAL 'n days'\<close> is an argument, since what a
  day is depends on the time zone of the session.
\<close>

definition db_gc ::
  "fault \<times> fault \<times> fault \<Rightarrow> (nat \<Rightarrow> instant) \<Rightarrow> inbox \<times> send_log \<times> receipt list \<Rightarrow> inbox \<times> send_log \<times> receipt list" where
  "db_gc faults days_ago tables = (case (faults, tables) of
     ((f1, f2, f3), (inbox, log, receipts)) \<Rightarrow>
       (snd (db_exec f1 (delete_before CreatedAt (days_ago 90)) inbox),
        snd (db_exec f2 (delete_before l_created (days_ago 30)) log),
        snd (db_exec f3 (delete_before rc_received_at (days_ago 30)) receipts)))"

text \<open>The service with the task: it shares the database, and the state of the service has two of the three tables.\<close>

datatype maintained = Serves event | Db_Gc "fault \<times> fault \<times> fault" "nat \<Rightarrow> instant"

fun maintained_event ::
  "('c, 'b) router_lib \<Rightarrow> (route list \<Rightarrow> ctx \<Rightarrow> endpoint option) \<Rightarrow> json \<Rightarrow> 'r started \<Rightarrow> maintained \<Rightarrow>
   ('r, 'c, 'b) service_state \<Rightarrow> unit \<times> ('r, 'c, 'b) service_state" where
  "maintained_event lib gin_find js st (Serves e) s = service_event lib gin_find js st e s"
| "maintained_event lib gin_find js st (Db_Gc fs days_ago) s =
     (case db_gc fs days_ago (sv_inbox s, cs_log (sv_comms s), []) of
        (inbox, log, _) \<Rightarrow> ((), s\<lparr>sv_inbox := inbox, sv_comms := (sv_comms s)\<lparr>cs_log := log\<rparr>\<rparr>))"

lemma delete_before_kept: "snd (delete_before at c s) = filter (\<lambda>r. c \<le> at r) s"
  by (simp add: delete_before_def not_less)

lemma deleted_state:
  obtains "snd (db_exec f (delete_before at c) s) = s" | "snd (db_exec f (delete_before at c) s) = filter (\<lambda>r. c \<le> at r) s"
  using db_exec_state [of f "delete_before at c" s] by (auto simp: delete_before_kept)

lemma inbox_ok_filter:
  assumes "inbox_ok s"
  shows "inbox_ok (filter P s)"
proof -
  have fewer: "length (filter Q (filter P s)) \<le> length (filter Q s)" for Q
    by (induction s) auto
  show ?thesis unfolding inbox_ok_def
  proof (intro conjI allI ballI)
    show "distinct (map ID (filter P s))" using assms by (simp add: inbox_ok_def distinct_map_filter)
    show "length (filter (\<lambda>r. UserID r = u \<and> SourceEventID r = Some e) (filter P s)) \<le> 1" for u e
      using fewer [of "\<lambda>r. UserID r = u \<and> SourceEventID r = Some e"] assms unfolding inbox_ok_def by (meson order_trans)
  qed (use assms in \<open>simp add: inbox_ok_def\<close>)
qed

lemma log_ok_filter: "log_ok s \<Longrightarrow> log_ok (filter P s)"
  by (auto simp: log_ok_def distinct_map_filter list_all_iff)

lemma gc_ok:
  assumes "service_ok pg s"
  shows "service_ok pg (snd (maintained_event lib gin_find js st (Db_Gc fs d) s))"
proof -
  obtain f1 f2 f3 where fs: "fs = (f1, f2, f3)" by (cases fs) auto
  have "inbox_ok (snd (db_exec f1 (delete_before CreatedAt (d 90)) (sv_inbox s)))"
    using assms inbox_ok_filter by (cases rule: deleted_state [of f1 CreatedAt "d 90" "sv_inbox s"]) (auto simp: service_ok_def)
  moreover have "log_ok (snd (db_exec f2 (delete_before l_created (d 30)) (cs_log (sv_comms s))))"
    using assms log_ok_filter by (cases rule: deleted_state [of f2 l_created "d 30" "cs_log (sv_comms s)"]) (auto simp: service_ok_def)
  ultimately show ?thesis using assms by (simp add: fs db_gc_def service_ok_def)
qed

lemma maintained_ok:
  assumes "fst (run w t) = Inr st" "service_ok (rt_pg lib) s"
  shows "service_ok (rt_pg lib) (snd (maintained_event lib gin_find js st e s))"
proof (cases e)
  case (Serves ev)
  then show ?thesis using service_event_ok [OF assms] by (simp only: maintained_event.simps)
next
  case (Db_Gc fs d)
  show ?thesis unfolding Db_Gc by (rule gc_ok [OF assms(2)])
qed

lemma read_later_created [simp]: "read_later r r' \<Longrightarrow> CreatedAt r' = CreatedAt r"
  unfolding read_later_def by (elim disjE conjE exE; simp)

lemma maintained_stay:
  assumes "r \<in> set (sv_inbox s)" "\<forall>fs d. e = Db_Gc fs d \<longrightarrow> d 90 \<le> CreatedAt r"
  shows "\<exists>r' \<in> set (sv_inbox (snd (maintained_event lib gin_find js st e s))). read_later r r'"
proof (cases e)
  case (Serves ev)
  then show ?thesis using event_stays [of s lib gin_find js st ev] assms(1) by (auto simp: rows_stay_def simp del: service_event.simps)
next
  case (Db_Gc fs d)
  obtain f1 f2 f3 where fs: "fs = (f1, f2, f3)" by (cases fs) auto
  have "d 90 \<le> CreatedAt r" using assms(2) Db_Gc by blast
  then have "r \<in> set (snd (db_exec f1 (delete_before CreatedAt (d 90)) (sv_inbox s)))"
    using assms(1) by (cases rule: deleted_state [of f1 CreatedAt "d 90" "sv_inbox s"]) auto
  then show ?thesis by (auto simp: Db_Gc fs db_gc_def)
qed

lemma maintained_run_stay:
  assumes "r \<in> set (sv_inbox s)" "\<forall>fs d. Db_Gc fs d \<in> set es \<longrightarrow> d 90 \<le> CreatedAt r"
  shows "\<exists>r' \<in> set (sv_inbox (snd (run_steps (maintained_event lib gin_find js st) es s))). read_later r r'"
  using assms
proof (induction es arbitrary: r s)
  case Nil
  then show ?case by auto
next
  case (Cons e es)
  obtain r1 where r1: "r1 \<in> set (sv_inbox (snd (maintained_event lib gin_find js st e s)))" "read_later r r1"
    using maintained_stay [of r s e lib gin_find js st] Cons.prems by auto
  have "\<forall>fs d. Db_Gc fs d \<in> set es \<longrightarrow> d 90 \<le> CreatedAt r1" using Cons.prems(2) r1(2) by simp
  from Cons.IH [OF r1(1) this] show ?case
    using r1(2) by (auto simp: run_steps_Cons intro: read_later_trans simp del: run_steps.simps)
qed

text \<open>C19. Housekeeping is safe. With \<open>db:gc\<close> running at any times between requests, messages and retention runs, and
  failing in any way, the tables keep their shape; a notification is there, as it was or read since, at least until
  a run of the task whose ninety days it is older than; and after a run that succeeds no older one is left, and no
  row of the send log or receipt older than thirty days.\<close>

theorem housekeeping_is_safe:
  assumes "fst (run w t) = Inr st" "service_ok (rt_pg lib) s"
    and "s' = snd (run_steps (maintained_event lib gin_find js st) es s)"
  shows "service_ok (rt_pg lib) s' \<and>
    (\<forall>r \<in> set (sv_inbox s). (\<forall>fs d. Db_Gc fs d \<in> set es \<longrightarrow> d 90 \<le> CreatedAt r) \<longrightarrow>
      (\<exists>r' \<in> set (sv_inbox s'). read_later r r')) \<and>
    db_gc (NoFault, NoFault, NoFault) d (inbox, log, receipts) =
      (filter (\<lambda>r. d 90 \<le> CreatedAt r) inbox, filter (\<lambda>r. d 30 \<le> l_created r) log,
       filter (\<lambda>r. d 30 \<le> rc_received_at r) receipts)"
proof (intro conjI ballI impI)
  show "service_ok (rt_pg lib) s'" unfolding assms(3)
    by (rule run_steps_inv [where P = "service_ok (rt_pg lib)"]) (use assms maintained_ok [OF assms(1)] in auto)
next
  fix r assume "r \<in> set (sv_inbox s)" "\<forall>fs d. Db_Gc fs d \<in> set es \<longrightarrow> d 90 \<le> CreatedAt r"
  then show "\<exists>r' \<in> set (sv_inbox s'). read_later r r'" unfolding assms(3) by (rule maintained_run_stay)
qed (simp add: db_gc_def delete_before_kept)

lemma housekeeping_is_safe_witness:
  "\<exists>st. fst (run prod_world Map.empty) = Inr st \<and>
     service_ok plain_pg (snd (run_steps (maintained_event sample_router_lib (\<lambda>_ _. Some Inbox_ReadAll) sample_json st)
       [Serves (Request sample_rq (sample_ctx ''0'')), Db_Gc (NoFault, LostReply [], NoFault) (\<lambda>n. - int n)] sample_sv))"
proof -
  obtain st where st: "fst (run prod_world Map.empty) = Inr st" using prod_starts by blast
  have pg: "rt_pg sample_router_lib = plain_pg" by (simp add: sample_router_lib_def)
  have "service_ok plain_pg sample_sv"
    by (simp add: service_ok_def sample_sv_def sample_state_def inbox_ok_def waitlist_ok_def log_ok_def sample_row_def
        notifications_type_check_def)
  then show ?thesis using housekeeping_is_safe [OF st _ refl, of sample_router_lib] st pg by metis
qed

subsection \<open>Redelivery\<close>

text \<open>C21. Redelivery is harmless while the notification is kept. Once a message that asks for a notification has been
  handled to the end, then after any requests, messages, retention runs and runs of \<open>db:gc\<close>, in any order, delivering
  it again leaves the inbox as it is, whatever the clock and the fresh id are then, and whatever the database does
  with the statement; if the database answers, the redelivery even counts as handled. The one thing that ends this is
  a run of \<open>db:gc\<close> whose ninety days the row of the event is older than: it deletes the row, and a later redelivery
  would store it anew.\<close>

theorem redelivery_harmless:
  assumes "wanted js (rt_str lib) (kycHMACSecret (st_consumer st)) m i = Some n"
    and "fst (handle (rt_pg lib) js (rt_str lib) (st_consumer st) m i ci (sv_inbox s, sv_comms s)) = Created"
    and "s1 = snd (maintained_event lib gin_find js st (Serves (Delivery m i ci)) s)"
    and "s2 = snd (run_steps (maintained_event lib gin_find js st) es s1)"
    and "\<forall>r \<in> set (sv_inbox s1). same_source n r \<longrightarrow> (\<forall>fs d. Db_Gc fs d \<in> set es \<longrightarrow> d 90 \<le> CreatedAt r)"
  shows "sv_inbox (snd (maintained_event lib gin_find js st (Serves (Delivery m i' ci')) s2)) = sv_inbox s2 \<and>
    (db_fault i' = NoFault \<longrightarrow>
       handle (rt_pg lib) js (rt_str lib) (st_consumer st) m i' ci' (sv_inbox s2, sv_comms s2) =
         (Created, sv_inbox s2, sv_comms s2))"
proof -
  obtain st1 where h: "handle (rt_pg lib) js (rt_str lib) (st_consumer st) m i ci (sv_inbox s, sv_comms s) = (Created, st1)"
    using assms(2) by (metis prod.collapse)
  have s1: "sv_inbox s1 = fst st1" using h assms(3) by (simp add: case_prod_unfold)
  obtain r where ok: "storable (rt_pg lib) n" and r: "r \<in> set (sv_inbox s1)" "same_source n r"
    using handled_stored [OF assms(1) h] s1 by auto
  obtain r' where r': "r' \<in> set (sv_inbox s2)" "read_later r r'"
    using maintained_run_stay [OF r(1), of es lib gin_find js st] assms(4,5) r by blast
  have "same_source n r'" using r(2) r'(2) by (simp add: same_source_def)
  from held_redelivery [OF assms(1) _ ok, of "sv_inbox s2" i' ci' "sv_comms s2"] r'(1) this
  have "fst (snd (handle (rt_pg lib) js (rt_str lib) (st_consumer st) m i' ci' (sv_inbox s2, sv_comms s2))) = sv_inbox s2"
    "db_fault i' = NoFault \<longrightarrow> handle (rt_pg lib) js (rt_str lib) (st_consumer st) m i' ci' (sv_inbox s2, sv_comms s2) =
      (Created, sv_inbox s2, sv_comms s2)" by blast+
  then show ?thesis by (simp add: case_prod_unfold)
qed

text \<open>The status change of user 1, delivered, read by nobody, past one run of the task, and delivered again.\<close>

lemma redelivery_harmless_witness:
  "\<exists>(st :: unit started) s2. s2 = snd (run_steps (maintained_event sample_router_lib (\<lambda>_ _. Some Inbox_ReadAll) sample_json st)
       [Serves (Request sample_rq (sample_ctx ''0'')), Db_Gc (NoFault, NoFault, NoFault) (\<lambda>n. - int n)]
       (snd (maintained_event sample_router_lib (\<lambda>_ _. Some Inbox_ReadAll) sample_json st
         (Serves (Delivery sample_message (Consumer.sample_input 9 77) (sample_env 1, 0))) (sample_sv\<lparr>sv_inbox := []\<rparr>)))) \<and>
     sv_inbox (snd (maintained_event sample_router_lib (\<lambda>_ _. Some Inbox_ReadAll) sample_json st
       (Serves (Delivery sample_message (Consumer.sample_input 10 99) (sample_env 2, 0))) s2)) = sv_inbox s2"
proof -
  let ?step = "maintained_event sample_router_lib (\<lambda>_ _. Some Inbox_ReadAll) sample_json"
  let ?es = "[Serves (Request sample_rq (sample_ctx ''0'')), Db_Gc (NoFault, NoFault, NoFault) (\<lambda>n. - int n)]"
  let ?m = "Serves (Delivery sample_message (Consumer.sample_input 9 77) (sample_env 1, 0))"
  let ?s = "sample_sv\<lparr>sv_inbox := []\<rparr>"
  obtain st0 :: "unit started" where st0: "fst (run prod_world Map.empty) = Inr st0" using prod_starts by blast
  define st where "st = st0\<lparr>st_consumer := \<lparr>has_redis = True, commsHandler = None, kycHMACSecret = ''k''\<rparr>\<rparr>"
  have k: "kycHMACSecret (st_consumer st) = kycHMACSecret Consumer.sample_consumer" by (simp add: st_def Consumer.sample_consumer_def)
  have lib: "rt_str sample_router_lib = dec_uuid" "rt_pg sample_router_lib = plain_pg" by (simp_all add: sample_router_lib_def)
  have w: "wanted sample_json (rt_str sample_router_lib) (kycHMACSecret (st_consumer st)) sample_message (Consumer.sample_input 9 77) =
      Some sample_status_row" using sample_wanted k lib by simp
  have ins: "Insert plain_pg NoFault sample_status_row [] = (Inr (), [sample_status_row])"
    by (simp add: Insert_def bound_def bindable_def insert_stmt_def insert_row_def sample_status_row_def sample_defs notification_type_defs)
  have h: "handle (rt_pg sample_router_lib) sample_json (rt_str sample_router_lib) (st_consumer st) sample_message
      (Consumer.sample_input 9 77) (sample_env 1, 0) (sv_inbox ?s, sv_comms ?s) = (Created, [sample_status_row], sv_comms ?s)"
    using handle_some [OF w] by (simp add: lib ins) (simp add: Consumer.sample_input_def ins)
  then have s1: "sv_inbox (snd (?step st ?m ?s)) = [sample_status_row]" by simp
  have "\<forall>r \<in> set (sv_inbox (snd (?step st ?m ?s))). same_source sample_status_row r \<longrightarrow>
      (\<forall>fs d. Db_Gc fs d \<in> set ?es \<longrightarrow> d 90 \<le> CreatedAt r)"
    unfolding s1 by (simp add: sample_status_row_def)
  from redelivery_harmless [OF w _ refl refl this, of "Consumer.sample_input 10 99" "(sample_env 2, 0)"] h
  show ?thesis by (simp del: run_steps.simps maintained_event.simps) blast
qed

subsection \<open>Who changes the messaging state\<close>

lemma send_request_changes:
  assumes "ServeHTTP lib gin_find en (q, c) s = (out, s')" "sv_comms s' \<noteq> sv_comms s"
  obtains svc tok req where "rc_CommsService (en_config en) = Some svc" "gin_find (en_routes en) c = Some Comms_Send"
    "map_of (rc_S2STokenMap (en_config en)) (trim_space (Header c headerServiceID)) = Some tok" "tok \<noteq> []"
    "Header c headerServiceToken = tok" "sv_comms s' = snd (Send (rt_comms lib) svc (rq_send q) req (sv_comms s))"
proof (rule served_cases [OF assms(1)])
  assume "data_of s' = data_of s"
  then show thesis using assms(2) by (simp add: data_of_def)
next
  fix c1 s1 r
  assume p: "pass (chain_of lib en q (gin_find (en_routes en) c)) c s = (Next c1, s1)" and d: "data_of s1 = data_of s"
    and h: "handler_of lib en q (gin_find (en_routes en) c) c1 s1 = (r, s')"
  have same: "sv_comms s1 = sv_comms s" using d by (simp add: data_of_def)
  have "\<not> (gin_find (en_routes en) c \<noteq> Some Comms_Send \<or> rc_CommsService (en_config en) = None)"
    using handler_touches(2) [OF h] assms(2) same by metis
  then obtain svc where f: "gin_find (en_routes en) c = Some Comms_Send" "rc_CommsService (en_config en) = Some svc" by auto
  have out: "sv_comms s' = snd (Send_Handler (rt_decode lib) (rt_parse lib) (rt_comms lib) svc (rq_send q) c1 (sv_comms s))"
    using h f same by (auto simp: handler_of_def Let_def split: prod.splits)
  have "\<exists>req. sv_comms s' = snd (Send (rt_comms lib) svc (rq_send q) req (sv_comms s))"
    using assms(2) unfolding out by (auto simp: Send_Handler_def split: sum.splits option.splits prod.splits) (metis snd_conv)+
  then show thesis using that f comms_passed [of lib en q Comms_Send c s c1 s1] p by auto
qed

lemma delivery_changes:
  assumes "fst (run w t) = Inr st"
    and "snd (snd (handle pg js str (st_consumer st) m i (env, clock) (inbox, cs))) \<noteq> cs"
  obtains svc evt where "rc_CommsService (en_config (st_router st)) = Some svc" "Channel m = ''comms.send_requested''"
    "length (Payload m) \<le> 65536" "unmarshal_event (w_codec w) (Payload m) = Inr evt"
    "VerifySendRequested (w_codec w) evt (EventHMACSecret (st_config st))"
    "SR_OccurredAt evt - 60 * 1000000000 \<le> clock" "clock \<le> SR_OccurredAt evt + 300 * 1000000000"
    "snd (snd (handle pg js str (st_consumer st) m i (env, clock) (inbox, cs))) =
       snd (Send (w_comms_lib w) svc env (ToSendRequest (uuid_text (w_codec w)) evt) cs)"
proof -
  obtain rdb svc where c: "st_consumer st = consumer_of w (st_config st) rdb svc" and
    n: "NewRouter (w_limiter w) (w_set_trusted w) (router_config_of (st_config st) rdb svc) = Inr (st_router st)"
    by (rule started_parts [OF assms(1)])
  have en: "rc_CommsService (en_config (st_router st)) = svc"
    using router_parts(1) [OF n] by (simp add: router_config_of_def)
  show thesis
  proof (cases svc)
    case None
    then have "commsHandler (st_consumer st) = None" by (simp add: c consumer_of_def new_consumer_defs)
    then show thesis using assms(2) by (auto simp: handle_def split: if_splits prod.splits)
  next
    case (Some v)
    then have h: "commsHandler (st_consumer st) =
        Some (comms_handler (w_comms_lib w) (w_codec w) (NewEventHandler v (EventHMACSecret (st_config st))))"
      by (simp add: c consumer_of_def new_consumer_defs)
    from delivery_acts_on_accepted_event [OF h assms(2)] that [of v] en Some show thesis
      by (auto simp: NewEventHandler_def)
  qed
qed

text \<open>C6. Nothing is sent, and nothing in the messaging state changes, unless asked for properly. Whatever happens to a
  started service, with \<open>db:gc\<close> beside it, one event changes the messaging state only in one of three ways. It is a message on
  \<open>comms.send_requested\<close> of at most 64 KiB that decodes to an event with a valid signature under the configured
  secret, whose time is at most five minutes old and at most one minute ahead; then the state changes exactly as the
  send the event asks for changes it. Or it is a request to the send endpoint that shows the non-empty token
  registered for its service id; then it changes exactly as one send changes it. In both cases the messaging module
  is enabled. Or it is a retention or \<open>db:gc\<close> run, which only deletes rows of the send log.\<close>

theorem comms_changes_are_asked_for:
  assumes "fst (run w t) = Inr st" "s' = snd (maintained_event lib gin_find js st e s)" "sv_comms s' \<noteq> sv_comms s"
  shows "(\<exists>svc. rc_CommsService (en_config (st_router st)) = Some svc \<and>
      ((\<exists>m i env clock evt. e = Serves (Delivery m i (env, clock)) \<and> Channel m = ''comms.send_requested'' \<and>
          length (Payload m) \<le> 65536 \<and> unmarshal_event (w_codec w) (Payload m) = Inr evt \<and>
          VerifySendRequested (w_codec w) evt (EventHMACSecret (st_config st)) \<and>
          SR_OccurredAt evt - 60 * 1000000000 \<le> clock \<and> clock \<le> SR_OccurredAt evt + 300 * 1000000000 \<and>
          sv_comms s' = snd (Send (w_comms_lib w) svc env (ToSendRequest (uuid_text (w_codec w)) evt) (sv_comms s))) \<or>
       (\<exists>q c tok req. e = Serves (Request q c) \<and> gin_find (en_routes (st_router st)) c = Some Comms_Send \<and>
          map_of (S2STokenMap (Comms (st_config st))) (trim_space (Header c headerServiceID)) = Some tok \<and> tok \<noteq> [] \<and>
          Header c headerServiceToken = tok \<and>
          sv_comms s' = snd (Send (rt_comms lib) svc (rq_send q) req (sv_comms s))))) \<or>
    ((\<exists>f u cutoff. e = Serves (Retention f u cutoff)) \<or> (\<exists>fs d. e = Db_Gc fs d)) \<and>
      (\<exists>log. sv_comms s' = (sv_comms s)\<lparr>cs_log := log\<rparr> \<and> set log \<subseteq> set (cs_log (sv_comms s)))"
proof -
  obtain rdb svc where n: "NewRouter (w_limiter w) (w_set_trusted w) (router_config_of (st_config st) rdb svc) = Inr (st_router st)"
    by (rule started_parts [OF assms(1)])
  have en: "rc_S2STokenMap (en_config (st_router st)) = S2STokenMap (Comms (st_config st))"
    using router_parts(1) [OF n] by (simp add: router_config_of_def)
  have deleted: "set (snd (db_exec f (delete_before at u) l)) \<subseteq> set l" for f u and at :: "log_row \<Rightarrow> instant" and l
    by (cases rule: deleted_state [of f at u l]) auto
  show ?thesis
  proof (cases e)
    case (Db_Gc fs d)
    obtain f1 f2 f3 where fs: "fs = (f1, f2, f3)" by (cases fs) auto
    show ?thesis using assms(2) deleted [of f2 l_created "d 30" "cs_log (sv_comms s)"] by (auto simp: Db_Gc fs db_gc_def)
  next
    case (Serves ev)
    show ?thesis
    proof (cases ev)
      case (Retention f u cutoff)
      define log where "log = purge_log (rt_pg lib) f u cutoff (cs_log (sv_comms s))"
      have "set log \<subseteq> set (cs_log (sv_comms s))" unfolding log_def purge_log_state by (rule deleted)
      moreover have "sv_comms s' = (sv_comms s)\<lparr>cs_log := log\<rparr>" using assms(2) by (simp add: Serves Retention log_def)
      ultimately show ?thesis unfolding Serves Retention by blast
    next
      case (Request q c)
      obtain out s1 where s1: "ServeHTTP lib gin_find (st_router st) (q, c) s = (out, s1)" by (metis surj_pair)
      then have same: "s' = s1" using assms(2) by (simp add: Serves Request)
      obtain v tok req where "rc_CommsService (en_config (st_router st)) = Some v"
        "gin_find (en_routes (st_router st)) c = Some Comms_Send"
        "map_of (rc_S2STokenMap (en_config (st_router st))) (trim_space (Header c headerServiceID)) = Some tok" "tok \<noteq> []"
        "Header c headerServiceToken = tok" "sv_comms s1 = snd (Send (rt_comms lib) v (rq_send q) req (sv_comms s))"
        by (rule send_request_changes [OF s1 assms(3) [unfolded same]])
      then show ?thesis unfolding Serves Request same using en by metis
    next
      case (Delivery m i ci)
      obtain env clock where ci: "ci = (env, clock)" by (cases ci)
      have out: "sv_comms s' = snd (snd (handle (rt_pg lib) js (rt_str lib) (st_consumer st) m i (env, clock) (sv_inbox s, sv_comms s)))"
        using assms(2) by (simp add: Serves Delivery ci case_prod_unfold)
      from delivery_changes [OF assms(1) assms(3) [unfolded out]] show ?thesis unfolding Serves Delivery ci out by metis
    qed
  qed
qed

text \<open>A signed event, delivered to a service in production sixty nanoseconds after its time.\<close>

lemma comms_changes_are_asked_for_witness:
  "\<exists>st svc s'. fst (run (prod_world\<lparr>w_codec := sample_codec sample_secret\<rparr>) Map.empty) = Inr st \<and>
     s' = snd (maintained_event sample_router_lib (\<lambda>_ _. None) sample_json st
       (Serves (Delivery \<lparr>Channel = ''comms.send_requested'', Payload = ''{}''\<rparr> (Consumer.sample_input 9 77) (sample_env 1, 60))) sample_sv) \<and>
     sv_comms s' \<noteq> sv_comms sample_sv \<and>
     sv_comms s' = snd (Send sample_lib svc (sample_env 1) (ToSendRequest dec_uuid (signed_sample sample_secret)) (sv_comms sample_sv))"
proof -
  let ?w = "prod_world\<lparr>w_codec := sample_codec sample_secret\<rparr>"
  let ?m = "\<lparr>Channel = ''comms.send_requested'', Payload = ''{}''\<rparr>"
  obtain st svc where st: "fst (run ?w Map.empty) = Inr st" and
    h: "commsHandler (st_consumer st) = Some (comms_handler sample_lib (sample_codec sample_secret) (NewEventHandler svc sample_secret))"
    using prod_starts_with by blast
  define s' where "s' = snd (maintained_event sample_router_lib (\<lambda>_ _. None) sample_json st
      (Serves (Delivery ?m (Consumer.sample_input 9 77) (sample_env 1, 60))) sample_sv)"
  have acc: "accepted_event (sample_codec sample_secret) (hmacSecret (NewEventHandler svc sample_secret)) 60 ''{}'' (signed_sample sample_secret)"
    by (simp add: NewEventHandler_def signed_sample_accepted)
  have "sv_comms s' = snd (Handle sample_lib (sample_codec sample_secret) (NewEventHandler svc sample_secret) (sample_env 1) 60 ''{}'' (sv_comms sample_sv))"
    using h by (simp add: s'_def handle_def commsSendRequestedChannel_def maxPayloadBytes_def comms_handler_def)
  then have out: "sv_comms s' = snd (Send sample_lib svc (sample_env 1) (ToSendRequest dec_uuid (signed_sample sample_secret)) (sv_comms sample_sv))"
    using Handle_accepted [OF acc] by (simp add: NewEventHandler_def)
  then have changed: "sv_comms s' \<noteq> sv_comms sample_sv"
    using signed_sample_sends [of svc] by (simp add: sample_sv_def)
  from comms_changes_are_asked_for [OF st s'_def changed] out changed st show ?thesis unfolding s'_def by auto
qed

subsection \<open>Failed sends\<close>

text \<open>A row of the send log stays as it is, whatever is sent, until a purge it is old enough for.\<close>

lemma log_row_stays:
  assumes "fst (run w t) = Inr st" "r \<in> set (cs_log (sv_comms s))"
    and "\<forall>f u c. e = Serves (Retention f u c) \<longrightarrow>
      pg_time (rt_pg lib) (case c of None \<Rightarrow> u - retentionInterval | Some c \<Rightarrow> c) \<le> l_created r"
    and "\<forall>fs d. e = Db_Gc fs d \<longrightarrow> d 30 \<le> l_created r"
  shows "r \<in> set (cs_log (sv_comms (snd (maintained_event lib gin_find js st e s))))"
proof -
  have kept: "r \<in> set (snd (db_exec f (delete_before l_created c) (cs_log (sv_comms s))))" if "c \<le> l_created r" for f c
    using assms(2) that by (cases rule: deleted_state [of f l_created c "cs_log (sv_comms s)"]) auto
  show ?thesis
  proof (cases e)
    case (Db_Gc fs d)
    obtain f1 f2 f3 where fs: "fs = (f1, f2, f3)" by (cases fs) auto
    have "d 30 \<le> l_created r" using assms(4) Db_Gc by blast
    then show ?thesis by (simp add: Db_Gc fs db_gc_def kept)
  next
    case (Serves ev)
    show ?thesis
    proof (cases ev)
      case (Retention f u c)
      have "pg_time (rt_pg lib) (case c of None \<Rightarrow> u - retentionInterval | Some c \<Rightarrow> c) \<le> l_created r"
        using assms(3) Serves Retention by blast
      then show ?thesis by (simp add: Serves Retention purge_log_state kept)
    next
      case (Request q c)
      obtain out s1 where s1: "ServeHTTP lib gin_find (st_router st) (q, c) s = (out, s1)" by (metis surj_pair)
      have "r \<in> set (cs_log (sv_comms s1))"
      proof (cases "sv_comms s1 = sv_comms s")
        case False
        obtain v req where "sv_comms s1 = snd (Send (rt_comms lib) v (rq_send q) req (sv_comms s))"
          by (rule send_request_changes [OF s1 False])
        then show ?thesis using subsetD [OF send_keeps_rows assms(2)] by simp
      qed (use assms(2) in simp)
      then show ?thesis by (simp add: Serves Request s1)
    next
      case (Delivery m i ci)
      obtain env clock where ci: "ci = (env, clock)" by (cases ci)
      let ?cs = "snd (snd (handle (rt_pg lib) js (rt_str lib) (st_consumer st) m i (env, clock) (sv_inbox s, sv_comms s)))"
      have "r \<in> set (cs_log ?cs)"
      proof (cases "?cs = sv_comms s")
        case False
        obtain v evt where "?cs = snd (Send (w_comms_lib w) v env (ToSendRequest (uuid_text (w_codec w)) evt) (sv_comms s))"
          by (rule delivery_changes [OF assms(1) False])
        then show ?thesis using subsetD [OF send_keeps_rows assms(2)] by simp
      qed (use assms(2) in simp)
      then show ?thesis by (simp add: Serves Delivery ci case_prod_unfold)
    qed
  qed
qed

lemma log_row_stays_run:
  assumes "fst (run w t) = Inr st" "r \<in> set (cs_log (sv_comms s))"
    and "\<forall>f u c. Serves (Retention f u c) \<in> set es \<longrightarrow>
      pg_time (rt_pg lib) (case c of None \<Rightarrow> u - retentionInterval | Some c \<Rightarrow> c) \<le> l_created r"
    and "\<forall>fs d. Db_Gc fs d \<in> set es \<longrightarrow> d 30 \<le> l_created r"
  shows "r \<in> set (cs_log (sv_comms (snd (run_steps (maintained_event lib gin_find js st) es s))))"
  using assms(2-4)
proof (induction es arbitrary: s)
  case (Cons e es)
  have "r \<in> set (cs_log (sv_comms (snd (maintained_event lib gin_find js st e s))))"
    by (rule log_row_stays [OF assms(1) Cons.prems(1)]) (use Cons.prems(2,3) in auto)
  then show ?case using Cons.IH Cons.prems(2,3) by (simp add: run_steps_Cons del: run_steps.simps)
qed simp

text \<open>C33. A failed send absorbs its key for as long as its row is kept. Take a send that claimed its key and failed,
  for whatever reason, in a started service. After any requests, messages and other sends, and any retention and
  \<open>db:gc\<close> runs for which the row is not yet old enough, every request with the same key that gets through to the database
  is answered as a duplicate without an error, with the failed send's id and the status FAILED (PENDING, if the write
  of the result was lost), and changes nothing: no provider is called. Only a purge frees the key.\<close>

theorem failed_send_absorbs_its_key:
  assumes "fst (run w t) = Inr st" "service_ok (rt_pg lib) s"
    and "validateRequest (rt_comms lib) req = None" "se_reserve env = NoFault"
    and "se_id env \<notin> l_id ` set (cs_log (sv_comms s))" "Req_IdempotencyKey req \<notin> held_keys (cs_log (sv_comms s))"
    and "Send (rt_comms lib) svc env req (sv_comms s) = ((res, Some e), cs)"
    and "s' = snd (run_steps (maintained_event lib gin_find js st) es (s\<lparr>sv_comms := cs\<rparr>))"
    and "\<forall>f u c. Serves (Retention f u c) \<in> set es \<longrightarrow>
      pg_time (rt_pg lib) (case c of None \<Rightarrow> u - retentionInterval | Some c \<Rightarrow> c) \<le> se_now env"
    and "\<forall>fs d. Db_Gc fs d \<in> set es \<longrightarrow> d 30 \<le> se_now env"
    and "validateRequest (rt_comms lib) req2 = None" "se_reserve env2 = NoFault" "se_select env2 = NoFault"
    and "Req_IdempotencyKey req2 = Req_IdempotencyKey req"
  shows "Send (rt_comms lib) svc env2 req2 (sv_comms s') =
    ((\<lparr>Res_SendID = se_id env, Res_Status = (case se_mark env of LostRequest m \<Rightarrow> ''PENDING'' | _ \<Rightarrow> ''FAILED''),
       Res_Deduped = True\<rparr>, None), sv_comms s')"
proof -
  let ?row = "result_row env StatusFailed (Some e) (claimed_row svc env req)"
  let ?s = "s\<lparr>sv_comms := cs\<rparr>"
  have row: "l_id ?row = se_id env" "l_key ?row = Req_IdempotencyKey req" "l_created ?row = se_now env"
    "l_status ?row = (case se_mark env of LostRequest m \<Rightarrow> ''PENDING'' | _ \<Rightarrow> ''FAILED'')"
    by (simp_all add: result_row_def claimed_row_def status_defs split: fault.splits)
  have "cs_log cs = cs_log (sv_comms s) @ [?row]" by (rule failed_send_row [OF assms(3-7)])
  then have there: "?row \<in> set (cs_log (sv_comms ?s))" by simp
  have "log_ok (cs_log cs)" using send_log_ok [of "sv_comms s" "rt_comms lib" svc env req] assms(2,7) by (simp add: service_ok_def)
  then have "service_ok (rt_pg lib) ?s" using assms(2) by (simp add: service_ok_def)
  then have "service_ok (rt_pg lib) s'" unfolding assms(8)
    by (intro run_steps_inv [where P = "service_ok (rt_pg lib)"]) (use maintained_ok [OF assms(1)] in auto)
  then have ok: "log_ok (cs_log (sv_comms s'))" by (simp add: service_ok_def)
  have "?row \<in> set (cs_log (sv_comms s'))" unfolding assms(8)
    by (rule log_row_stays_run [OF assms(1) there, unfolded row(3), OF assms(9,10)])
  from send_taken [OF assms(11-13) ok this] row(1,2,4) assms(14) show ?thesis by simp
qed

text \<open>A send without a template fails; after a request and both purges its key answers FAILED.\<close>

lemma failed_send_absorbs_its_key_witness:
  "\<exists>st cs e s'. fst (run prod_world Map.empty) = Inr st \<and>
     Send sample_lib sample_service (sample_env 1) sample_request (sample_state\<lparr>cs_templates := Map.empty\<rparr>) =
       ((no_result, Some e), cs) \<and> Is e = ErrTemplateNotFound \<and>
     s' = snd (run_steps (maintained_event sample_router_lib (\<lambda>_ _. Some Inbox_ReadAll) sample_json st)
       [Serves (Request sample_rq (sample_ctx ''0'')), Serves (Retention NoFault 9 (Some 5)), Db_Gc (NoFault, NoFault, NoFault) (\<lambda>n. 5)]
       (sample_sv\<lparr>sv_comms := cs\<rparr>)) \<and>
     Send sample_lib sample_service (sample_env 2) sample_request (sv_comms s') =
       ((\<lparr>Res_SendID = 1, Res_Status = ''FAILED'', Res_Deduped = True\<rparr>, None), sv_comms s')"
proof -
  let ?st = "sample_state\<lparr>cs_templates := Map.empty\<rparr>" and ?s = "sample_sv\<lparr>sv_comms := sample_state\<lparr>cs_templates := Map.empty\<rparr>\<rparr>"
  let ?es = "[Serves (Request sample_rq (sample_ctx ''0'')), Serves (Retention NoFault 9 (Some 5)),
    Db_Gc (NoFault, NoFault, NoFault) (\<lambda>n. 5)]"
  obtain st where st: "fst (run prod_world Map.empty) = Inr st" using prod_starts by blast
  obtain cs where s: "Send sample_lib sample_service (sample_env 1) sample_request ?st =
      ((no_result, Some (bare ErrTemplateNotFound)), cs)"
    using sample_validates sample_claim_stmt [of 1]
    by (auto simp: Send_cases claimed_send_def sample_send bare_def)
  have lib: "rt_comms sample_router_lib = sample_lib" "rt_pg sample_router_lib = plain_pg" by (simp_all add: sample_router_lib_def)
  have ok: "service_ok (rt_pg sample_router_lib) ?s"
    by (simp add: lib service_ok_def sample_sv_def sample_state_def inbox_ok_def waitlist_ok_def log_ok_def sample_row_def
        notifications_type_check_def)
  have a: "se_reserve (sample_env i) = NoFault" "se_select (sample_env i) = NoFault" for i by (simp_all add: sample_env_def)
  have b: "se_id (sample_env 1) \<notin> l_id ` set (cs_log (sv_comms ?s))"
    "Req_IdempotencyKey sample_request \<notin> held_keys (cs_log (sv_comms ?s))"
    by (simp_all add: sample_state_def held_keys_def)
  have v: "validateRequest (rt_comms sample_router_lib) sample_request = None" by (simp add: lib sample_validates)
  have s1: "Send (rt_comms sample_router_lib) sample_service (sample_env 1) sample_request (sv_comms ?s) =
      ((no_result, Some (bare ErrTemplateNotFound)), cs)" using s by (simp add: lib)
  have c: "\<forall>f u c. Serves (Retention f u c) \<in> set ?es \<longrightarrow>
      pg_time (rt_pg sample_router_lib) (case c of None \<Rightarrow> u - retentionInterval | Some c \<Rightarrow> c) \<le> se_now (sample_env 1)"
    "\<forall>fs d. Db_Gc fs d \<in> set ?es \<longrightarrow> d 30 \<le> se_now (sample_env 1)"
    by (simp_all add: lib plain_pg_def sample_env_def)
  from failed_send_absorbs_its_key [OF st ok v a(1) b s1 refl c v a(1) [of 2] a(2) [of 2] refl] s st
  show ?thesis by (simp add: lib bare_def sample_env_def del: run_steps.simps)
qed

end
